theory Spec2Isabelle
  imports Complex_Main "HOL-Library.Monad_Syntax" "HOL-Library.AList"
begin

section \<open>Floating-point cells\<close>

text \<open>
  The numeric cells of a pandas table are IEEE doubles. A finite double is read as the real
  number it denotes; the three special values are kept apart, because the source depends on
  them: \<open>NaN\<close> is the missing-value marker of pandas, and \<open>np.log10(0.0)\<close> is \<open>-inf\<close>.
  The logarithm of a \<open>Fin\<close> value is taken exactly; of the rounding of a product, what
  happens near zero is modelled (see \<open>to_double\<close>).
\<close>

datatype fl = Fin real | NaN | PInf | NInf

text \<open>Comparisons as IEEE has them: every comparison with \<open>NaN\<close> is false.\<close>

fun fl_le :: "fl \<Rightarrow> fl \<Rightarrow> bool" where
  "fl_le NaN y = False"
| "fl_le x NaN = False"
| "fl_le NInf y = True"
| "fl_le x PInf = True"
| "fl_le (Fin a) (Fin b) = (a \<le> b)"
| "fl_le PInf y = False"
| "fl_le (Fin a) NInf = False"

fun fl_lt :: "fl \<Rightarrow> fl \<Rightarrow> bool" where
  "fl_lt NaN y = False"
| "fl_lt x NaN = False"
| "fl_lt (Fin a) (Fin b) = (a < b)"
| "fl_lt NInf NInf = False"
| "fl_lt NInf y = True"
| "fl_lt PInf y = False"
| "fl_lt (Fin a) PInf = True"
| "fl_lt (Fin a) NInf = False"

definition fl_ge :: "fl \<Rightarrow> fl \<Rightarrow> bool" where
  "fl_ge x y = fl_le y x"

definition fl_gt :: "fl \<Rightarrow> fl \<Rightarrow> bool" where
  "fl_gt x y = fl_lt y x"

text \<open>
  Rounding of an exact result to a double. Below the least normal double, \<open>2^-1022\<close>, the
  doubles are the multiples of \<open>2^-1074\<close> and the rounding (to the nearest, ties to even) is
  modelled: a product of magnitude at most \<open>2^-1075\<close> underflows to 0. From \<open>2^-1022\<close>
  on, the rounding, a relative error of at most \<open>2^-53\<close>, and overflow are not modelled.
\<close>

definition min_normal :: real where
  "min_normal = 1 / 2 ^ 1022"

definition rne :: "real \<Rightarrow> int" where
  "rne x =
     (if x - of_int \<lfloor>x\<rfloor> < 1 / 2 then \<lfloor>x\<rfloor>
      else if 1 / 2 < x - of_int \<lfloor>x\<rfloor> then \<lfloor>x\<rfloor> + 1
      else if even \<lfloor>x\<rfloor> then \<lfloor>x\<rfloor> else \<lfloor>x\<rfloor> + 1)"

definition to_double :: "real \<Rightarrow> fl" where
  "to_double p =
     (if \<bar>p\<bar> < min_normal then Fin (of_int (rne (p * 2 ^ 1074)) / 2 ^ 1074) else Fin p)"

text \<open>Multiplication by a finite scalar (\<open>series * 1e-9\<close>, \<open>ratio * 100\<close>).\<close>

fun fl_scale :: "fl \<Rightarrow> real \<Rightarrow> fl" where
  "fl_scale (Fin a) k = to_double (a * k)"
| "fl_scale NaN k = NaN"
| "fl_scale PInf k = (if 0 < k then PInf else if k < 0 then NInf else NaN)"
| "fl_scale NInf k = (if 0 < k then NInf else if k < 0 then PInf else NaN)"

fun fl_neg :: "fl \<Rightarrow> fl" where
  "fl_neg (Fin a) = Fin (- a)"
| "fl_neg NaN = NaN"
| "fl_neg PInf = NInf"
| "fl_neg NInf = PInf"

text \<open>
  \<open>np.log10\<close>: minus infinity at zero and \<open>NaN\<close> below it; numpy warns there and does
  not raise.
\<close>

fun fl_log10 :: "fl \<Rightarrow> fl" where
  "fl_log10 (Fin a) = (if 0 < a then Fin (log 10 a) else if a = 0 then NInf else NaN)"
| "fl_log10 NaN = NaN"
| "fl_log10 PInf = PInf"
| "fl_log10 NInf = NaN"

fun fl_add :: "fl \<Rightarrow> fl \<Rightarrow> fl" where
  "fl_add NaN y = NaN"
| "fl_add x NaN = NaN"
| "fl_add (Fin a) (Fin b) = Fin (a + b)"
| "fl_add PInf NInf = NaN"
| "fl_add NInf PInf = NaN"
| "fl_add PInf y = PInf"
| "fl_add NInf y = NInf"
| "fl_add (Fin a) y = y"

text \<open>
  Division of a double by a count, as numpy divides its scalars: it never raises, a zero
  divisor gives \<open>nan\<close> for a zero numerator and an infinity otherwise.
\<close>

fun fl_div_count :: "fl \<Rightarrow> nat \<Rightarrow> fl" where
  "fl_div_count (Fin a) n =
     (if n = 0 then (if a = 0 then NaN else if 0 < a then PInf else NInf)
      else Fin (a / real n))"
| "fl_div_count x n = x"

definition fl_min :: "fl \<Rightarrow> fl \<Rightarrow> fl" where
  "fl_min a b = (if fl_le a b then a else b)"

definition fl_max :: "fl \<Rightarrow> fl \<Rightarrow> fl" where
  "fl_max a b = (if fl_le a b then b else a)"

section \<open>Tables\<close>

text \<open>
  A cell is a double, a string, a boolean or an integer. A series is the list of the cells of
  one column; a DataFrame is its number of rows and the association list of its columns, in
  column order. A missing value is the cell \<open>F NaN\<close>, in numeric and in string columns alike,
  as \<open>read_csv\<close> produces it.
\<close>

datatype cell = F fl | S string | B bool | I int

type_synonym series = "cell list"

record dataframe =
  nrows :: nat
  data :: "(string \<times> series) list"

definition columns :: "dataframe \<Rightarrow> string list" where
  "columns df = map fst (data df)"

text \<open>
  A result of type \<open>'a option\<close> is \<open>None\<close> where the Python raises: \<open>KeyError\<close> for a
  column that is not in the table, \<open>TypeError\<close> for a string in arithmetic or in a
  comparison with a number.
\<close>

definition getitem :: "dataframe \<Rightarrow> string \<Rightarrow> series option" where
  "getitem df c = map_of (data df) c"

text \<open>\<open>df[c] = s\<close>: replaces the column where it stands, or appends it as the last one.\<close>

definition setitem :: "dataframe \<Rightarrow> string \<Rightarrow> series \<Rightarrow> dataframe" where
  "setitem df c s = df\<lparr>data := AList.update c s (data df)\<rparr>"

definition drop_columns :: "dataframe \<Rightarrow> string list \<Rightarrow> dataframe" where
  "drop_columns df cs = df\<lparr>data := filter (\<lambda>(c, s). c \<notin> set cs) (data df)\<rparr>"

text \<open>Selection of the rows where a boolean mask is true (\<open>df[mask]\<close>).\<close>

fun select :: "bool list \<Rightarrow> 'a list \<Rightarrow> 'a list" where
  "select (b # bs) (x # xs) = (if b then x # select bs xs else select bs xs)"
| "select bs xs = []"

definition count_true :: "bool list \<Rightarrow> nat" where
  "count_true m = length (filter (\<lambda>b. b) m)"

definition boolean_index :: "dataframe \<Rightarrow> bool list \<Rightarrow> dataframe" where
  "boolean_index df m =
     \<lparr>nrows = count_true m, data = map (\<lambda>(c, s). (c, select m s)) (data df)\<rparr>"

definition isna :: "cell \<Rightarrow> bool" where
  "isna v = (v = F NaN)"

text \<open>The number a cell stands for; a string has none.\<close>

fun num_of :: "cell \<Rightarrow> fl option" where
  "num_of (F x) = Some x"
| "num_of (I n) = Some (Fin (real_of_int n))"
| "num_of (B b) = Some (Fin (if b then 1 else 0))"
| "num_of (S s) = None"

fun those_list :: "'a option list \<Rightarrow> 'a list option" where
  "those_list [] = Some []"
| "those_list (None # xs) = None"
| "those_list (Some x # xs) = map_option ((#) x) (those_list xs)"

definition nums :: "series \<Rightarrow> fl list option" where
  "nums s = those_list (map num_of s)"

definition series_gt :: "series \<Rightarrow> real \<Rightarrow> bool list option" where
  "series_gt s k = map_option (map (\<lambda>x. fl_gt x (Fin k))) (nums s)"

definition series_le :: "series \<Rightarrow> fl \<Rightarrow> bool list option" where
  "series_le s k = map_option (map (\<lambda>x. fl_le x k)) (nums s)"

definition series_ge :: "series \<Rightarrow> fl \<Rightarrow> bool list option" where
  "series_ge s k = map_option (map (\<lambda>x. fl_ge x k)) (nums s)"

definition series_mul :: "series \<Rightarrow> real \<Rightarrow> series option" where
  "series_mul s k = map_option (map (\<lambda>x. F (fl_scale x k))) (nums s)"

definition astype_int :: "bool list \<Rightarrow> int list" where
  "astype_int m = map (\<lambda>b. if b then 1 else 0) m"

definition add_int :: "int list \<Rightarrow> int list \<Rightarrow> int list" where
  "add_int xs ys = map2 (+) xs ys"

definition and_mask :: "bool list \<Rightarrow> bool list \<Rightarrow> bool list" where
  "and_mask xs ys = map2 (\<and>) xs ys"

text \<open>
  \<open>df.dropna(subset=cs)\<close>: \<open>KeyError\<close> when a label of the subset is not a column;
  otherwise the rows with no missing value in the columns of the subset.
\<close>

definition notna_mask :: "dataframe \<Rightarrow> string list \<Rightarrow> bool list" where
  "notna_mask df cs =
     map (\<lambda>i. \<forall>c \<in> set cs. case getitem df c of None \<Rightarrow> True
                                 | Some s \<Rightarrow> \<not> isna (s ! i)) [0..<nrows df]"

definition dropna :: "dataframe \<Rightarrow> string list \<Rightarrow> dataframe option" where
  "dropna df cs =
     (if \<forall>c \<in> set cs. c \<in> set (columns df)
      then Some (boolean_index df (notna_mask df cs)) else None)"

section \<open>The property transformer\<close>

text \<open>
  \<open>calculate_lipinski\<close> of \<^verbatim>\<open>scripts/analysis/molecular_analysis.py\<close>. The Python
  works in place on the table it is given and returns that same table; the value below is
  both what it returns and what its argument holds afterwards.
\<close>

definition calculate_lipinski :: "dataframe \<Rightarrow> dataframe option" where
  "calculate_lipinski df0 = do {
     df \<leftarrow> dropna df0 [''mw'', ''logp'', ''hbd'', ''hba''];
     mw \<leftarrow> getitem df ''mw'';
     a \<leftarrow> series_gt mw 500;
     logp \<leftarrow> getitem df ''logp'';
     b \<leftarrow> series_gt logp 5;
     hbd \<leftarrow> getitem df ''hbd'';
     c \<leftarrow> series_gt hbd 5;
     hba \<leftarrow> getitem df ''hba'';
     d \<leftarrow> series_gt hba 10;
     let violations =
       add_int (add_int (add_int (astype_int a) (astype_int b)) (astype_int c)) (astype_int d);
     let df = setitem df ''lipinski_violations'' (map I violations);
     let df = setitem df ''is_drug_like'' (map (\<lambda>v. B (v = 0)) violations);
     Some df
   }"

text \<open>
  \<open>calculate_pic50\<close>. The Python adds the columns \<open>ic50_M\<close> and \<open>pIC50\<close> to the table
  it is given and returns a new table without \<open>ic50_M\<close>. \<open>pic50_inplace\<close> is what the
  argument holds afterwards, \<open>calculate_pic50\<close> the table returned. \<open>nano\<close> is the
  literal \<open>1e-9\<close>, read as the real number it writes.
\<close>

definition nano :: real where
  "nano = 1 / 10 ^ 9"

definition pic50_inplace :: "dataframe \<Rightarrow> dataframe option" where
  "pic50_inplace df0 = do {
     ic50 \<leftarrow> getitem df0 ''ic50'';
     m \<leftarrow> series_mul ic50 nano;
     let df = setitem df0 ''ic50_M'' m;
     s \<leftarrow> getitem df ''ic50_M'';
     nonpos \<leftarrow> series_le s (Fin 0);
     let df = setitem df ''ic50_M'' (map2 (\<lambda>b v. if b then F NaN else v) nonpos s);
     s \<leftarrow> getitem df ''ic50_M'';
     xs \<leftarrow> nums s;
     let df = setitem df ''pIC50'' (map (\<lambda>x. F (fl_neg (fl_log10 x))) xs);
     Some df
   }"

definition calculate_pic50 :: "dataframe \<Rightarrow> dataframe option" where
  "calculate_pic50 df0 = map_option (\<lambda>df. drop_columns df [''ic50_M'']) (pic50_inplace df0)"

text \<open>
  What \<open>calculate_pic50\<close> computes for one cell of \<open>ic50\<close>: the molar value with the
  non-positive ones replaced by \<open>NaN\<close>, and minus its decimal logarithm.
\<close>

definition molar :: "fl \<Rightarrow> fl" where
  "molar x = (if fl_le (fl_scale x nano) (Fin 0) then NaN else fl_scale x nano)"

definition pic50_cell :: "fl \<Rightarrow> fl" where
  "pic50_cell x = fl_neg (fl_log10 (molar x))"

text \<open>
  \<open>analyze_activity_relationships\<close> of \<^verbatim>\<open>scripts/analysis/activity_analyzer.py\<close>,
  up to its line 22: the table read from the CSV file with the column \<open>pIC50\<close> added. The
  rest of the function draws plots and writes the correlation matrix of that table. \<open>None\<close>
  is an exception, which the function catches and prints.
\<close>

definition analyze_activity_relationships :: "dataframe \<Rightarrow> dataframe option" where
  "analyze_activity_relationships df = do {
     ic50 \<leftarrow> getitem df ''ic50'';
     m \<leftarrow> series_mul ic50 nano;
     xs \<leftarrow> nums m;
     Some (setitem df ''pIC50'' (map (\<lambda>x. F (fl_neg (fl_log10 x))) xs))
   }"

text \<open>A table in the schema of the fetcher's output whose single row has \<open>ic50 = 0\<close>.\<close>

definition zero_ic50_table :: dataframe where
  "zero_ic50_table = \<lparr>nrows = 1, data = [
     (''chembl_id'', [S ''CHEMBL123'']),
     (''name'', [S ''Aspirin'']),
     (''target'', [S ''COX1'']),
     (''ic50'', [F (Fin 0)]),
     (''mw'', [F (Fin (4504 / 25))]),
     (''logp'', [F (Fin (119 / 100))]),
     (''hbd'', [I 1]),
     (''hba'', [I 4]),
     (''psa'', [F (Fin (318 / 5))])]\<rparr>"



section \<open>The dashboard\<close>

subsection \<open>Aggregates of a series\<close>

text \<open>
  \<open>sum\<close>, \<open>mean\<close>, \<open>min\<close> and \<open>max\<close> of a pandas series skip the missing values;
  over no value at all the sum is 0 and the others are \<open>NaN\<close>. A boolean counts as 0 or 1,
  so the sum of a boolean column is the number of its true cells.
\<close>

definition present :: "fl list \<Rightarrow> fl list" where
  "present xs = filter (\<lambda>x. x \<noteq> NaN) xs"

definition fl_sum :: "fl list \<Rightarrow> fl" where
  "fl_sum xs = foldl fl_add (Fin 0) xs"

definition series_sum :: "series \<Rightarrow> fl option" where
  "series_sum s = map_option (\<lambda>xs. fl_sum (present xs)) (nums s)"

definition series_mean :: "series \<Rightarrow> fl option" where
  "series_mean s =
     map_option (\<lambda>xs. if present xs = [] then NaN
                      else fl_div_count (fl_sum (present xs)) (length (present xs))) (nums s)"

definition series_min :: "series \<Rightarrow> fl option" where
  "series_min s =
     map_option (\<lambda>xs. case present xs of [] \<Rightarrow> NaN | y # ys \<Rightarrow> foldl fl_min y ys) (nums s)"

definition series_max :: "series \<Rightarrow> fl option" where
  "series_max s =
     map_option (\<lambda>xs. case present xs of [] \<Rightarrow> NaN | y # ys \<Rightarrow> foldl fl_max y ys) (nums s)"

definition nunique :: "series \<Rightarrow> nat" where
  "nunique s = length (remdups (filter (\<lambda>v. \<not> isna v) s))"

subsection \<open>Dataset overview\<close>

text \<open>
  Lines 100 to 110 of \<^verbatim>\<open>app.py\<close>: the four metrics, as numbers. \<open>drug_like_count\<close> is
  the numpy scalar that \<open>sum\<close> returns, so \<open>drug_like_count/len(df)*100\<close> is numpy's
  division.
\<close>

record overview =
  total_compounds :: nat
  unique_targets :: nat
  drug_like_count :: fl
  drug_like_percent :: fl
  avg_potency :: fl

definition dataset_overview :: "dataframe \<Rightarrow> overview option" where
  "dataset_overview df = do {
     target \<leftarrow> getitem df ''target'';
     is_drug_like \<leftarrow> getitem df ''is_drug_like'';
     cnt \<leftarrow> series_sum is_drug_like;
     pIC50 \<leftarrow> getitem df ''pIC50'';
     avg \<leftarrow> series_mean pIC50;
     Some \<lparr>total_compounds = nrows df, unique_targets = nunique target,
           drug_like_count = cnt,
           drug_like_percent = fl_scale (fl_div_count cnt (nrows df)) 100,
           avg_potency = avg\<rparr>
   }"

text \<open>
  An uploaded file with all nine required columns whose only row has no \<open>mw\<close>: the
  Lipinski transform drops the row and the dashboard goes on with an empty table.
\<close>

definition no_mw_upload :: dataframe where
  "no_mw_upload = \<lparr>nrows = 1, data = [
     (''chembl_id'', [S ''CHEMBL123'']),
     (''name'', [S ''Aspirin'']),
     (''target'', [S ''COX1'']),
     (''ic50'', [F (Fin 500)]),
     (''mw'', [F NaN]),
     (''logp'', [F (Fin (119 / 100))]),
     (''hbd'', [I 1]),
     (''hba'', [I 4]),
     (''psa'', [F (Fin (318 / 5))])]\<rparr>"

subsection \<open>Filtering\<close>

text \<open>
  The state of the sidebar is the input of the filter: the targets chosen in the multiselect,
  the state of the checkbox and, for each slider, the pair of values the user has set on it,
  \<open>None\<close> as long as the user has not moved its handles.
\<close>

record controls =
  selected_targets :: "cell list"
  drug_like_only :: bool
  mw_choice :: "(fl \<times> fl) option"
  logp_choice :: "(fl \<times> fl) option"
  pic50_choice :: "(fl \<times> fl) option"

text \<open>
  \<open>st.sidebar.slider(label, lo, hi, (lo, hi))\<close>, a range slider between the bounds \<open>lo\<close>
  and \<open>hi\<close> whose default is the whole range. Streamlit is not part of the repository; what
  the script depends on is this. The call raises \<open>StreamlitAPIException\<close> (\<open>Slider
  `min_value` must be less than the `max_value`\<close>) unless \<open>lo\<close> is less than \<open>hi\<close>, and
  the exception ends the run of the script: \<open>None\<close>. Otherwise the call returns the positions
  of the two handles: the pair the user has set, which lies within the bounds, or else the
  default. Bounds that are not finite numbers, the \<open>nan\<close> of an empty selection or an
  infinity, are taken to raise as well.
\<close>

fun is_fin :: "fl \<Rightarrow> bool" where
  "is_fin (Fin a) = True"
| "is_fin x = False"

definition slider :: "fl \<times> fl \<Rightarrow> (fl \<times> fl) option \<Rightarrow> (fl \<times> fl) option" where
  "slider b choice =
     (if is_fin (fst b) \<and> is_fin (snd b) \<and> fl_lt (fst b) (snd b) then
        (case choice of
           None \<Rightarrow> Some b
         | Some r \<Rightarrow>
             if fl_le (fst b) (fst r) \<and> fl_le (fst r) (snd r) \<and> fl_le (snd r) (snd b)
             then Some r else Some b)
      else None)"

definition isin :: "series \<Rightarrow> cell list \<Rightarrow> bool list" where
  "isin s vs = map (\<lambda>v. v \<in> set vs) s"

fun bool_of :: "cell \<Rightarrow> bool option" where
  "bool_of (B b) = Some b"
| "bool_of v = None"

text \<open>A series used as a mask has to be boolean.\<close>

definition bools :: "series \<Rightarrow> bool list option" where
  "bools s = those_list (map bool_of s)"

text \<open>\<open>Series.between(lo, hi)\<close>: both bounds inclusive.\<close>

definition between :: "series \<Rightarrow> fl \<Rightarrow> fl \<Rightarrow> bool list option" where
  "between s lo hi = do {
     l \<leftarrow> series_ge s lo;
     r \<leftarrow> series_le s hi;
     Some (and_mask l r)
   }"

text \<open>\<open>float(s.min()), float(s.max())\<close>: the bounds a slider is given.\<close>

definition series_bounds :: "series \<Rightarrow> (fl \<times> fl) option" where
  "series_bounds s = do {
     lo \<leftarrow> series_min s;
     hi \<leftarrow> series_max s;
     Some (lo, hi)
   }"

text \<open>Line 120: the target filter.\<close>

definition target_filter :: "dataframe \<Rightarrow> controls \<Rightarrow> dataframe option" where
  "target_filter df c = do {
     target \<leftarrow> getitem df ''target'';
     Some (boolean_index df (isin target (selected_targets c)))
   }"

text \<open>Lines 123 to 125: the drug-likeness filter.\<close>

definition drug_like_filter :: "dataframe \<Rightarrow> controls \<Rightarrow> dataframe option" where
  "drug_like_filter df c =
     (if drug_like_only c then do {
        d \<leftarrow> getitem df ''is_drug_like'';
        m \<leftarrow> bools d;
        Some (boolean_index df m)
      } else Some df)"

text \<open>
  Lines 136 to 146: the pIC50 slider and its filter exist only when the column is there and
  not entirely missing. The result is the bounds of the slider and the range it returned, if
  there is a slider, and the table.
\<close>

definition pic50_filter ::
  "dataframe \<Rightarrow> controls \<Rightarrow> (((fl \<times> fl) \<times> (fl \<times> fl)) option \<times> dataframe) option" where
  "pic50_filter df c =
     (case getitem df ''pIC50'' of
        None \<Rightarrow> Some (None, df)
      | Some p \<Rightarrow>
          if list_all isna p then Some (None, df)
          else do {
            b \<leftarrow> series_bounds p;
            pic50_range \<leftarrow> slider b (pic50_choice c);
            l \<leftarrow> series_ge p (fst pic50_range);
            r \<leftarrow> series_le p (snd pic50_range);
            Some (Some (b, pic50_range), boolean_index df (and_mask l r))
          })"

text \<open>Lines 149 to 152: the two range filters on \<open>mw\<close> and \<open>logp\<close>.\<close>

definition range_filter :: "dataframe \<Rightarrow> fl \<times> fl \<Rightarrow> fl \<times> fl \<Rightarrow> dataframe option" where
  "range_filter df mw_range logp_range = do {
     mw \<leftarrow> getitem df ''mw'';
     a \<leftarrow> between mw (fst mw_range) (snd mw_range);
     logp \<leftarrow> getitem df ''logp'';
     b \<leftarrow> between logp (fst logp_range) (snd logp_range);
     Some (boolean_index df (and_mask a b))
   }"

text \<open>
  Lines 116 to 152 in the order in which the script runs them: the bounds of the three sliders,
  the ranges they return and the table that is displayed. The two sliders of lines 129 and 132
  are created, and may raise, before the pIC50 stage.
\<close>

record panel =
  mw_bounds :: "fl \<times> fl"
  mw_range :: "fl \<times> fl"
  logp_bounds :: "fl \<times> fl"
  logp_range :: "fl \<times> fl"
  pic50_bounds :: "(fl \<times> fl) option"
  pic50_range :: "(fl \<times> fl) option"
  filtered_df :: dataframe

definition filter_compounds :: "dataframe \<Rightarrow> controls \<Rightarrow> panel option" where
  "filter_compounds df0 c = do {
     df \<leftarrow> target_filter df0 c;
     df \<leftarrow> drug_like_filter df c;
     mw \<leftarrow> getitem df ''mw'';
     mwb \<leftarrow> series_bounds mw;
     mwr \<leftarrow> slider mwb (mw_choice c);
     logp \<leftarrow> getitem df ''logp'';
     lpb \<leftarrow> series_bounds logp;
     lpr \<leftarrow> slider lpb (logp_choice c);
     (sl, df) \<leftarrow> pic50_filter df c;
     out \<leftarrow> range_filter df mwr lpr;
     Some \<lparr>mw_bounds = mwb, mw_range = mwr, logp_bounds = lpb, logp_range = lpr,
           pic50_bounds = map_option fst sl, pic50_range = map_option snd sl,
           filtered_df = out\<rparr>
   }"

subsection \<open>The constraints, row by row\<close>

text \<open>
  The constraints as the specification words them, for the row at position \<open>i\<close> of a table
  with the columns \<open>t\<close> (target), \<open>ds\<close> (is_drug_like), \<open>ms\<close> (mw), \<open>ls\<close> (logp) and
  \<open>ps\<close> (pIC50): a value is in a range when it lies between the two bounds, both included;
  a row is narrowed in when its target is among the selected ones and it passes the
  drug-likeness checkbox; the pIC50 constraint is active when some narrowed row has a pIC50.
  A row passes, for the ranges \<open>mr\<close>, \<open>lr\<close> and \<open>pr\<close> of \<open>mw\<close>, \<open>logp\<close> and
  \<open>pIC50\<close>, the last one absent when there is no pIC50 constraint, when it is narrowed in
  and each of its three values is in its range.
\<close>

definition in_range :: "fl \<times> fl \<Rightarrow> fl \<Rightarrow> bool" where
  "in_range r x = (fl_le (fst r) x \<and> fl_le x (snd r))"

definition narrowed :: "controls \<Rightarrow> series \<Rightarrow> bool list \<Rightarrow> nat \<Rightarrow> bool" where
  "narrowed c t ds i = (t ! i \<in> set (selected_targets c) \<and> (drug_like_only c \<longrightarrow> ds ! i))"

definition pic50_active :: "controls \<Rightarrow> series \<Rightarrow> bool list \<Rightarrow> fl list \<Rightarrow> bool" where
  "pic50_active c t ds ps = (\<exists>i \<in> {0..<length ps}. narrowed c t ds i \<and> ps ! i \<noteq> NaN)"

definition pic50_passes :: "(fl \<times> fl) option \<Rightarrow> fl \<Rightarrow> bool" where
  "pic50_passes pr x = (case pr of None \<Rightarrow> True | Some r \<Rightarrow> in_range r x)"

definition passes ::
  "controls \<Rightarrow> fl \<times> fl \<Rightarrow> fl \<times> fl \<Rightarrow> (fl \<times> fl) option \<Rightarrow>
   series \<Rightarrow> bool list \<Rightarrow> fl list \<Rightarrow> fl list \<Rightarrow> fl list \<Rightarrow> nat \<Rightarrow> bool" where
  "passes c mr lr pr t ds ms ls ps i =
     (narrowed c t ds i \<and> pic50_passes pr (ps ! i) \<and>
      in_range mr (ms ! i) \<and> in_range lr (ls ! i))"

text \<open>
  A transformed table of five compounds: three on the target COX1 with \<open>ic50 = 0\<close> and
  therefore no pIC50, two on the target EGFR with the pIC50 values 6 and 8.
\<close>

definition demo_compounds :: dataframe where
  "demo_compounds = \<lparr>nrows = 5, data = [
     (''chembl_id'', [S ''CHEMBL1'', S ''CHEMBL2'', S ''CHEMBL3'', S ''CHEMBL4'', S ''CHEMBL5'']),
     (''target'', [S ''COX1'', S ''COX1'', S ''COX1'', S ''EGFR'', S ''EGFR'']),
     (''ic50'', [F (Fin 0), F (Fin 0), F (Fin 0), F (Fin 1000), F (Fin 10)]),
     (''mw'', [F (Fin 100), F (Fin 200), F (Fin 250), F (Fin 300), F (Fin 400)]),
     (''logp'', [F (Fin 1), F (Fin 2), F (Fin (5 / 2)), F (Fin 3), F (Fin 4)]),
     (''is_drug_like'', [B True, B True, B True, B True, B True]),
     (''pIC50'', [F NaN, F NaN, F NaN, F (Fin 6), F (Fin 8)])]\<rparr>"

text \<open>
  The sidebar as it is when the table of five compounds has been loaded: both targets
  selected, the checkbox off and no slider touched.
\<close>

definition default_controls :: controls where
  "default_controls = \<lparr>selected_targets = [S ''COX1'', S ''EGFR''], drug_like_only = False,
     mw_choice = None, logp_choice = None, pic50_choice = None\<rparr>"

text \<open>The same with only the target COX1 selected, and with only EGFR.\<close>

definition cox1_controls :: controls where
  "cox1_controls = default_controls\<lparr>selected_targets := [S ''COX1'']\<rparr>"

definition egfr_controls :: controls where
  "egfr_controls = default_controls\<lparr>selected_targets := [S ''EGFR'']\<rparr>"

text \<open>Both targets selected and the pIC50 slider set to the range from 7 to 8.\<close>

definition potent_controls :: controls where
  "potent_controls = default_controls\<lparr>pic50_choice := Some (Fin 7, Fin 8)\<rparr>"



text \<open>
  In a table every column has as many cells as the table has rows. One range widens another
  when it is the same or reaches at least as far on both sides.
\<close>

definition wf_table :: "dataframe \<Rightarrow> bool" where
  "wf_table df = list_all (\<lambda>(c, s). length s = nrows df) (data df)"

definition widens :: "fl \<times> fl \<Rightarrow> fl \<times> fl \<Rightarrow> bool" where
  "widens r r' = (r' = r \<or> (fl_le (fst r') (fst r) \<and> fl_le (snd r) (snd r')))"

section \<open>Specification-side definitions for the Lipinski rule\<close>

text \<open>
  The count of the four conditions, as the specification words it, and the positions of the
  input rows in which all of \<open>mw\<close>, \<open>logp\<close>, \<open>hbd\<close> and \<open>hba\<close> are present.
  \<open>sample_compounds\<close> is the fixture of \<^verbatim>\<open>tests/test_analysis.py\<close>.
\<close>

definition spec_violation_count :: "fl \<Rightarrow> fl \<Rightarrow> fl \<Rightarrow> fl \<Rightarrow> int" where
  "spec_violation_count m l d a =
     int (length (filter (\<lambda>b. b)
       [fl_gt m (Fin 500), fl_gt l (Fin 5), fl_gt d (Fin 5), fl_gt a (Fin 10)]))"

definition sample_compounds :: dataframe where
  "sample_compounds = \<lparr>nrows = 4, data = [
     (''chembl_id'', [S ''CHEMBL1'', S ''CHEMBL2'', S ''CHEMBL3'', S ''CHEMBL4'']),
     (''name'', [S ''Drug A'', S ''Drug B'', S ''Drug C'', S ''Drug D'']),
     (''ic50'', [F (Fin (21 / 2)), F (Fin 200), F (Fin 600), F (Fin 150)]),
     (''mw'', [F (Fin 450), F (Fin 510), F (Fin 620), F (Fin 400)]),
     (''logp'', [F (Fin (9 / 2)), F (Fin (24 / 5)), F (Fin (11 / 2)), F (Fin 6)]),
     (''hbd'', [I 4, I 5, I 6, I 3]),
     (''hba'', [I 8, I 9, I 11, I 12]),
     (''psa'', [F (Fin 90), F (Fin 120), F (Fin 150), F (Fin 110)])]\<rparr>"

definition complete_rows :: "fl list \<Rightarrow> fl list \<Rightarrow> fl list \<Rightarrow> fl list \<Rightarrow> nat \<Rightarrow> nat list" where
  "complete_rows ms ls ds as n =
     filter (\<lambda>i. ms ! i \<noteq> NaN \<and> ls ! i \<noteq> NaN \<and> ds ! i \<noteq> NaN \<and> as ! i \<noteq> NaN) [0..<n]"

section \<open>The results of the two transforms in closed form\<close>

text \<open>
  The mask of the rows with all four Lipinski inputs present, the table \<open>calculate_lipinski\<close>
  returns on numeric columns \<open>ms\<close>, \<open>ls\<close>, \<open>ds\<close>, \<open>as\<close>, and the table
  \<open>calculate_pic50\<close> returns on a numeric column \<open>xs\<close>; the lemmas
  \<open>calculate_lipinski_eq\<close> and \<open>calculate_pic50_eq\<close> prove that they are.
\<close>

definition complete_mask :: "fl list \<Rightarrow> fl list \<Rightarrow> fl list \<Rightarrow> fl list \<Rightarrow> nat \<Rightarrow> bool list" where
  "complete_mask ms ls ds as n =
     map (\<lambda>i. ms ! i \<noteq> NaN \<and> ls ! i \<noteq> NaN \<and> ds ! i \<noteq> NaN \<and> as ! i \<noteq> NaN) [0..<n]"

definition lipinski_result ::
  "dataframe \<Rightarrow> fl list \<Rightarrow> fl list \<Rightarrow> fl list \<Rightarrow> fl list \<Rightarrow> dataframe" where
  "lipinski_result df ms ls ds as =
     setitem (setitem (boolean_index df (complete_mask ms ls ds as (nrows df)))
        ''lipinski_violations''
          (map (\<lambda>i. I (spec_violation_count (ms ! i) (ls ! i) (ds ! i) (as ! i)))
             (complete_rows ms ls ds as (nrows df))))
        ''is_drug_like''
          (map (\<lambda>i. B (spec_violation_count (ms ! i) (ls ! i) (ds ! i) (as ! i) = 0))
             (complete_rows ms ls ds as (nrows df)))"

definition pic50_result :: "dataframe \<Rightarrow> fl list \<Rightarrow> dataframe" where
  "pic50_result df xs =
     setitem (drop_columns df [''ic50_M'']) ''pIC50'' (map (\<lambda>x. F (pic50_cell x)) xs)"

section \<open>Tables as objects\<close>

text \<open>
  A pandas table is an object, and the two transforms change the object they are given. The
  heap is the list of the tables alive, a reference is a position in it; a new table is
  appended. \<open>copy\<close> is \<open>df.copy()\<close>. A reference into the heap is always valid in
  Python; the guard \<open>r < length h\<close> only keeps the model from reading outside the list.
\<close>

type_synonym heap = "dataframe list"

definition copy :: "nat \<Rightarrow> heap \<Rightarrow> nat \<times> heap" where
  "copy r h = (length h, h @ [h ! r])"

text \<open>
  A call of \<open>calculate_lipinski\<close>: \<open>dropna(..., inplace=True)\<close> and the two column
  assignments change the argument, which is also what is returned.
\<close>

definition call_calculate_lipinski :: "nat \<Rightarrow> heap \<Rightarrow> (nat \<times> heap) option" where
  "call_calculate_lipinski r h =
     (if r < length h
      then map_option (\<lambda>df. (r, h[r := df])) (calculate_lipinski (h ! r))
      else None)"

text \<open>
  A call of \<open>calculate_pic50\<close>: the column assignments change the argument;
  \<open>df.drop(columns=['ic50_M'])\<close> makes the new table that is returned.
\<close>

definition call_calculate_pic50 :: "nat \<Rightarrow> heap \<Rightarrow> (nat \<times> heap) option" where
  "call_calculate_pic50 r h =
     (if r < length h
      then map_option (\<lambda>df. (length h, h[r := df] @ [drop_columns df [''ic50_M'']]))
             (pic50_inplace (h ! r))
      else None)"

text \<open>
  Lines 70 and 71 of \<^verbatim>\<open>app.py\<close> (and 87 and 88): each transform is called on a copy of
  the table of the session.
\<close>

definition transform_loaded :: "nat \<Rightarrow> heap \<Rightarrow> (nat \<times> heap) option" where
  "transform_loaded r h = do {
     let (c1, h1) = copy r h;
     (r1, h2) \<leftarrow> call_calculate_lipinski c1 h1;
     let (c2, h3) = copy r1 h2;
     call_calculate_pic50 c2 h3
   }"

section \<open>Facts about the table primitives\<close>

lemma select_nth: "length m = length xs \<Longrightarrow> select m xs = map (nth xs) (filter (nth m) [0..<length m])"
proof (induction m xs rule: list_induct2)
  case Nil then show ?case by simp
next
  case (Cons b bs x xs)
  have "[0..<length (b # bs)] = 0 # map Suc [0..<length bs]"
    by (simp add: upt_conv_Cons map_Suc_upt del: upt_Suc)
  then show ?case using Cons by (simp add: filter_map comp_def del: upt_Suc)
qed

lemma getitem_boolean_index: "getitem (boolean_index df m) c = map_option (select m) (getitem df c)"
  by (simp add: getitem_def boolean_index_def map_of_map comp_def) 

lemma getitem_setitem: "getitem (setitem df c s) c' = (if c' = c then Some s else getitem df c')"
  by (simp add: getitem_def setitem_def update_conv')

lemma getitem_columns: "getitem df c = Some s \<Longrightarrow> c \<in> set (columns df)"
  by (auto simp: getitem_def columns_def dest!: map_of_SomeD intro: rev_image_eqI)

lemma those_list_Some: "those_list ys = Some xs \<longleftrightarrow> ys = map Some xs"
proof (induction ys arbitrary: xs)
  case Nil then show ?case by auto
next
  case (Cons y ys) then show ?case by (cases y) (auto simp: map_eq_Cons_conv)
qed

lemma nums_Some: "nums s = Some xs \<longleftrightarrow> map num_of s = map Some xs"
  by (simp add: nums_def those_list_Some)

lemma nums_length: "nums s = Some xs \<Longrightarrow> length xs = length s"
  by (auto simp: nums_Some dest: map_eq_imp_length_eq)

lemma nums_nth: "nums s = Some xs \<Longrightarrow> i < length s \<Longrightarrow> num_of (s ! i) = Some (xs ! i)"
  by (metis nums_Some nums_length nth_map)

lemma nums_map_nth:
  assumes "nums s = Some xs" "\<forall>i \<in> set ks. i < length s"
  shows "nums (map (nth s) ks) = Some (map (nth xs) ks)"
  using assms by (auto simp: nums_Some[of "map _ _"] nums_nth nums_length)

lemma isna_num: "num_of v = Some x \<Longrightarrow> isna v \<longleftrightarrow> x = NaN"
  by (cases v) (auto simp: isna_def)

lemma add_int_map: "add_int (map f ks) (map g ks) = map (\<lambda>k. f k + g k) ks"
  by (simp add: add_int_def zip_map_map zip_same_conv_map)

lemma astype_int_map: "astype_int (map p ks) = map (\<lambda>k. if p k then 1 else 0) ks"
  by (simp add: astype_int_def comp_def)


section \<open>The Lipinski transform\<close>

lemma notna_mask_lipinski:
  assumes g: "getitem df ''mw'' = Some mw" "getitem df ''logp'' = Some logp"
             "getitem df ''hbd'' = Some hbd" "getitem df ''hba'' = Some hba"
  shows "notna_mask df [''mw'', ''logp'', ''hbd'', ''hba''] =
         map (\<lambda>i. \<not> isna (mw ! i) \<and> \<not> isna (logp ! i) \<and> \<not> isna (hbd ! i) \<and> \<not> isna (hba ! i))
           [0..<nrows df]"
  using g by (simp add: notna_mask_def)

lemma dropna_lipinski:
  assumes g: "getitem df ''mw'' = Some mw" "getitem df ''logp'' = Some logp"
             "getitem df ''hbd'' = Some hbd" "getitem df ''hba'' = Some hba"
  shows "dropna df [''mw'', ''logp'', ''hbd'', ''hba''] =
         Some (boolean_index df (notna_mask df [''mw'', ''logp'', ''hbd'', ''hba'']))"
  using g[THEN getitem_columns] by (simp add: dropna_def)

lemma kept_rows:
  assumes n: "nums mw = Some ms" "nums logp = Some ls" "nums hbd = Some ds" "nums hba = Some as"
      and l: "length mw = n" "length logp = n" "length hbd = n" "length hba = n"
  shows "filter (nth (map (\<lambda>i. \<not> isna (mw ! i) \<and> \<not> isna (logp ! i) \<and> \<not> isna (hbd ! i) \<and> \<not> isna (hba ! i)) [0..<n])) [0..<n]
         = complete_rows ms ls ds as n"
  unfolding complete_rows_def
proof (rule filter_cong[OF refl])
  fix i assume "i \<in> set [0..<n]"
  then have i: "i < n" by simp
  have "isna (mw ! i) \<longleftrightarrow> ms ! i = NaN" "isna (logp ! i) \<longleftrightarrow> ls ! i = NaN"
       "isna (hbd ! i) \<longleftrightarrow> ds ! i = NaN" "isna (hba ! i) \<longleftrightarrow> as ! i = NaN"
    using n l i by (auto intro!: isna_num nums_nth)
  then show "map (\<lambda>i. \<not> isna (mw ! i) \<and> \<not> isna (logp ! i) \<and> \<not> isna (hbd ! i) \<and> \<not> isna (hba ! i)) [0..<n] ! i
             = (ms ! i \<noteq> NaN \<and> ls ! i \<noteq> NaN \<and> ds ! i \<noteq> NaN \<and> as ! i \<noteq> NaN)"
    using i by simp
qed

lemma spec_violation_count_eq:
  "(if fl_gt m (Fin 500) then 1 else 0) + (if fl_gt l (Fin 5) then 1 else 0)
     + (if fl_gt d (Fin 5) then 1 else 0) + (if fl_gt a (Fin 10) then 1 else (0::int))
   = spec_violation_count m l d a"
  by (simp add: spec_violation_count_def)

lemma lipinski_columns:
  assumes g: "getitem df ''mw'' = Some mw" "getitem df ''logp'' = Some logp"
             "getitem df ''hbd'' = Some hbd" "getitem df ''hba'' = Some hba"
      and n: "nums mw = Some ms" "nums logp = Some ls" "nums hbd = Some ds" "nums hba = Some as"
      and l: "length mw = nrows df" "length logp = nrows df"
             "length hbd = nrows df" "length hba = nrows df"
  defines "keep \<equiv> complete_rows ms ls ds as (nrows df)"
  shows "\<exists>df'. calculate_lipinski df = Some df' \<and>
           getitem df' ''lipinski_violations'' =
             Some (map (\<lambda>i. I (spec_violation_count (ms ! i) (ls ! i) (ds ! i) (as ! i))) keep) \<and>
           getitem df' ''is_drug_like'' =
             Some (map (\<lambda>i. B (spec_violation_count (ms ! i) (ls ! i) (ds ! i) (as ! i) = 0)) keep)"
proof -
  let ?cs = "[''mw'', ''logp'', ''hbd'', ''hba'']"
  let ?M = "notna_mask df ?cs"
  let ?d = "boolean_index df ?M"
  have M: "?M = map (\<lambda>i. \<not> isna (mw ! i) \<and> \<not> isna (logp ! i) \<and> \<not> isna (hbd ! i) \<and> \<not> isna (hba ! i)) [0..<nrows df]"
    by (rule notna_mask_lipinski[OF g])
  have lenM: "length ?M = nrows df" by (simp add: M)
  have keep: "filter (nth ?M) [0..<length ?M] = keep"
    unfolding lenM keep_def unfolding M by (rule kept_rows[OF n l])
  have kb: "\<forall>i \<in> set keep. i < nrows df" by (auto simp: keep_def complete_rows_def)
  have selM: "select ?M xs = map (nth xs) keep" if "length xs = nrows df" for xs :: series
    using select_nth[of ?M xs] that lenM keep by metis
  have sel: "select ?M mw = map (nth mw) keep" "select ?M logp = map (nth logp) keep"
            "select ?M hbd = map (nth hbd) keep" "select ?M hba = map (nth hba) keep"
    by (rule selM, rule l)+
  have gd: "getitem ?d ''mw'' = Some (map (nth mw) keep)"
           "getitem ?d ''logp'' = Some (map (nth logp) keep)"
           "getitem ?d ''hbd'' = Some (map (nth hbd) keep)"
           "getitem ?d ''hba'' = Some (map (nth hba) keep)"
    by (simp_all add: getitem_boolean_index g sel)
  have nd: "nums (map (nth mw) keep) = Some (map (nth ms) keep)"
           "nums (map (nth logp) keep) = Some (map (nth ls) keep)"
           "nums (map (nth hbd) keep) = Some (map (nth ds) keep)"
           "nums (map (nth hba) keep) = Some (map (nth as) keep)"
    using n l kb by (simp_all add: nums_map_nth)
  have gt: "series_gt (map (nth mw) keep) 500 = Some (map (\<lambda>i. fl_gt (ms ! i) (Fin 500)) keep)"
           "series_gt (map (nth logp) keep) 5 = Some (map (\<lambda>i. fl_gt (ls ! i) (Fin 5)) keep)"
           "series_gt (map (nth hbd) keep) 5 = Some (map (\<lambda>i. fl_gt (ds ! i) (Fin 5)) keep)"
           "series_gt (map (nth hba) keep) 10 = Some (map (\<lambda>i. fl_gt (as ! i) (Fin 10)) keep)"
    by (simp_all add: series_gt_def nd comp_def)
  show ?thesis
    unfolding calculate_lipinski_def dropna_lipinski[OF g]
    by (simp add: gd gt Let_def astype_int_map add_int_map getitem_setitem
          spec_violation_count_eq comp_def)
qed


lemma spec_violation_count_range: "0 \<le> spec_violation_count m l d a \<and> spec_violation_count m l d a \<le> 4"
  by (simp add: spec_violation_count_def)

lemma getitem_setitem_other: "c' \<noteq> c \<Longrightarrow> getitem (setitem df c s) c' = getitem df c'"
  by (simp add: getitem_setitem)

lemma nrows_setitem: "nrows (setitem df c s) = nrows df"
  by (simp add: setitem_def)

text \<open>
  Claim C1. Let the table have the columns \<open>mw\<close>, \<open>logp\<close>, \<open>hbd\<close>, \<open>hba\<close>, all numeric.
  Then \<open>calculate_lipinski\<close> returns a table whose rows are the input rows in which all four
  are present, in order; for each such row \<open>lipinski_violations\<close> is the number of the four
  conditions \<open>mw > 500\<close>, \<open>logp > 5\<close>, \<open>hbd > 5\<close>, \<open>hba > 10\<close> that hold, a number
  between 0 and 4, and \<open>is_drug_like\<close> is true iff that number is 0. Replacing the columns
  \<open>psa\<close> and \<open>ic50\<close> by anything changes neither derived column.
\<close>

theorem lipinski_violation_count:
  assumes g: "getitem df ''mw'' = Some mw" "getitem df ''logp'' = Some logp"
             "getitem df ''hbd'' = Some hbd" "getitem df ''hba'' = Some hba"
      and n: "nums mw = Some ms" "nums logp = Some ls" "nums hbd = Some ds" "nums hba = Some as"
      and l: "length mw = nrows df" "length logp = nrows df"
             "length hbd = nrows df" "length hba = nrows df"
  shows "\<exists>df'. calculate_lipinski df = Some df' \<and>
           getitem df' ''lipinski_violations'' =
             Some (map (\<lambda>i. I (spec_violation_count (ms ! i) (ls ! i) (ds ! i) (as ! i)))
                     (complete_rows ms ls ds as (nrows df))) \<and>
           getitem df' ''is_drug_like'' =
             Some (map (\<lambda>i. B (spec_violation_count (ms ! i) (ls ! i) (ds ! i) (as ! i) = 0))
                     (complete_rows ms ls ds as (nrows df))) \<and>
           (\<forall>i. 0 \<le> spec_violation_count (ms ! i) (ls ! i) (ds ! i) (as ! i) \<and>
                spec_violation_count (ms ! i) (ls ! i) (ds ! i) (as ! i) \<le> 4) \<and>
           (\<forall>psa ic50. \<exists>df''.
              calculate_lipinski (setitem (setitem df ''psa'' psa) ''ic50'' ic50) = Some df'' \<and>
              getitem df'' ''lipinski_violations'' = getitem df' ''lipinski_violations'' \<and>
              getitem df'' ''is_drug_like'' = getitem df' ''is_drug_like'')"
proof -
  from lipinski_columns[OF g n l] obtain df' where
    d: "calculate_lipinski df = Some df'"
       "getitem df' ''lipinski_violations'' =
          Some (map (\<lambda>i. I (spec_violation_count (ms ! i) (ls ! i) (ds ! i) (as ! i)))
                  (complete_rows ms ls ds as (nrows df)))"
       "getitem df' ''is_drug_like'' =
          Some (map (\<lambda>i. B (spec_violation_count (ms ! i) (ls ! i) (ds ! i) (as ! i) = 0))
                  (complete_rows ms ls ds as (nrows df)))"
    by blast
  have indep: "\<exists>df''. calculate_lipinski (setitem (setitem df ''psa'' psa) ''ic50'' ic50) = Some df'' \<and>
              getitem df'' ''lipinski_violations'' = getitem df' ''lipinski_violations'' \<and>
              getitem df'' ''is_drug_like'' = getitem df' ''is_drug_like''" for psa ic50
  proof -
    let ?e = "setitem (setitem df ''psa'' psa) ''ic50'' ic50"
    have g': "getitem ?e ''mw'' = Some mw" "getitem ?e ''logp'' = Some logp"
             "getitem ?e ''hbd'' = Some hbd" "getitem ?e ''hba'' = Some hba"
      using g by (simp_all add: getitem_setitem)
    have l': "length mw = nrows ?e" "length logp = nrows ?e"
             "length hbd = nrows ?e" "length hba = nrows ?e"
      using l by (simp_all add: nrows_setitem)
    from lipinski_columns[OF g' n l'] show ?thesis
      by (simp add: d nrows_setitem)
  qed
  show ?thesis using d indep spec_violation_count_range by blast
qed

text \<open>The fixture of the repository's test: violations 0, 1, 4, 2.\<close>

lemma upt_4: "[0..<4] = [0, 1, 2, 3]"
  by (simp add: upt_rec)

theorem lipinski_violation_count_witness:
  "\<exists>df'. calculate_lipinski sample_compounds = Some df' \<and>
     getitem df' ''lipinski_violations'' = Some [I 0, I 1, I 4, I 2] \<and>
     getitem df' ''is_drug_like'' = Some [B True, B False, B False, B False]"
proof -
  let ?ms = "[Fin 450, Fin 510, Fin 620, Fin 400]"
  let ?ls = "[Fin (9 / 2), Fin (24 / 5), Fin (11 / 2), Fin 6]"
  let ?ds = "[Fin 4, Fin 5, Fin 6, Fin 3]"
  let ?as = "[Fin 8, Fin 9, Fin 11, Fin 12]"
  have g: "getitem sample_compounds ''mw'' = Some (map F ?ms)"
          "getitem sample_compounds ''logp'' = Some (map F ?ls)"
          "getitem sample_compounds ''hbd'' = Some [I 4, I 5, I 6, I 3]"
          "getitem sample_compounds ''hba'' = Some [I 8, I 9, I 11, I 12]"
    by (simp_all add: sample_compounds_def getitem_def)
  have n: "nums (map F ?ms) = Some ?ms" "nums (map F ?ls) = Some ?ls"
          "nums [I 4, I 5, I 6, I 3] = Some ?ds" "nums [I 8, I 9, I 11, I 12] = Some ?as"
    by (simp_all add: nums_def)
  have r: "nrows sample_compounds = 4" by (simp add: sample_compounds_def)
  have l: "length (map F ?ms) = nrows sample_compounds"
          "length (map F ?ls) = nrows sample_compounds"
          "length [I 4, I 5, I 6, I 3] = nrows sample_compounds"
          "length [I 8, I 9, I 11, I 12] = nrows sample_compounds"
    by (simp_all add: r)
  have "\<exists>df'. calculate_lipinski sample_compounds = Some df' \<and>
           getitem df' ''lipinski_violations'' =
             Some (map (\<lambda>i. I (spec_violation_count (?ms ! i) (?ls ! i) (?ds ! i) (?as ! i)))
                     (complete_rows ?ms ?ls ?ds ?as (nrows sample_compounds))) \<and>
           getitem df' ''is_drug_like'' =
             Some (map (\<lambda>i. B (spec_violation_count (?ms ! i) (?ls ! i) (?ds ! i) (?as ! i) = 0))
                     (complete_rows ?ms ?ls ?ds ?as (nrows sample_compounds)))"
    using lipinski_violation_count[OF g n l] by blast
  then show ?thesis
    by (simp add: r complete_rows_def upt_4 spec_violation_count_def fl_gt_def)
qed

section \<open>The pIC50 transform\<close>





lemma nums_map_F: "nums (map (\<lambda>x. F (f x)) xs) = Some (map f xs)"
  by (simp add: nums_Some comp_def)

lemma map2_if_mask:
  "map2 (\<lambda>b v. if b then c else v) (map p xs) (map g xs) = map (\<lambda>x. if p x then c else g x) xs"
  by (simp add: zip_map_map zip_same_conv_map)

lemma pic50_inplace_eq:
  assumes "getitem df ''ic50'' = Some s" "nums s = Some xs"
  shows "pic50_inplace df =
         Some (setitem (setitem df ''ic50_M'' (map (\<lambda>x. F (molar x)) xs))
                 ''pIC50'' (map (\<lambda>x. F (pic50_cell x)) xs))"
proof -
  let ?k = "nano"
  have a: "series_mul s ?k = Some (map (\<lambda>x. F (fl_scale x ?k)) xs)"
    by (simp add: series_mul_def assms)
  have b: "series_le (map (\<lambda>x. F (fl_scale x ?k)) xs) (Fin 0)
           = Some (map (\<lambda>x. fl_le (fl_scale x ?k) (Fin 0)) xs)"
    by (simp add: series_le_def nums_map_F comp_def)
  have c: "map2 (\<lambda>b v. if b then F NaN else v) (map (\<lambda>x. fl_le (fl_scale x ?k) (Fin 0)) xs)
             (map (\<lambda>x. F (fl_scale x ?k)) xs) = map (\<lambda>x. F (molar x)) xs"
    by (simp add: map2_if_mask molar_def if_distrib[of F] cong: if_cong)
  have d: "setitem (setitem df ''ic50_M'' u) ''ic50_M'' v = setitem df ''ic50_M'' v" for u v
    by (simp add: setitem_def)
  show ?thesis
    unfolding pic50_inplace_def
    by (simp add: assms a b c d getitem_setitem Let_def nums_map_F pic50_cell_def comp_def)
qed

lemma getitem_drop_columns:
  "getitem (drop_columns df cs) c = (if c \<in> set cs then None else getitem df c)"
proof -
  have "map_of (filter (\<lambda>(c, s). c \<notin> set cs) al) c = (if c \<in> set cs then None else map_of al c)"
    for al :: "(string \<times> series) list"
    by (induction al) auto
  then show ?thesis by (simp add: getitem_def drop_columns_def)
qed

lemma nrows_drop_columns: "nrows (drop_columns df cs) = nrows df"
  by (simp add: drop_columns_def)

lemma pic50_columns:
  assumes "getitem df ''ic50'' = Some s" "nums s = Some xs"
  shows "\<exists>df'. calculate_pic50 df = Some df' \<and> nrows df' = nrows df \<and>
           getitem df' ''pIC50'' = Some (map (\<lambda>x. F (pic50_cell x)) xs) \<and>
           getitem df' ''ic50_M'' = None \<and>
           (\<forall>c. c \<noteq> ''pIC50'' \<and> c \<noteq> ''ic50_M'' \<longrightarrow> getitem df' c = getitem df c)"
  by (simp add: calculate_pic50_def pic50_inplace_eq[OF assms] getitem_drop_columns
        getitem_setitem nrows_drop_columns nrows_setitem)

lemma nano_pos: "0 < nano"
  by (simp add: nano_def)

lemma rne_zero: "rne 0 = 0"
  by (simp add: rne_def)


lemma rne_nonpos: "x \<le> 0 \<Longrightarrow> rne x \<le> 0"
proof -
  assume x: "x \<le> 0"
  have f: "\<lfloor>x\<rfloor> \<le> 0" using x by (simp add: floor_le_iff)
  show ?thesis
  proof (cases "\<lfloor>x\<rfloor> = 0")
    case True
    then have "0 \<le> x" by (simp add: floor_eq_iff)
    with x have "x = 0" by simp
    then show ?thesis by (simp add: rne_zero)
  next
    case False
    with f have "\<lfloor>x\<rfloor> + 1 \<le> 0" by linarith
    with f show ?thesis by (simp add: rne_def)
  qed
qed

lemma min_normal_pos: "0 < min_normal"
  by (simp add: min_normal_def)

lemma to_double_zero: "to_double 0 = Fin 0"
  by (simp add: to_double_def min_normal_pos rne_zero)


lemma to_double_nonpos: "p \<le> 0 \<Longrightarrow> fl_le (to_double p) (Fin 0)"
proof -
  assume p: "p \<le> 0"
  then have "p * 2 ^ 1074 \<le> 0" by (simp add: mult_le_0_iff)
  then have "rne (p * 2 ^ 1074) \<le> 0" by (rule rne_nonpos)
  then have "real_of_int (rne (p * 2 ^ 1074)) / 2 ^ 1074 \<le> 0"
    by (simp add: divide_le_0_iff)
  with p show ?thesis by (simp add: to_double_def)
qed




text \<open>The guard of \<open>calculate_pic50\<close>: no pIC50 for an \<open>ic50\<close> that is not positive.\<close>

lemma pic50_cell_nonpos: "fl_le x (Fin 0) \<Longrightarrow> pic50_cell x = NaN"
proof (cases x)
  case (Fin a)
  assume "fl_le x (Fin 0)"
  with Fin have "a * nano \<le> 0" using nano_pos by (simp add: mult_le_0_iff)
  then have "fl_le (to_double (a * nano)) (Fin 0)" by (rule to_double_nonpos)
  with Fin show ?thesis by (simp add: pic50_cell_def molar_def)
qed (simp_all add: pic50_cell_def molar_def nano_pos)











text \<open>
  Claim C3, at the failing input \<open>ic50 = 0\<close>. \<open>analyze_activity_relationships\<close> takes the
  logarithm without the guard of \<open>calculate_pic50\<close>: its \<open>pIC50\<close> is plus infinity, which
  pandas does not count as missing, where \<open>calculate_pic50\<close> gives \<open>NaN\<close>.
\<close>

theorem activity_analyzer_zero_ic50:
  "map_option (\<lambda>df. getitem df ''pIC50'') (analyze_activity_relationships zero_ic50_table)
     = Some (Some [F PInf]) \<and> \<not> isna (F PInf) \<and>
   map_option (\<lambda>df. getitem df ''pIC50'') (calculate_pic50 zero_ic50_table)
     = Some (Some [F NaN])"
  by (simp add: analyze_activity_relationships_def calculate_pic50_def pic50_inplace_def
        zero_ic50_table_def getitem_def setitem_def drop_columns_def series_mul_def
        series_le_def nums_def isna_def to_double_zero)

section \<open>Dataset overview\<close>

text \<open>
  Claim C8, at an empty table. The overview does not raise and counts 0 rows, and the mean
  pIC50 is \<open>NaN\<close>; but the percentage is \<open>0/0*100\<close>, which numpy evaluates to \<open>NaN\<close>,
  not the 0 the claim names.
\<close>

theorem overview_of_empty_table:
  "(calculate_lipinski no_mw_upload \<bind> calculate_pic50 \<bind> dataset_overview) =
     Some \<lparr>total_compounds = 0, unique_targets = 0, drug_like_count = Fin 0,
           drug_like_percent = NaN, avg_potency = NaN\<rparr>"
  by (simp add: calculate_lipinski_def calculate_pic50_def pic50_inplace_def dataset_overview_def
        no_mw_upload_def dropna_def notna_mask_def columns_def getitem_def setitem_def
        drop_columns_def boolean_index_def count_true_def isna_def series_gt_def series_le_def
        series_mul_def nums_def astype_int_def add_int_def series_sum_def series_mean_def
        present_def fl_sum_def nunique_def)

section \<open>The filter pipeline as one mask\<close>

lemma select_map: "select m (map f xs) = map f (select m xs)"
  by (induction m xs rule: select.induct) simp_all

lemma select_and_mask:
  "length m = length k \<Longrightarrow> select (select m k) (select m s) = select (and_mask m k) s"
proof (induction m k arbitrary: s rule: list_induct2)
  case Nil then show ?case by (simp add: and_mask_def)
next
  case (Cons b bs c cs)
  then show ?case by (cases s) (simp_all add: and_mask_def)
qed

lemma count_true_select_and:
  "length m = length k \<Longrightarrow> count_true (select m k) = count_true (and_mask m k)"
  by (induction m k rule: list_induct2) (simp_all add: and_mask_def count_true_def)

lemma boolean_index_twice:
  "length m = length k \<Longrightarrow>
   boolean_index (boolean_index df m) (select m k) = boolean_index df (and_mask m k)"
  by (simp add: boolean_index_def count_true_select_and select_and_mask split_def comp_def)

lemma select_and_mask_distrib:
  "and_mask (select m a) (select m b) = select m (and_mask a b)"
proof (induction m a arbitrary: b rule: select.induct)
  case (1 c cs x xs)
  then show ?case by (cases b) (simp_all add: and_mask_def)
qed (simp_all add: and_mask_def)

lemma those_list_select:
  "those_list ys = Some xs \<Longrightarrow> those_list (select m ys) = Some (select m xs)"
  by (simp add: those_list_Some select_map)

lemma nums_select: "nums s = Some xs \<Longrightarrow> nums (select m s) = Some (select m xs)"
  unfolding nums_def by (simp add: those_list_Some select_map[symmetric])

lemma bools_select: "bools s = Some bs \<Longrightarrow> bools (select m s) = Some (select m bs)"
  unfolding bools_def by (simp add: those_list_Some select_map[symmetric])

lemma isin_select: "isin (select m t) vs = select m (isin t vs)"
  by (simp add: isin_def select_map)

lemma length_select: "length m = length xs \<Longrightarrow> length (select m xs) = count_true m"
  by (induction m xs rule: list_induct2) (simp_all add: count_true_def)

lemma series_bounds_Some: "nums s = Some xs \<Longrightarrow> \<exists>b. series_bounds s = Some b"
  by (simp add: series_bounds_def series_min_def series_max_def)


lemma map_nth_upt: "length xs = n \<Longrightarrow> map f xs = map (\<lambda>i. f (xs ! i)) [0..<n]"
  by (auto simp: list_eq_iff_nth_eq)

lemma and_mask_upt: "and_mask (map f [0..<n]) (map g [0..<n]) = map (\<lambda>i. f i \<and> g i) [0..<n]"
  by (simp add: and_mask_def zip_map_map zip_same_conv_map)

lemma boolean_index_twice_upt:
  "boolean_index (boolean_index df (map f [0..<n])) (select (map f [0..<n]) (map g [0..<n]))
   = boolean_index df (map (\<lambda>i. f i \<and> g i) [0..<n])"
  by (simp add: boolean_index_twice and_mask_upt)

lemma series_ge_select:
  "nums s = Some xs \<Longrightarrow> series_ge (select m s) lo = Some (select m (map (\<lambda>x. fl_le lo x) xs))"
  by (simp add: series_ge_def nums_select select_map fl_ge_def)

lemma series_le_select:
  "nums s = Some xs \<Longrightarrow> series_le (select m s) hi = Some (select m (map (\<lambda>x. fl_le x hi) xs))"
  by (simp add: series_le_def nums_select select_map)

lemma range_mask_select:
  assumes "nums s = Some xs" "length xs = n"
  shows "and_mask (select m (map (\<lambda>x. fl_le (fst r) x) xs)) (select m (map (\<lambda>x. fl_le x (snd r)) xs))
         = select m (map (\<lambda>i. in_range r (xs ! i)) [0..<n])"
proof -
  have "and_mask (map (\<lambda>x. fl_le (fst r) x) xs) (map (\<lambda>x. fl_le x (snd r)) xs)
        = map (\<lambda>i. in_range r (xs ! i)) [0..<n]"
    using assms(2)
    by (simp add: map_nth_upt[of xs n "\<lambda>x. fl_le (fst r) x"] map_nth_upt[of xs n "\<lambda>x. fl_le x (snd r)"]
          and_mask_upt in_range_def)
  then show ?thesis by (simp add: select_and_mask_distrib)
qed

lemma between_select:
  assumes "nums s = Some xs" "length xs = n"
  shows "between (select m s) (fst r) (snd r) = Some (select m (map (\<lambda>i. in_range r (xs ! i)) [0..<n]))"
  by (simp add: between_def series_ge_select[OF assms(1)] series_le_select[OF assms(1)]
        range_mask_select[OF assms])


lemma bools_length: "bools s = Some bs \<Longrightarrow> length bs = length s"
  by (auto simp: bools_def those_list_Some dest: map_eq_imp_length_eq)

lemma target_filter_eq:
  assumes "getitem df ''target'' = Some t" "length t = n"
  shows "target_filter df c = Some (boolean_index df (map (\<lambda>i. t ! i \<in> set (selected_targets c)) [0..<n]))"
  using assms
  by (simp add: target_filter_def isin_def map_nth_upt[of t n "\<lambda>v. v \<in> set (selected_targets c)"])

lemma drug_like_filter_eq:
  assumes "getitem df ''is_drug_like'' = Some d" "bools d = Some ds" "length ds = n"
  shows "drug_like_filter (boolean_index df (map f [0..<n])) c
         = Some (boolean_index df (map (\<lambda>i. f i \<and> (drug_like_only c \<longrightarrow> ds ! i)) [0..<n]))"
proof (cases "drug_like_only c")
  case False
  then show ?thesis by (simp add: drug_like_filter_def)
next
  case True
  have ds: "ds = map (\<lambda>i. ds ! i) [0..<n]"
    using assms(3) map_nth_upt[of ds n "\<lambda>b. b"] by simp
  have "boolean_index (boolean_index df (map f [0..<n])) (select (map f [0..<n]) ds)
        = boolean_index df (map (\<lambda>i. f i \<and> ds ! i) [0..<n])"
    by (subst ds) (rule boolean_index_twice_upt)
  then show ?thesis
    using True by (simp add: drug_like_filter_def getitem_boolean_index assms(1) bools_select[OF assms(2)])
qed

lemma narrowed_table:
  assumes "getitem df ''target'' = Some t" "length t = n"
          "getitem df ''is_drug_like'' = Some d" "bools d = Some ds" "length ds = n"
  shows "target_filter df c \<bind> (\<lambda>df. drug_like_filter df c)
         = Some (boolean_index df (map (narrowed c t ds) [0..<n]))"
proof -
  have "(\<lambda>i. t ! i \<in> set (selected_targets c) \<and> (drug_like_only c \<longrightarrow> ds ! i)) = narrowed c t ds"
    by (simp add: narrowed_def fun_eq_iff)
  then show ?thesis
    by (simp add: target_filter_eq[OF assms(1,2)] drug_like_filter_eq[OF assms(3,4,5)])
qed

lemma list_all_select_upt:
  assumes "length xs = n"
  shows "list_all P (select (map f [0..<n]) xs) \<longleftrightarrow> (\<forall>i \<in> {0..<n}. f i \<longrightarrow> P (xs ! i))"
proof -
  have "select (map f [0..<n]) xs = map (nth xs) (filter (nth (map f [0..<n])) [0..<n])"
    using select_nth[of "map f [0..<n]" xs] assms by simp
  then show ?thesis by (auto simp: list_all_iff)
qed

lemma all_missing_iff:
  assumes "nums p = Some ps" "length ps = n"
  shows "list_all isna (select (map f [0..<n]) p) \<longleftrightarrow> \<not> (\<exists>i \<in> {0..<n}. f i \<and> ps ! i \<noteq> NaN)"
proof -
  have l: "length p = n" using nums_length[OF assms(1)] assms(2) by simp
  have "isna (p ! i) \<longleftrightarrow> ps ! i = NaN" if "i < n" for i
    using that l by (intro isna_num nums_nth[OF assms(1)]) simp
  then show ?thesis by (auto simp: list_all_select_upt[OF l])
qed

lemma slider_cases:
  "slider b ch = Some r \<Longrightarrow>
   is_fin (fst b) \<and> is_fin (snd b) \<and> fl_lt (fst b) (snd b) \<and>
   (r = b \<or> (ch = Some r \<and> fl_le (fst b) (fst r) \<and> fl_le (fst r) (snd r) \<and> fl_le (snd r) (snd b)))"
  by (auto simp: slider_def split: if_splits option.splits)

lemma slider_None_iff:
  "slider b ch = None \<longleftrightarrow> \<not> (is_fin (fst b) \<and> is_fin (snd b) \<and> fl_lt (fst b) (snd b))"
  by (simp add: slider_def split: option.splits)

lemma slider_untouched:
  "is_fin (fst b) \<Longrightarrow> is_fin (snd b) \<Longrightarrow> fl_lt (fst b) (snd b) \<Longrightarrow> slider b None = Some b"
  by (simp add: slider_def)

lemma pic50_filter_eq:
  fixes f :: "nat \<Rightarrow> bool"
  assumes "getitem df ''pIC50'' = Some p" "nums p = Some ps" "length ps = n"
      and "series_bounds (select (map f [0..<n]) p) = Some pb"
  shows "pic50_filter (boolean_index df (map f [0..<n])) c =
         (if \<exists>i \<in> {0..<n}. f i \<and> ps ! i \<noteq> NaN
          then map_option
                 (\<lambda>r. (Some (pb, r), boolean_index df (map (\<lambda>i. f i \<and> in_range r (ps ! i)) [0..<n])))
                 (slider pb (pic50_choice c))
          else Some (None, boolean_index df (map f [0..<n])))"
proof (cases "\<exists>i \<in> {0..<n}. f i \<and> ps ! i \<noteq> NaN")
  case False
  then have "list_all isna (select (map f [0..<n]) p)"
    using all_missing_iff[OF assms(2,3), of f] by simp
  then show ?thesis
    by (subst if_not_P[OF False]) (simp add: pic50_filter_def getitem_boolean_index assms(1))
next
  case True
  then have na: "\<not> list_all isna (select (map f [0..<n]) p)"
    using all_missing_iff[OF assms(2,3), of f] by simp
  have tw: "boolean_index (boolean_index df (map f [0..<n]))
          (select (map f [0..<n]) (map (\<lambda>i. in_range r (ps ! i)) [0..<n]))
        = boolean_index df (map (\<lambda>i. f i \<and> in_range r (ps ! i)) [0..<n])" for r
    by (rule boolean_index_twice_upt)
  show ?thesis using na
    by (subst if_P[OF True], cases "slider pb (pic50_choice c)")
       (simp_all add: pic50_filter_def getitem_boolean_index assms(1,4)
          series_ge_select[OF assms(2)] series_le_select[OF assms(2)]
          range_mask_select[OF assms(2,3)] tw)
qed

lemma range_filter_eq:
  assumes "getitem df ''mw'' = Some mw" "nums mw = Some ms" "length ms = n"
          "getitem df ''logp'' = Some lp" "nums lp = Some ls" "length ls = n"
  shows "range_filter (boolean_index df (map f [0..<n])) mr lr
         = Some (boolean_index df
             (map (\<lambda>i. f i \<and> in_range mr (ms ! i) \<and> in_range lr (ls ! i)) [0..<n]))"
proof -
  let ?M = "map f [0..<n]"
  have "and_mask (select ?M (map (\<lambda>i. in_range mr (ms ! i)) [0..<n]))
                 (select ?M (map (\<lambda>i. in_range lr (ls ! i)) [0..<n]))
        = select ?M (map (\<lambda>i. in_range mr (ms ! i) \<and> in_range lr (ls ! i)) [0..<n])"
    by (simp add: select_and_mask_distrib and_mask_upt)
  moreover have "boolean_index (boolean_index df ?M)
          (select ?M (map (\<lambda>i. in_range mr (ms ! i) \<and> in_range lr (ls ! i)) [0..<n]))
        = boolean_index df (map (\<lambda>i. f i \<and> in_range mr (ms ! i) \<and> in_range lr (ls ! i)) [0..<n])"
    by (rule boolean_index_twice_upt)
  ultimately show ?thesis
    by (simp add: range_filter_def getitem_boolean_index assms(1,4)
          between_select[OF assms(2,3)] between_select[OF assms(5,6)])
qed

text \<open>
  The whole pipeline: it raises when a slider does, and otherwise displays the rows that pass
  for the ranges the sliders return.
\<close>

lemma filter_compounds_eq:
  assumes g: "getitem df ''target'' = Some t" "getitem df ''is_drug_like'' = Some d"
             "getitem df ''mw'' = Some mw" "getitem df ''logp'' = Some lp"
             "getitem df ''pIC50'' = Some p"
      and ty: "bools d = Some ds" "nums mw = Some ms" "nums lp = Some ls" "nums p = Some ps"
      and len: "length t = n" "length ds = n" "length ms = n" "length ls = n" "length ps = n"
      and bd: "series_bounds (select (map (narrowed c t ds) [0..<n]) mw) = Some mwb"
              "series_bounds (select (map (narrowed c t ds) [0..<n]) lp) = Some lpb"
              "series_bounds (select (map (narrowed c t ds) [0..<n]) p) = Some pb"
  shows "filter_compounds df c =
     (case slider mwb (mw_choice c) of None \<Rightarrow> None | Some mr \<Rightarrow>
      case slider lpb (logp_choice c) of None \<Rightarrow> None | Some lr \<Rightarrow>
        if pic50_active c t ds ps then
          (case slider pb (pic50_choice c) of None \<Rightarrow> None | Some r \<Rightarrow>
             Some \<lparr>mw_bounds = mwb, mw_range = mr, logp_bounds = lpb, logp_range = lr,
                   pic50_bounds = Some pb, pic50_range = Some r,
                   filtered_df =
                     boolean_index df (map (passes c mr lr (Some r) t ds ms ls ps) [0..<n])\<rparr>)
        else
          Some \<lparr>mw_bounds = mwb, mw_range = mr, logp_bounds = lpb, logp_range = lr,
                pic50_bounds = None, pic50_range = None,
                filtered_df =
                  boolean_index df (map (passes c mr lr None t ds ms ls ps) [0..<n])\<rparr>)"
proof -
  let ?N = "map (narrowed c t ds) [0..<n]"
  let ?dn = "boolean_index df ?N"
  have s1: "target_filter df c = Some (boolean_index df (map (\<lambda>i. t ! i \<in> set (selected_targets c)) [0..<n]))"
    by (rule target_filter_eq[OF g(1) len(1)])
  have nf: "(\<lambda>i. t ! i \<in> set (selected_targets c) \<and> (drug_like_only c \<longrightarrow> ds ! i)) = narrowed c t ds"
    by (simp add: narrowed_def fun_eq_iff)
  have s2: "drug_like_filter (boolean_index df (map (\<lambda>i. t ! i \<in> set (selected_targets c)) [0..<n])) c = Some ?dn"
    using drug_like_filter_eq[OF g(2) ty(1) len(2), of "\<lambda>i. t ! i \<in> set (selected_targets c)" c]
    by (simp only: nf)
  have act: "(\<exists>i \<in> {0..<n}. narrowed c t ds i \<and> ps ! i \<noteq> NaN) = pic50_active c t ds ps"
    by (simp add: pic50_active_def len(5))
  have s4: "pic50_filter ?dn c =
         (if pic50_active c t ds ps
          then map_option
                 (\<lambda>r. (Some (pb, r),
                       boolean_index df (map (\<lambda>i. narrowed c t ds i \<and> in_range r (ps ! i)) [0..<n])))
                 (slider pb (pic50_choice c))
          else Some (None, ?dn))"
    using pic50_filter_eq[OF g(5) ty(4) len(5) bd(3), of c] by (simp only: act)
  have q1: "(\<lambda>i. (narrowed c t ds i \<and> in_range r (ps ! i)) \<and> in_range mr (ms ! i) \<and> in_range lr (ls ! i))
            = passes c mr lr (Some r) t ds ms ls ps" for mr lr r
    by (simp add: passes_def pic50_passes_def fun_eq_iff)
  have q0: "(\<lambda>i. narrowed c t ds i \<and> in_range mr (ms ! i) \<and> in_range lr (ls ! i))
            = passes c mr lr None t ds ms ls ps" for mr lr
    by (simp add: passes_def pic50_passes_def fun_eq_iff)
  have s5: "range_filter (boolean_index df (map (\<lambda>i. narrowed c t ds i \<and> in_range r (ps ! i)) [0..<n])) mr lr
            = Some (boolean_index df (map (passes c mr lr (Some r) t ds ms ls ps) [0..<n]))" for mr lr r
    using range_filter_eq[OF g(3) ty(2) len(3) g(4) ty(3) len(4),
        of "\<lambda>i. narrowed c t ds i \<and> in_range r (ps ! i)" mr lr]
    by (simp only: q1)
  have s6: "range_filter ?dn mr lr
            = Some (boolean_index df (map (passes c mr lr None t ds ms ls ps) [0..<n]))" for mr lr
    using range_filter_eq[OF g(3) ty(2) len(3) g(4) ty(3) len(4), of "narrowed c t ds" mr lr]
    by (simp only: q0)
  show ?thesis
  proof (cases "slider mwb (mw_choice c)")
    case None
    then show ?thesis
      by (simp add: filter_compounds_def s1 s2 getitem_boolean_index g bd)
  next
    case mr: (Some mr)
    show ?thesis
    proof (cases "slider lpb (logp_choice c)")
      case None
      then show ?thesis
        by (simp add: filter_compounds_def s1 s2 getitem_boolean_index g bd mr)
    next
      case lr: (Some lr)
      show ?thesis
      proof (cases "pic50_active c t ds ps")
        case False
        then show ?thesis
          by (simp add: filter_compounds_def s1 s2 getitem_boolean_index g bd mr lr s4 s6)
      next
        case True
        show ?thesis
        proof (cases "slider pb (pic50_choice c)")
          case None
          then show ?thesis using True
            by (simp add: filter_compounds_def s1 s2 getitem_boolean_index g bd mr lr s4)
        next
          case (Some r)
          then show ?thesis using True
            by (simp add: filter_compounds_def s1 s2 getitem_boolean_index g bd mr lr s4 s5)
        qed
      qed
    qed
  qed
qed

text \<open>What a run that does not raise has computed.\<close>

lemma filter_compounds_SomeD:
  assumes g: "getitem df ''target'' = Some t" "getitem df ''is_drug_like'' = Some d"
             "getitem df ''mw'' = Some mw" "getitem df ''logp'' = Some lp"
             "getitem df ''pIC50'' = Some p"
      and ty: "bools d = Some ds" "nums mw = Some ms" "nums lp = Some ls" "nums p = Some ps"
      and len: "length t = n" "length ds = n" "length ms = n" "length ls = n" "length ps = n"
      and run: "filter_compounds df c = Some pn"
  shows "series_bounds (select (map (narrowed c t ds) [0..<n]) mw) = Some (mw_bounds pn)"
    and "slider (mw_bounds pn) (mw_choice c) = Some (mw_range pn)"
    and "series_bounds (select (map (narrowed c t ds) [0..<n]) lp) = Some (logp_bounds pn)"
    and "slider (logp_bounds pn) (logp_choice c) = Some (logp_range pn)"
    and "pic50_active c t ds ps \<Longrightarrow>
           \<exists>pb r. pic50_bounds pn = Some pb \<and> pic50_range pn = Some r \<and>
             series_bounds (select (map (narrowed c t ds) [0..<n]) p) = Some pb \<and>
             slider pb (pic50_choice c) = Some r"
    and "\<not> pic50_active c t ds ps \<Longrightarrow> pic50_bounds pn = None \<and> pic50_range pn = None"
    and "filtered_df pn = boolean_index df
           (map (passes c (mw_range pn) (logp_range pn) (pic50_range pn) t ds ms ls ps) [0..<n])"
proof -
  let ?N = "map (narrowed c t ds) [0..<n]"
  obtain mwb where mwb: "series_bounds (select ?N mw) = Some mwb"
    using series_bounds_Some[OF nums_select[OF ty(2)]] by blast
  obtain lpb where lpb: "series_bounds (select ?N lp) = Some lpb"
    using series_bounds_Some[OF nums_select[OF ty(3)]] by blast
  obtain pb where pb: "series_bounds (select ?N p) = Some pb"
    using series_bounds_Some[OF nums_select[OF ty(4)]] by blast
  note eq = filter_compounds_eq[OF g ty len mwb lpb pb]
  from run obtain mr where mr: "slider mwb (mw_choice c) = Some mr"
    unfolding eq by (cases "slider mwb (mw_choice c)") simp_all
  from run obtain lr where lr: "slider lpb (logp_choice c) = Some lr"
    unfolding eq mr by (cases "slider lpb (logp_choice c)") simp_all
  show "series_bounds (select ?N mw) = Some (mw_bounds pn)"
       "slider (mw_bounds pn) (mw_choice c) = Some (mw_range pn)"
       "series_bounds (select ?N lp) = Some (logp_bounds pn)"
       "slider (logp_bounds pn) (logp_choice c) = Some (logp_range pn)"
    using run unfolding eq mr lr
    by (cases "slider pb (pic50_choice c)"; cases "pic50_active c t ds ps"; auto simp: mwb lpb mr lr)+
  show "\<exists>pb r. pic50_bounds pn = Some pb \<and> pic50_range pn = Some r \<and>
             series_bounds (select ?N p) = Some pb \<and> slider pb (pic50_choice c) = Some r"
    if a: "pic50_active c t ds ps"
  proof -
    from run a obtain r where r: "slider pb (pic50_choice c) = Some r"
      unfolding eq mr lr by (cases "slider pb (pic50_choice c)") simp_all
    from run a have "pic50_bounds pn = Some pb" "pic50_range pn = Some r"
      unfolding eq mr lr r by auto
    then show ?thesis by (intro exI[of _ pb] exI[of _ r] conjI pb r)
  qed
  show "pic50_bounds pn = None \<and> pic50_range pn = None" if "\<not> pic50_active c t ds ps"
    using run that unfolding eq mr lr by auto
  show "filtered_df pn = boolean_index df
           (map (passes c (mw_range pn) (logp_range pn) (pic50_range pn) t ds ms ls ps) [0..<n])"
    using run unfolding eq mr lr
    by (cases "slider pb (pic50_choice c)"; cases "pic50_active c t ds ps"; auto)
qed

section \<open>Semantics of the filter\<close>

lemma count_true_map_upt: "count_true (map P xs) = length (filter P xs)"
  by (simp add: count_true_def filter_map comp_def)

lemma nrows_boolean_index: "nrows (boolean_index df m) = count_true m"
  by (simp add: boolean_index_def)

lemma getitem_boolean_index_upt:
  assumes "getitem df col = Some s" "length s = n"
  shows "getitem (boolean_index df (map P [0..<n])) col = Some (map (nth s) (filter P [0..<n]))"
proof -
  have "filter (nth (map P [0..<n])) [0..<n] = filter P [0..<n]"
    by (rule filter_cong) simp_all
  then show ?thesis
    using select_nth[of "map P [0..<n]" s] assms by (simp add: getitem_boolean_index)
qed

lemma in_range_NaN: "\<not> in_range r NaN"
  by (cases "fst r") (simp_all add: in_range_def)

lemma in_range_defined: "in_range r x \<Longrightarrow> x \<noteq> NaN"
  using in_range_NaN by metis

lemma passes_iff:
  "passes c mr lr pr t ds ms ls ps i \<longleftrightarrow>
     narrowed c t ds i \<and> pic50_passes pr (ps ! i) \<and>
     in_range mr (ms ! i) \<and> in_range lr (ls ! i)"
  by (simp add: passes_def)

lemma passes_Int:
  "{i. passes c mr lr pr t ds ms ls ps i} =
     {i. t ! i \<in> set (selected_targets c)} \<inter> {i. drug_like_only c \<longrightarrow> ds ! i} \<inter>
     {i. \<forall>r. pr = Some r \<longrightarrow> fl_le (fst r) (ps ! i) \<and> fl_le (ps ! i) (snd r)} \<inter>
     {i. fl_le (fst mr) (ms ! i) \<and> fl_le (ms ! i) (snd mr)} \<inter>
     {i. fl_le (fst lr) (ls ! i) \<and> fl_le (ls ! i) (snd lr)}"
  by (cases pr) (auto simp: passes_def pic50_passes_def narrowed_def in_range_def)

lemma passes_defined:
  "passes c mr lr pr t ds ms ls ps i \<Longrightarrow>
     ms ! i \<noteq> NaN \<and> ls ! i \<noteq> NaN \<and> (pr \<noteq> None \<longrightarrow> ps ! i \<noteq> NaN)"
  by (cases pr) (auto simp: passes_def pic50_passes_def dest: in_range_defined)

text \<open>
  Claim C4. Let the table have the columns \<open>target\<close>, \<open>is_drug_like\<close> (boolean), \<open>mw\<close>,
  \<open>logp\<close> and \<open>pIC50\<close> (numeric), and let the run of the filter display a table, no slider
  having raised. Then the table displayed consists of the rows that pass, in order, with their
  cells unchanged. The rows that pass are the intersection of the sets of rows that satisfy
  each constraint: the target is one of the selected ones, by equality of the cells; the
  drug-likeness checkbox; and for each range \<open>low \<le> value \<le> high\<close>, where the ranges are the
  ones the sliders returned and the pIC50 range is a constraint exactly when the narrowed table
  has some pIC50. A row with a missing value for a ranged property does not pass.
\<close>

theorem filter_semantics:
  assumes g: "getitem df ''target'' = Some t" "getitem df ''is_drug_like'' = Some d"
             "getitem df ''mw'' = Some mw" "getitem df ''logp'' = Some lp"
             "getitem df ''pIC50'' = Some p"
      and ty: "bools d = Some ds" "nums mw = Some ms" "nums lp = Some ls" "nums p = Some ps"
      and len: "length t = nrows df" "length ds = nrows df" "length ms = nrows df"
               "length ls = nrows df" "length ps = nrows df"
      and run: "filter_compounds df c = Some pn"
  shows "nrows (filtered_df pn) =
           length (filter (passes c (mw_range pn) (logp_range pn) (pic50_range pn) t ds ms ls ps)
                     [0..<nrows df]) \<and>
         (\<forall>col s. getitem df col = Some s \<and> length s = nrows df \<longrightarrow>
            getitem (filtered_df pn) col =
              Some (map (nth s)
                     (filter (passes c (mw_range pn) (logp_range pn) (pic50_range pn) t ds ms ls ps)
                        [0..<nrows df]))) \<and>
         {i. passes c (mw_range pn) (logp_range pn) (pic50_range pn) t ds ms ls ps i} =
           {i. t ! i \<in> set (selected_targets c)} \<inter> {i. drug_like_only c \<longrightarrow> ds ! i} \<inter>
           {i. \<forall>r. pic50_range pn = Some r \<longrightarrow> fl_le (fst r) (ps ! i) \<and> fl_le (ps ! i) (snd r)} \<inter>
           {i. fl_le (fst (mw_range pn)) (ms ! i) \<and> fl_le (ms ! i) (snd (mw_range pn))} \<inter>
           {i. fl_le (fst (logp_range pn)) (ls ! i) \<and> fl_le (ls ! i) (snd (logp_range pn))} \<and>
         (\<forall>i. passes c (mw_range pn) (logp_range pn) (pic50_range pn) t ds ms ls ps i \<longrightarrow>
            ms ! i \<noteq> NaN \<and> ls ! i \<noteq> NaN \<and> (pic50_range pn \<noteq> None \<longrightarrow> ps ! i \<noteq> NaN)) \<and>
         slider (mw_bounds pn) (mw_choice c) = Some (mw_range pn) \<and>
         slider (logp_bounds pn) (logp_choice c) = Some (logp_range pn) \<and>
         (pic50_range pn \<noteq> None \<longleftrightarrow> pic50_active c t ds ps) \<and>
         (\<forall>r. pic50_range pn = Some r \<longrightarrow>
            (\<exists>b. pic50_bounds pn = Some b \<and> slider b (pic50_choice c) = Some r))"
proof -
  let ?P = "passes c (mw_range pn) (logp_range pn) (pic50_range pn) t ds ms ls ps"
  note D = filter_compounds_SomeD[OF g ty len run]
  have out: "filtered_df pn = boolean_index df (map ?P [0..<nrows df])"
    by (rule D(7))
  have a: "nrows (filtered_df pn) = length (filter ?P [0..<nrows df])"
    by (simp add: out nrows_boolean_index count_true_map_upt)
  have b: "\<forall>col s. getitem df col = Some s \<and> length s = nrows df \<longrightarrow>
              getitem (filtered_df pn) col = Some (map (nth s) (filter ?P [0..<nrows df]))"
    by (simp add: out getitem_boolean_index_upt)
  have e: "\<forall>i. ?P i \<longrightarrow>
            ms ! i \<noteq> NaN \<and> ls ! i \<noteq> NaN \<and> (pic50_range pn \<noteq> None \<longrightarrow> ps ! i \<noteq> NaN)"
    by (intro allI impI) (rule passes_defined)
  have f: "pic50_range pn \<noteq> None \<longleftrightarrow> pic50_active c t ds ps"
  proof (cases "pic50_active c t ds ps")
    case True
    from D(5)[OF True] show ?thesis using True by auto
  next
    case False
    from D(6)[OF False] show ?thesis using False by simp
  qed
  have h: "\<forall>r. pic50_range pn = Some r \<longrightarrow>
            (\<exists>b. pic50_bounds pn = Some b \<and> slider b (pic50_choice c) = Some r)"
  proof (intro allI impI)
    fix r assume r: "pic50_range pn = Some r"
    with f have "pic50_active c t ds ps" by simp
    from D(5)[OF this] r show "\<exists>b. pic50_bounds pn = Some b \<and> slider b (pic50_choice c) = Some r"
      by auto
  qed
  show ?thesis
    by (intro conjI a b passes_Int e D(2) D(4) f h)
qed

text \<open>
  The table of five compounds and its columns. With both targets selected every row is
  narrowed in, the bounds of the sliders are 100 to 400, 1 to 4 and 6 to 8.
\<close>

lemma upt_5: "[0..<5] = [0, 1, 2, 3, 4]"
  by (simp add: upt_rec)

lemma demo_getitem:
  "getitem demo_compounds ''target'' = Some [S ''COX1'', S ''COX1'', S ''COX1'', S ''EGFR'', S ''EGFR'']"
  "getitem demo_compounds ''is_drug_like'' = Some (map B [True, True, True, True, True])"
  "getitem demo_compounds ''mw'' = Some (map F [Fin 100, Fin 200, Fin 250, Fin 300, Fin 400])"
  "getitem demo_compounds ''logp'' = Some (map F [Fin 1, Fin 2, Fin (5 / 2), Fin 3, Fin 4])"
  "getitem demo_compounds ''pIC50'' = Some (map F [NaN, NaN, NaN, Fin 6, Fin 8])"
  by (simp_all add: demo_compounds_def getitem_def)

lemma demo_types:
  "bools (map B [True, True, True, True, True]) = Some [True, True, True, True, True]"
  "nums (map F [Fin 100, Fin 200, Fin 250, Fin 300, Fin 400])
     = Some [Fin 100, Fin 200, Fin 250, Fin 300, Fin 400]"
  "nums (map F [Fin 1, Fin 2, Fin (5 / 2), Fin 3, Fin 4]) = Some [Fin 1, Fin 2, Fin (5 / 2), Fin 3, Fin 4]"
  "nums (map F [NaN, NaN, NaN, Fin 6, Fin 8]) = Some [NaN, NaN, NaN, Fin 6, Fin 8]"
  by (simp_all add: bools_def nums_def)

lemma demo_nrows: "nrows demo_compounds = 5"
  by (simp add: demo_compounds_def)

lemma demo_lengths:
  "length [S ''COX1'', S ''COX1'', S ''COX1'', S ''EGFR'', S ''EGFR''] = nrows demo_compounds"
  "length [True, True, True, True, True] = nrows demo_compounds"
  "length [Fin 100, Fin 200, Fin 250, Fin 300, Fin 400] = nrows demo_compounds"
  "length [Fin 1, Fin 2, Fin (5 / 2), Fin 3, Fin 4] = nrows demo_compounds"
  "length [NaN, NaN, NaN, Fin 6, Fin 8] = nrows demo_compounds"
  by (simp_all add: demo_nrows)

lemma demo_bounds_all:
  "series_bounds (select [True, True, True, True, True]
     (map F [Fin 100, Fin 200, Fin 250, Fin 300, Fin 400])) = Some (Fin 100, Fin 400)"
  "series_bounds (select [True, True, True, True, True]
     (map F [Fin 1, Fin 2, Fin (5 / 2), Fin 3, Fin 4])) = Some (Fin 1, Fin 4)"
  "series_bounds (select [True, True, True, True, True]
     (map F [NaN, NaN, NaN, Fin 6, Fin 8])) = Some (Fin 6, Fin 8)"
  by (simp_all add: series_bounds_def series_min_def series_max_def nums_def present_def
        fl_min_def fl_max_def)

lemma demo_bounds_cox1:
  "series_bounds (select [True, True, True, False, False]
     (map F [Fin 100, Fin 200, Fin 250, Fin 300, Fin 400])) = Some (Fin 100, Fin 250)"
  "series_bounds (select [True, True, True, False, False]
     (map F [Fin 1, Fin 2, Fin (5 / 2), Fin 3, Fin 4])) = Some (Fin 1, Fin (5 / 2))"
  "series_bounds (select [True, True, True, False, False]
     (map F [NaN, NaN, NaN, Fin 6, Fin 8])) = Some (NaN, NaN)"
  by (simp_all add: series_bounds_def series_min_def series_max_def nums_def present_def
        fl_min_def fl_max_def)

lemma demo_bounds_egfr:
  "series_bounds (select [False, False, False, True, True]
     (map F [Fin 100, Fin 200, Fin 250, Fin 300, Fin 400])) = Some (Fin 300, Fin 400)"
  "series_bounds (select [False, False, False, True, True]
     (map F [Fin 1, Fin 2, Fin (5 / 2), Fin 3, Fin 4])) = Some (Fin 3, Fin 4)"
  "series_bounds (select [False, False, False, True, True]
     (map F [NaN, NaN, NaN, Fin 6, Fin 8])) = Some (Fin 6, Fin 8)"
  by (simp_all add: series_bounds_def series_min_def series_max_def nums_def present_def
        fl_min_def fl_max_def)

lemma demo_narrowed_all:
  assumes "selected_targets c = [S ''COX1'', S ''EGFR'']" "\<not> drug_like_only c"
  shows "map (narrowed c [S ''COX1'', S ''COX1'', S ''COX1'', S ''EGFR'', S ''EGFR'']
               [True, True, True, True, True]) [0..<nrows demo_compounds]
         = [True, True, True, True, True]"
  by (simp add: demo_nrows upt_5 narrowed_def assms)

lemma demo_narrowed_cox1:
  assumes "selected_targets c = [S ''COX1'']" "\<not> drug_like_only c"
  shows "map (narrowed c [S ''COX1'', S ''COX1'', S ''COX1'', S ''EGFR'', S ''EGFR'']
               [True, True, True, True, True]) [0..<nrows demo_compounds]
         = [True, True, True, False, False]"
  by (simp add: demo_nrows upt_5 narrowed_def assms)

lemma demo_narrowed_egfr:
  assumes "selected_targets c = [S ''EGFR'']" "\<not> drug_like_only c"
  shows "map (narrowed c [S ''COX1'', S ''COX1'', S ''COX1'', S ''EGFR'', S ''EGFR'']
               [True, True, True, True, True]) [0..<nrows demo_compounds]
         = [False, False, False, True, True]"
  by (simp add: demo_nrows upt_5 narrowed_def assms)

lemma demo_active:
  assumes "S ''EGFR'' \<in> set (selected_targets c)" "\<not> drug_like_only c"
  shows "pic50_active c [S ''COX1'', S ''COX1'', S ''COX1'', S ''EGFR'', S ''EGFR'']
           [True, True, True, True, True] [NaN, NaN, NaN, Fin 6, Fin 8]"
  unfolding pic50_active_def
  by (rule bexI[of _ 3]) (simp_all add: narrowed_def assms)

lemma demo_inactive:
  assumes "selected_targets c = [S ''COX1'']"
  shows "\<not> pic50_active c [S ''COX1'', S ''COX1'', S ''COX1'', S ''EGFR'', S ''EGFR'']
           [True, True, True, True, True] [NaN, NaN, NaN, Fin 6, Fin 8]"
proof -
  have e: "{0..<length [NaN, NaN, NaN, Fin 6, Fin 8]} = {0, 1, 2, 3, 4}"
    by auto
  show ?thesis
    unfolding pic50_active_def e by (simp add: narrowed_def assms)
qed

text \<open>The run with both targets selected and the pIC50 slider set to 7 to 8.\<close>

lemma demo_run_potent:
  "filter_compounds demo_compounds potent_controls =
     Some \<lparr>mw_bounds = (Fin 100, Fin 400), mw_range = (Fin 100, Fin 400),
           logp_bounds = (Fin 1, Fin 4), logp_range = (Fin 1, Fin 4),
           pic50_bounds = Some (Fin 6, Fin 8), pic50_range = Some (Fin 7, Fin 8),
           filtered_df = boolean_index demo_compounds
             (map (passes potent_controls (Fin 100, Fin 400) (Fin 1, Fin 4) (Some (Fin 7, Fin 8))
                     [S ''COX1'', S ''COX1'', S ''COX1'', S ''EGFR'', S ''EGFR'']
                     [True, True, True, True, True]
                     [Fin 100, Fin 200, Fin 250, Fin 300, Fin 400]
                     [Fin 1, Fin 2, Fin (5 / 2), Fin 3, Fin 4]
                     [NaN, NaN, NaN, Fin 6, Fin 8]) [0..<nrows demo_compounds])\<rparr>"
proof -
  have c: "selected_targets potent_controls = [S ''COX1'', S ''EGFR'']"
          "\<not> drug_like_only potent_controls"
          "mw_choice potent_controls = None" "logp_choice potent_controls = None"
          "pic50_choice potent_controls = Some (Fin 7, Fin 8)"
    by (simp_all add: potent_controls_def default_controls_def)
  have bd: "series_bounds (select (map (narrowed potent_controls
               [S ''COX1'', S ''COX1'', S ''COX1'', S ''EGFR'', S ''EGFR'']
               [True, True, True, True, True]) [0..<nrows demo_compounds])
               (map F [Fin 100, Fin 200, Fin 250, Fin 300, Fin 400])) = Some (Fin 100, Fin 400)"
           "series_bounds (select (map (narrowed potent_controls
               [S ''COX1'', S ''COX1'', S ''COX1'', S ''EGFR'', S ''EGFR'']
               [True, True, True, True, True]) [0..<nrows demo_compounds])
               (map F [Fin 1, Fin 2, Fin (5 / 2), Fin 3, Fin 4])) = Some (Fin 1, Fin 4)"
           "series_bounds (select (map (narrowed potent_controls
               [S ''COX1'', S ''COX1'', S ''COX1'', S ''EGFR'', S ''EGFR'']
               [True, True, True, True, True]) [0..<nrows demo_compounds])
               (map F [NaN, NaN, NaN, Fin 6, Fin 8])) = Some (Fin 6, Fin 8)"
    by (simp_all only: demo_narrowed_all[OF c(1,2)] demo_bounds_all)
  have a: "pic50_active potent_controls [S ''COX1'', S ''COX1'', S ''COX1'', S ''EGFR'', S ''EGFR'']
           [True, True, True, True, True] [NaN, NaN, NaN, Fin 6, Fin 8]"
    by (rule demo_active) (simp_all add: c)
  show ?thesis
    unfolding filter_compounds_eq[OF demo_getitem demo_types demo_lengths bd]
    using a by (simp add: c slider_def)
qed

text \<open>
  With the pIC50 slider set to 7 to 8, only the compound whose pIC50 is 8 is displayed.
\<close>

theorem filter_semantics_witness:
  "\<exists>pn. filter_compounds demo_compounds potent_controls = Some pn \<and>
     pic50_range pn = Some (Fin 7, Fin 8) \<and>
     nrows (filtered_df pn) = 1 \<and>
     getitem (filtered_df pn) ''chembl_id'' = Some [S ''CHEMBL5'']"
proof -
  let ?t = "[S ''COX1'', S ''COX1'', S ''COX1'', S ''EGFR'', S ''EGFR'']"
  let ?ds = "[True, True, True, True, True]"
  let ?ms = "[Fin 100, Fin 200, Fin 250, Fin 300, Fin 400]"
  let ?ls = "[Fin 1, Fin 2, Fin (5 / 2), Fin 3, Fin 4]"
  let ?ps = "[NaN, NaN, NaN, Fin 6, Fin 8]"
  let ?id = "[S ''CHEMBL1'', S ''CHEMBL2'', S ''CHEMBL3'', S ''CHEMBL4'', S ''CHEMBL5'']"
  let ?pn = "\<lparr>mw_bounds = (Fin 100, Fin 400), mw_range = (Fin 100, Fin 400),
           logp_bounds = (Fin 1, Fin 4), logp_range = (Fin 1, Fin 4),
           pic50_bounds = Some (Fin 6, Fin 8), pic50_range = Some (Fin 7, Fin 8),
           filtered_df = boolean_index demo_compounds
             (map (passes potent_controls (Fin 100, Fin 400) (Fin 1, Fin 4) (Some (Fin 7, Fin 8))
                     ?t ?ds ?ms ?ls ?ps) [0..<nrows demo_compounds])\<rparr>"
  let ?P = "passes potent_controls (Fin 100, Fin 400) (Fin 1, Fin 4) (Some (Fin 7, Fin 8))
              ?t ?ds ?ms ?ls ?ps"
  have gi: "getitem demo_compounds ''chembl_id'' = Some ?id"
    by (simp add: demo_compounds_def getitem_def)
  have run: "filter_compounds demo_compounds potent_controls = Some ?pn"
    by (rule demo_run_potent)
  have p: "\<not> ?P 0" "\<not> ?P (Suc 0)" "\<not> ?P 2" "\<not> ?P 3" "?P 4"
    by (simp_all add: passes_def pic50_passes_def narrowed_def in_range_def
          potent_controls_def default_controls_def)
  have k: "filter ?P [0..<nrows demo_compounds] = [4]"
    by (simp add: demo_nrows upt_5 p)
  note sem = filter_semantics[OF demo_getitem demo_types demo_lengths run]
  from sem[THEN conjunct1] have n: "nrows (filtered_df ?pn) = 1"
    by (simp add: k)
  from sem[THEN conjunct2, THEN conjunct1, rule_format, of "''chembl_id''" ?id] gi
  have i: "getitem (filtered_df ?pn) ''chembl_id'' = Some [S ''CHEMBL5'']"
    by (simp add: k[unfolded demo_nrows] demo_nrows)
  show ?thesis
    by (rule exI[of _ ?pn]) (intro conjI run n i, simp)
qed

section \<open>The pIC50 stage of the filter\<close>

lemma fl_le_refl: "x \<noteq> NaN \<Longrightarrow> fl_le x x"
  by (cases x) simp_all

lemma fl_le_total: "x \<noteq> NaN \<Longrightarrow> y \<noteq> NaN \<Longrightarrow> fl_le x y \<or> fl_le y x"
  by (cases x; cases y) auto

lemma fl_le_trans: "fl_le x y \<Longrightarrow> fl_le y z \<Longrightarrow> fl_le x z"
  by (cases x; cases y; cases z) auto

lemma fl_le_NaN: "fl_le x y \<Longrightarrow> x \<noteq> NaN \<and> y \<noteq> NaN"
  by (cases x; cases y) auto

lemma fl_lt_not_le: "fl_lt x y \<Longrightarrow> \<not> fl_le y x"
  by (cases x; cases y) auto

lemma foldl_fl_min:
  "NaN \<notin> set (y # ys) \<Longrightarrow> \<forall>x \<in> set (y # ys). fl_le (foldl fl_min y ys) x"
proof (induction ys arbitrary: y)
  case Nil
  then show ?case by (simp add: fl_le_refl)
next
  case (Cons z zs)
  have n: "fl_min y z \<noteq> NaN" using Cons.prems by (auto simp: fl_min_def)
  then have ih: "\<forall>x \<in> set (fl_min y z # zs). fl_le (foldl fl_min (fl_min y z) zs) x"
    using Cons.prems by (intro Cons.IH) auto
  have "fl_le (fl_min y z) y" "fl_le (fl_min y z) z"
    using Cons.prems fl_le_total[of y z] by (auto simp: fl_min_def fl_le_refl)
  with ih show ?case by (auto intro: fl_le_trans)
qed

lemma foldl_fl_max:
  "NaN \<notin> set (y # ys) \<Longrightarrow> \<forall>x \<in> set (y # ys). fl_le x (foldl fl_max y ys)"
proof (induction ys arbitrary: y)
  case Nil
  then show ?case by (simp add: fl_le_refl)
next
  case (Cons z zs)
  have n: "fl_max y z \<noteq> NaN" using Cons.prems by (auto simp: fl_max_def)
  then have ih: "\<forall>x \<in> set (fl_max y z # zs). fl_le x (foldl fl_max (fl_max y z) zs)"
    using Cons.prems by (intro Cons.IH) auto
  have "fl_le y (fl_max y z)" "fl_le z (fl_max y z)"
    using Cons.prems fl_le_total[of y z] by (auto simp: fl_max_def fl_le_refl)
  with ih show ?case by (auto intro: fl_le_trans)
qed

lemma series_bounds_in_range:
  assumes "nums s = Some xs" "series_bounds s = Some b" "x \<in> set xs" "x \<noteq> NaN"
  shows "in_range b x"
proof -
  have px: "x \<in> set (present xs)" using assms(3,4) by (simp add: present_def)
  then obtain y ys where yys: "present xs = y # ys" by (cases "present xs") auto
  have nn: "NaN \<notin> set (y # ys)" using yys[symmetric] by (simp add: present_def)
  have b: "b = (foldl fl_min y ys, foldl fl_max y ys)"
    using assms(1,2) yys by (simp add: series_bounds_def series_min_def series_max_def)
  show ?thesis
    using foldl_fl_min[OF nn] foldl_fl_max[OF nn] px yys by (auto simp: b in_range_def)
qed






section \<open>The bounds of the sliders\<close>

text \<open>The runs on the table of five compounds with no slider touched.\<close>

lemma demo_run_default:
  "filter_compounds demo_compounds default_controls =
     Some \<lparr>mw_bounds = (Fin 100, Fin 400), mw_range = (Fin 100, Fin 400),
           logp_bounds = (Fin 1, Fin 4), logp_range = (Fin 1, Fin 4),
           pic50_bounds = Some (Fin 6, Fin 8), pic50_range = Some (Fin 6, Fin 8),
           filtered_df = boolean_index demo_compounds
             (map (passes default_controls (Fin 100, Fin 400) (Fin 1, Fin 4) (Some (Fin 6, Fin 8))
                     [S ''COX1'', S ''COX1'', S ''COX1'', S ''EGFR'', S ''EGFR'']
                     [True, True, True, True, True]
                     [Fin 100, Fin 200, Fin 250, Fin 300, Fin 400]
                     [Fin 1, Fin 2, Fin (5 / 2), Fin 3, Fin 4]
                     [NaN, NaN, NaN, Fin 6, Fin 8]) [0..<nrows demo_compounds])\<rparr>"
proof -
  have c: "selected_targets default_controls = [S ''COX1'', S ''EGFR'']"
          "\<not> drug_like_only default_controls"
          "mw_choice default_controls = None" "logp_choice default_controls = None"
          "pic50_choice default_controls = None"
    by (simp_all add: default_controls_def)
  have bd: "series_bounds (select (map (narrowed default_controls
               [S ''COX1'', S ''COX1'', S ''COX1'', S ''EGFR'', S ''EGFR'']
               [True, True, True, True, True]) [0..<nrows demo_compounds])
               (map F [Fin 100, Fin 200, Fin 250, Fin 300, Fin 400])) = Some (Fin 100, Fin 400)"
           "series_bounds (select (map (narrowed default_controls
               [S ''COX1'', S ''COX1'', S ''COX1'', S ''EGFR'', S ''EGFR'']
               [True, True, True, True, True]) [0..<nrows demo_compounds])
               (map F [Fin 1, Fin 2, Fin (5 / 2), Fin 3, Fin 4])) = Some (Fin 1, Fin 4)"
           "series_bounds (select (map (narrowed default_controls
               [S ''COX1'', S ''COX1'', S ''COX1'', S ''EGFR'', S ''EGFR'']
               [True, True, True, True, True]) [0..<nrows demo_compounds])
               (map F [NaN, NaN, NaN, Fin 6, Fin 8])) = Some (Fin 6, Fin 8)"
    by (simp_all only: demo_narrowed_all[OF c(1,2)] demo_bounds_all)
  have a: "pic50_active default_controls [S ''COX1'', S ''COX1'', S ''COX1'', S ''EGFR'', S ''EGFR'']
           [True, True, True, True, True] [NaN, NaN, NaN, Fin 6, Fin 8]"
    by (rule demo_active) (simp_all add: c)
  show ?thesis
    unfolding filter_compounds_eq[OF demo_getitem demo_types demo_lengths bd]
    using a by (simp add: c slider_def)
qed

lemma demo_run_cox1:
  assumes c: "selected_targets c = [S ''COX1'']" "\<not> drug_like_only c" "logp_choice c = None"
             "mw_choice c = None \<or> mw_choice c = Some (Fin 150, Fin 200)"
  shows "filter_compounds demo_compounds c =
     Some \<lparr>mw_bounds = (Fin 100, Fin 250),
           mw_range = (case mw_choice c of None \<Rightarrow> (Fin 100, Fin 250) | Some r \<Rightarrow> r),
           logp_bounds = (Fin 1, Fin (5 / 2)), logp_range = (Fin 1, Fin (5 / 2)),
           pic50_bounds = None, pic50_range = None,
           filtered_df = boolean_index demo_compounds
             (map (passes c (case mw_choice c of None \<Rightarrow> (Fin 100, Fin 250) | Some r \<Rightarrow> r)
                     (Fin 1, Fin (5 / 2)) None
                     [S ''COX1'', S ''COX1'', S ''COX1'', S ''EGFR'', S ''EGFR'']
                     [True, True, True, True, True]
                     [Fin 100, Fin 200, Fin 250, Fin 300, Fin 400]
                     [Fin 1, Fin 2, Fin (5 / 2), Fin 3, Fin 4]
                     [NaN, NaN, NaN, Fin 6, Fin 8]) [0..<nrows demo_compounds])\<rparr>"
proof -
  have bd: "series_bounds (select (map (narrowed c
               [S ''COX1'', S ''COX1'', S ''COX1'', S ''EGFR'', S ''EGFR'']
               [True, True, True, True, True]) [0..<nrows demo_compounds])
               (map F [Fin 100, Fin 200, Fin 250, Fin 300, Fin 400])) = Some (Fin 100, Fin 250)"
           "series_bounds (select (map (narrowed c
               [S ''COX1'', S ''COX1'', S ''COX1'', S ''EGFR'', S ''EGFR'']
               [True, True, True, True, True]) [0..<nrows demo_compounds])
               (map F [Fin 1, Fin 2, Fin (5 / 2), Fin 3, Fin 4])) = Some (Fin 1, Fin (5 / 2))"
           "series_bounds (select (map (narrowed c
               [S ''COX1'', S ''COX1'', S ''COX1'', S ''EGFR'', S ''EGFR'']
               [True, True, True, True, True]) [0..<nrows demo_compounds])
               (map F [NaN, NaN, NaN, Fin 6, Fin 8])) = Some (NaN, NaN)"
    by (simp_all only: demo_narrowed_cox1[OF c(1,2)] demo_bounds_cox1)
  have a: "\<not> pic50_active c [S ''COX1'', S ''COX1'', S ''COX1'', S ''EGFR'', S ''EGFR'']
           [True, True, True, True, True] [NaN, NaN, NaN, Fin 6, Fin 8]"
    by (rule demo_inactive) (rule c(1))
  show ?thesis
    unfolding filter_compounds_eq[OF demo_getitem demo_types demo_lengths bd]
    using a c(4) by (auto simp: c(3) slider_def)
qed

text \<open>
  Claim C9 as stated fails: when the selection of targets is changed from both targets to
  COX1 alone, the bounds of the molecular-weight slider shrink from 100 and 400, the minimum
  and maximum of the column of the table that was loaded, to 100 and 250.
\<close>

theorem slider_bounds_narrowed_counterexample:
  "(getitem demo_compounds ''mw'' \<bind> series_bounds) = Some (Fin 100, Fin 400) \<and>
   map_option mw_bounds (filter_compounds demo_compounds default_controls)
     = Some (Fin 100, Fin 400) \<and>
   map_option mw_bounds (filter_compounds demo_compounds cox1_controls)
     = Some (Fin 100, Fin 250)"
proof -
  have "(getitem demo_compounds ''mw'' \<bind> series_bounds) = Some (Fin 100, Fin 400)"
    using demo_bounds_all(1) by (simp add: demo_getitem)
  moreover have "map_option mw_bounds (filter_compounds demo_compounds default_controls)
     = Some (Fin 100, Fin 400)"
    by (simp add: demo_run_default)
  moreover have "map_option mw_bounds (filter_compounds demo_compounds cox1_controls)
     = Some (Fin 100, Fin 250)"
    by (subst demo_run_cox1) (simp_all add: cox1_controls_def default_controls_def)
  ultimately show ?thesis by (intro conjI)
qed

lemma narrowed_cong:
  "selected_targets c' = selected_targets c \<Longrightarrow> drug_like_only c' = drug_like_only c \<Longrightarrow>
   narrowed c' t ds = narrowed c t ds"
  by (simp add: narrowed_def fun_eq_iff)

lemma pic50_active_cong:
  "selected_targets c' = selected_targets c \<Longrightarrow> drug_like_only c' = drug_like_only c \<Longrightarrow>
   pic50_active c' t ds ps = pic50_active c t ds ps"
  by (simp add: pic50_active_def narrowed_def)

lemma slider_Some_any:
  "slider b ch = Some r \<Longrightarrow> \<exists>r'. slider b ch' = Some r'"
proof -
  assume "slider b ch = Some r"
  then have "slider b ch \<noteq> None" by simp
  then have "slider b ch' \<noteq> None" unfolding slider_None_iff .
  then show ?thesis by (cases "slider b ch'") simp_all
qed

text \<open>
  Whether a run raises, and the bounds of its sliders, depend on the selection of targets and
  on the checkbox only.
\<close>

lemma filter_compounds_same_bounds:
  assumes g: "getitem df ''target'' = Some t" "getitem df ''is_drug_like'' = Some d"
             "getitem df ''mw'' = Some mw" "getitem df ''logp'' = Some lp"
             "getitem df ''pIC50'' = Some p"
      and ty: "bools d = Some ds" "nums mw = Some ms" "nums lp = Some ls" "nums p = Some ps"
      and len: "length t = n" "length ds = n" "length ms = n" "length ls = n" "length ps = n"
      and run: "filter_compounds df c = Some pn"
      and c': "selected_targets c' = selected_targets c" "drug_like_only c' = drug_like_only c"
  shows "\<exists>pn'. filter_compounds df c' = Some pn' \<and> mw_bounds pn' = mw_bounds pn \<and>
           logp_bounds pn' = logp_bounds pn \<and> pic50_bounds pn' = pic50_bounds pn"
proof -
  let ?N = "map (narrowed c t ds) [0..<n]"
  note D = filter_compounds_SomeD[OF g ty len run]
  obtain pb where pb: "series_bounds (select ?N p) = Some pb"
    using series_bounds_Some[OF nums_select[OF ty(4)]] by blast
  have bd: "series_bounds (select (map (narrowed c' t ds) [0..<n]) mw) = Some (mw_bounds pn)"
           "series_bounds (select (map (narrowed c' t ds) [0..<n]) lp) = Some (logp_bounds pn)"
           "series_bounds (select (map (narrowed c' t ds) [0..<n]) p) = Some pb"
    unfolding narrowed_cong[OF c'] by (rule D(1), rule D(3), rule pb)
  note eq = filter_compounds_eq[OF g ty len bd, unfolded pic50_active_cong[OF c']]
  obtain mr where mr: "slider (mw_bounds pn) (mw_choice c') = Some mr"
    using slider_Some_any[OF D(2)] by blast
  obtain lr where lr: "slider (logp_bounds pn) (logp_choice c') = Some lr"
    using slider_Some_any[OF D(4)] by blast
  show ?thesis
  proof (cases "pic50_active c t ds ps")
    case False
    from D(6)[OF False] show ?thesis
      unfolding eq mr lr using False by simp
  next
    case True
    from D(5)[OF True] obtain qb r where
      q: "pic50_bounds pn = Some qb" "series_bounds (select ?N p) = Some qb"
         "slider qb (pic50_choice c) = Some r"
      by (elim exE conjE) (rule that, assumption+)
    have e: "qb = pb" using q(2) pb by simp
    obtain r' where r': "slider pb (pic50_choice c') = Some r'"
      using slider_Some_any[OF q(3)[unfolded e]] by blast
    show ?thesis
      unfolding eq mr lr r' using True q(1) e by simp
  qed
qed

text \<open>
  Claim C9, amended. In a run that displays a table, the bounds of the three sliders are the
  minimum and maximum of their column over the table already narrowed by the target selection
  and the drug-likeness checkbox, as the script orders it (\<open># Apply target filter first\<close>).
  No range constraint narrows them: a run that differs only in what the user has set on the
  sliders displays a table as well and has the same bounds.
\<close>

theorem slider_bounds_of_narrowed_table:
  assumes g: "getitem df ''target'' = Some t" "getitem df ''is_drug_like'' = Some d"
             "getitem df ''mw'' = Some mw" "getitem df ''logp'' = Some lp"
             "getitem df ''pIC50'' = Some p"
      and ty: "bools d = Some ds" "nums mw = Some ms" "nums lp = Some ls" "nums p = Some ps"
      and len: "length t = nrows df" "length ds = nrows df" "length ms = nrows df"
               "length ls = nrows df" "length ps = nrows df"
      and run: "filter_compounds df c = Some pn"
  shows "\<exists>nd. (target_filter df c \<bind> (\<lambda>df. drug_like_filter df c)) = Some nd \<and>
           (getitem nd ''mw'' \<bind> series_bounds) = Some (mw_bounds pn) \<and>
           (getitem nd ''logp'' \<bind> series_bounds) = Some (logp_bounds pn) \<and>
           (pic50_bounds pn \<noteq> None \<longrightarrow>
              (getitem nd ''pIC50'' \<bind> series_bounds) = pic50_bounds pn) \<and>
           (\<forall>c'. selected_targets c' = selected_targets c \<and> drug_like_only c' = drug_like_only c
              \<longrightarrow> (\<exists>pn'. filter_compounds df c' = Some pn' \<and> mw_bounds pn' = mw_bounds pn \<and>
                     logp_bounds pn' = logp_bounds pn \<and> pic50_bounds pn' = pic50_bounds pn))"
proof -
  let ?N = "map (narrowed c t ds) [0..<nrows df]"
  let ?nd = "boolean_index df ?N"
  note D = filter_compounds_SomeD[OF g ty len run]
  have nd: "(target_filter df c \<bind> (\<lambda>df. drug_like_filter df c)) = Some ?nd"
    by (rule narrowed_table[OF g(1) len(1) g(2) ty(1) len(2)])
  have a: "(getitem ?nd ''mw'' \<bind> series_bounds) = Some (mw_bounds pn)"
    by (simp add: getitem_boolean_index g D(1))
  have b: "(getitem ?nd ''logp'' \<bind> series_bounds) = Some (logp_bounds pn)"
    by (simp add: getitem_boolean_index g D(3))
  have e: "pic50_bounds pn \<noteq> None \<longrightarrow> (getitem ?nd ''pIC50'' \<bind> series_bounds) = pic50_bounds pn"
  proof (cases "pic50_active c t ds ps")
    case True
    from D(5)[OF True] show ?thesis by (auto simp: getitem_boolean_index g)
  next
    case False
    from D(6)[OF False] show ?thesis by simp
  qed
  have f: "\<forall>c'. selected_targets c' = selected_targets c \<and> drug_like_only c' = drug_like_only c
              \<longrightarrow> (\<exists>pn'. filter_compounds df c' = Some pn' \<and> mw_bounds pn' = mw_bounds pn \<and>
                     logp_bounds pn' = logp_bounds pn \<and> pic50_bounds pn' = pic50_bounds pn)"
  proof (intro allI impI, elim conjE)
    fix c' :: controls
    assume "selected_targets c' = selected_targets c" "drug_like_only c' = drug_like_only c"
    then show "\<exists>pn'. filter_compounds df c' = Some pn' \<and> mw_bounds pn' = mw_bounds pn \<and>
                     logp_bounds pn' = logp_bounds pn \<and> pic50_bounds pn' = pic50_bounds pn"
      by (rule filter_compounds_same_bounds[OF g ty len run])
  qed
  show ?thesis
    by (rule exI[of _ ?nd]) (intro conjI nd a b e f)
qed

text \<open>
  With only COX1 selected, the bounds are those of the three COX1 compounds, whatever the
  molecular-weight slider is set to.
\<close>

theorem slider_bounds_of_narrowed_table_witness:
  "\<exists>pn pn'. filter_compounds demo_compounds cox1_controls = Some pn \<and>
     mw_bounds pn = (Fin 100, Fin 250) \<and> logp_bounds pn = (Fin 1, Fin (5 / 2)) \<and>
     pic50_bounds pn = None \<and>
     filter_compounds demo_compounds (cox1_controls\<lparr>mw_choice := Some (Fin 150, Fin 200)\<rparr>)
       = Some pn' \<and>
     mw_range pn' = (Fin 150, Fin 200) \<and> mw_bounds pn' = (Fin 100, Fin 250)"
proof -
  let ?c' = "cox1_controls\<lparr>mw_choice := Some (Fin 150, Fin 200)\<rparr>"
  have c: "selected_targets cox1_controls = [S ''COX1'']" "\<not> drug_like_only cox1_controls"
          "logp_choice cox1_controls = None"
          "mw_choice cox1_controls = None \<or> mw_choice cox1_controls = Some (Fin 150, Fin 200)"
    by (simp_all add: cox1_controls_def default_controls_def)
  have c': "selected_targets ?c' = [S ''COX1'']" "\<not> drug_like_only ?c'"
          "logp_choice ?c' = None"
          "mw_choice ?c' = None \<or> mw_choice ?c' = Some (Fin 150, Fin 200)"
    by (simp_all add: cox1_controls_def default_controls_def)
  obtain pn where run: "filter_compounds demo_compounds cox1_controls = Some pn"
    and b: "mw_bounds pn = (Fin 100, Fin 250)" "logp_bounds pn = (Fin 1, Fin (5 / 2))"
           "pic50_bounds pn = None"
    using demo_run_cox1[OF c] by simp
  have s: "selected_targets ?c' = selected_targets cox1_controls \<and>
           drug_like_only ?c' = drug_like_only cox1_controls"
    by simp
  from slider_bounds_of_narrowed_table[OF demo_getitem demo_types demo_lengths run]
  have "\<forall>c'. selected_targets c' = selected_targets cox1_controls \<and>
             drug_like_only c' = drug_like_only cox1_controls
          \<longrightarrow> (\<exists>pn'. filter_compounds demo_compounds c' = Some pn' \<and> mw_bounds pn' = mw_bounds pn \<and>
                 logp_bounds pn' = logp_bounds pn \<and> pic50_bounds pn' = pic50_bounds pn)"
    by (elim exE conjE)
  from this[THEN spec, of ?c', THEN mp, OF s] obtain pn' where
    run': "filter_compounds demo_compounds ?c' = Some pn'" and b': "mw_bounds pn' = mw_bounds pn"
    by (elim exE conjE) (rule that, assumption+)
  have r': "mw_range pn' = (Fin 150, Fin 200)"
    using run' unfolding demo_run_cox1[OF c'] by auto
  show ?thesis
    by (intro exI[of _ pn] exI[of _ pn'] conjI run b run' r' b'[unfolded b(1)])
qed

section \<open>Idempotence and monotonicity of the filter\<close>

lemma demo_rows_default:
  "map (passes default_controls (Fin 100, Fin 400) (Fin 1, Fin 4) (Some (Fin 6, Fin 8))
          [S ''COX1'', S ''COX1'', S ''COX1'', S ''EGFR'', S ''EGFR'']
          [True, True, True, True, True]
          [Fin 100, Fin 200, Fin 250, Fin 300, Fin 400]
          [Fin 1, Fin 2, Fin (5 / 2), Fin 3, Fin 4]
          [NaN, NaN, NaN, Fin 6, Fin 8]) [0..<nrows demo_compounds]
   = [False, False, False, True, True]"
  by (simp add: demo_nrows upt_5 passes_def pic50_passes_def narrowed_def in_range_def
        default_controls_def)

lemma demo_rows_cox1:
  "map (passes cox1_controls (Fin 100, Fin 250) (Fin 1, Fin (5 / 2)) None
          [S ''COX1'', S ''COX1'', S ''COX1'', S ''EGFR'', S ''EGFR'']
          [True, True, True, True, True]
          [Fin 100, Fin 200, Fin 250, Fin 300, Fin 400]
          [Fin 1, Fin 2, Fin (5 / 2), Fin 3, Fin 4]
          [NaN, NaN, NaN, Fin 6, Fin 8]) [0..<nrows demo_compounds]
   = [True, True, True, False, False]"
  by (simp add: demo_nrows upt_5 passes_def pic50_passes_def narrowed_def in_range_def
        cox1_controls_def default_controls_def)

text \<open>
  Claim C7 as stated fails for the allow-list. No slider is touched. With only COX1 selected
  no compound has a pIC50, there is no pIC50 filter and the three COX1 compounds are
  displayed; adding EGFR brings in two compounds with a pIC50, the pIC50 filter appears and
  removes the three COX1 compounds, and two compounds are left.
\<close>

theorem filter_target_monotone_counterexample:
  "set (selected_targets cox1_controls) \<subseteq> set (selected_targets default_controls) \<and>
   default_controls = cox1_controls\<lparr>selected_targets := [S ''COX1'', S ''EGFR'']\<rparr> \<and>
   map_option (\<lambda>pn. nrows (filtered_df pn)) (filter_compounds demo_compounds cox1_controls)
     = Some 3 \<and>
   map_option (\<lambda>pn. nrows (filtered_df pn)) (filter_compounds demo_compounds default_controls)
     = Some 2"
proof -
  have a: "set (selected_targets cox1_controls) \<subseteq> set (selected_targets default_controls)"
          "default_controls = cox1_controls\<lparr>selected_targets := [S ''COX1'', S ''EGFR'']\<rparr>"
    by (simp_all add: cox1_controls_def default_controls_def)
  have c: "selected_targets cox1_controls = [S ''COX1'']" "\<not> drug_like_only cox1_controls"
          "logp_choice cox1_controls = None"
          "mw_choice cox1_controls = None \<or> mw_choice cox1_controls = Some (Fin 150, Fin 200)"
          "mw_choice cox1_controls = None"
    by (simp_all add: cox1_controls_def default_controls_def)
  have b: "map_option (\<lambda>pn. nrows (filtered_df pn)) (filter_compounds demo_compounds cox1_controls)
     = Some 3"
    by (simp add: demo_run_cox1[OF c(1,2,3,4)] c(5) demo_rows_cox1 nrows_boolean_index
          count_true_def)
  have d: "map_option (\<lambda>pn. nrows (filtered_df pn)) (filter_compounds demo_compounds default_controls)
     = Some 2"
    by (simp add: demo_run_default demo_rows_default nrows_boolean_index count_true_def)
  from a b d show ?thesis by (intro conjI)
qed

lemma select_all_True: "length xs \<le> k \<Longrightarrow> select (replicate k True) xs = xs"
proof (induction xs arbitrary: k)
  case Nil then show ?case by (cases k) simp_all
next
  case (Cons x xs) then show ?case by (cases k) simp_all
qed

lemma count_true_replicate: "count_true (replicate k True) = k"
  by (simp add: count_true_def)

lemma boolean_index_all_True:
  assumes "wf_table df"
  shows "boolean_index df (replicate (nrows df) True) = df"
proof -
  have "map (\<lambda>(c, s). (c, select (replicate (nrows df) True) s)) (data df) = data df"
    using assms unfolding wf_table_def list_all_iff
    by (intro map_idI) (auto simp: select_all_True)
  then show ?thesis by (simp add: boolean_index_def count_true_replicate)
qed

lemma wf_boolean_index:
  assumes "wf_table df" "length m = nrows df"
  shows "wf_table (boolean_index df m)"
  using assms unfolding wf_table_def list_all_iff
  by (auto simp: boolean_index_def length_select)

lemma map_upt_all_True: "(\<forall>j<k. P j) \<Longrightarrow> map P [0..<k] = replicate k True"
  by (auto simp: list_eq_iff_nth_eq)

lemma in_range_widens: "widens r r' \<Longrightarrow> in_range r x \<Longrightarrow> in_range r' x"
  unfolding widens_def in_range_def by (auto intro: fl_le_trans)

lemma length_filter_mono:
  "(\<And>x. x \<in> set xs \<Longrightarrow> P x \<Longrightarrow> Q x) \<Longrightarrow> length (filter P xs) \<le> length (filter Q xs)"
proof (induction xs)
  case Nil then show ?case by simp
next
  case (Cons x xs)
  then have "length (filter P xs) \<le> length (filter Q xs)" by simp
  with Cons.prems[of x] show ?case by auto
qed

lemma select_upt_nth:
  assumes "length xs = n"
  shows "select (map P [0..<n]) xs = map (nth xs) (filter P [0..<n])"
proof -
  have "filter (nth (map P [0..<n])) [0..<n] = filter P [0..<n]"
    by (rule filter_cong) simp_all
  then show ?thesis using select_nth[of "map P [0..<n]" xs] assms by simp
qed

text \<open>The minimum and the maximum of a series are among its values.\<close>

lemma foldl_fl_min_mem: "foldl fl_min y ys \<in> set (y # ys)"
proof (induction ys arbitrary: y)
  case Nil then show ?case by simp
next
  case (Cons z zs)
  from Cons.IH[of "fl_min y z"] show ?case by (auto simp: fl_min_def split: if_splits)
qed

lemma foldl_fl_max_mem: "foldl fl_max y ys \<in> set (y # ys)"
proof (induction ys arbitrary: y)
  case Nil then show ?case by simp
next
  case (Cons z zs)
  from Cons.IH[of "fl_max y z"] show ?case by (auto simp: fl_max_def split: if_splits)
qed

lemma series_bounds_mem:
  assumes "nums s = Some xs" "series_bounds s = Some b" "fst b \<noteq> NaN"
  shows "fst b \<in> set xs \<and> fst b \<noteq> NaN \<and> snd b \<in> set xs \<and> snd b \<noteq> NaN"
proof (cases "present xs")
  case Nil
  then have "b = (NaN, NaN)"
    using assms(1,2) by (simp add: series_bounds_def series_min_def series_max_def)
  with assms(3) show ?thesis by simp
next
  case (Cons y ys)
  then have b: "b = (foldl fl_min y ys, foldl fl_max y ys)"
    using assms(1,2) by (simp add: series_bounds_def series_min_def series_max_def)
  have "fst b \<in> set (present xs)" "snd b \<in> set (present xs)"
    unfolding Cons b using foldl_fl_min_mem[of y ys] foldl_fl_max_mem[of y ys] by simp_all
  then show ?thesis by (simp add: present_def)
qed

lemma is_fin_defined: "is_fin x \<Longrightarrow> x \<noteq> NaN"
  by (cases x) simp_all

text \<open>The bounds over more values reach at least as far.\<close>

lemma series_bounds_widen:
  assumes "nums s = Some xs" "series_bounds s = Some b"
          "nums s' = Some xs'" "series_bounds s' = Some b'"
          "set xs \<subseteq> set xs'" "fst b \<noteq> NaN"
  shows "fl_le (fst b') (fst b) \<and> fl_le (snd b) (snd b')"
proof -
  from series_bounds_mem[OF assms(1,2,6)]
  have m: "fst b \<in> set xs'" "fst b \<noteq> NaN" "snd b \<in> set xs'" "snd b \<noteq> NaN"
    using assms(5) by auto
  have "in_range b' (fst b)" "in_range b' (snd b)"
    by (rule series_bounds_in_range[OF assms(3,4)], rule m(1), rule m(2))
       (rule series_bounds_in_range[OF assms(3,4)], rule m(3), rule m(4))
  then show ?thesis by (simp add: in_range_def)
qed

text \<open>
  A slider on a part of the values, with the same setting or untouched: the values that were
  in the range returned before are in the range returned now.
\<close>

lemma range_again:
  assumes s: "nums s = Some xs" "series_bounds s = Some b" "slider b ch = Some r"
      and s': "nums s' = Some xs'" "series_bounds s' = Some b'" "slider b' ch' = Some r'"
      and same: "ch' = ch \<or> ch' = None"
      and sub: "set xs' \<subseteq> set xs"
      and x: "x \<in> set xs'" "in_range r x"
  shows "in_range r' x"
proof -
  note c = slider_cases[OF s(3)] and c' = slider_cases[OF s'(3)]
  have xd: "x \<noteq> NaN" using x(2) by (rule in_range_defined)
  have inb': "in_range b' x" by (rule series_bounds_in_range[OF s'(1,2) x(1) xd])
  have fb': "fst b' \<noteq> NaN" using c' by (simp add: is_fin_defined)
  have w: "fl_le (fst b) (fst b') \<and> fl_le (snd b') (snd b)"
    by (rule series_bounds_widen[OF s'(1,2) s(1,2) sub fb'])
  show ?thesis
  proof (cases "r' = b'")
    case True
    then show ?thesis using inb' by simp
  next
    case False
    with c' have ch': "ch' = Some r'" and
      w': "fl_le (fst b') (fst r')" "fl_le (fst r') (snd r')" "fl_le (snd r') (snd b')"
      by auto
    from ch' same have ch: "ch = Some r'" by auto
    have "fl_le (fst b) (fst r')" "fl_le (snd r') (snd b)"
      using w w' by (auto intro: fl_le_trans)
    with w'(2) ch have "slider b ch = Some r'"
      using c by (simp add: slider_def)
    with s(3) have "r = r'" by simp
    with x(2) show ?thesis by simp
  qed
qed

lemma filter_compounds_idempotent:
  assumes g: "getitem df ''target'' = Some t" "getitem df ''is_drug_like'' = Some d"
             "getitem df ''mw'' = Some mw" "getitem df ''logp'' = Some lp"
             "getitem df ''pIC50'' = Some p"
      and ty: "bools d = Some ds" "nums mw = Some ms" "nums lp = Some ls" "nums p = Some ps"
      and len: "length t = nrows df" "length ds = nrows df" "length ms = nrows df"
               "length ls = nrows df" "length ps = nrows df"
      and wf: "wf_table df"
      and run: "filter_compounds df c = Some pn"
      and c2: "selected_targets c2 = selected_targets c" "drug_like_only c2 = drug_like_only c"
              "mw_choice c2 = mw_choice c \<or> mw_choice c2 = None"
              "logp_choice c2 = logp_choice c \<or> logp_choice c2 = None"
              "pic50_choice c2 = pic50_choice c \<or> pic50_choice c2 = None"
      and again: "filter_compounds (filtered_df pn) c2 = Some pn'"
  shows "filtered_df pn' = filtered_df pn"
proof -
  let ?n = "nrows df"
  let ?N = "map (narrowed c t ds) [0..<?n]"
  let ?P = "passes c (mw_range pn) (logp_range pn) (pic50_range pn) t ds ms ls ps"
  let ?K = "map ?P [0..<?n]"
  let ?kept = "filter ?P [0..<?n]"
  let ?out = "boolean_index df ?K"
  let ?t = "map (nth t) ?kept" and ?ds = "map (nth ds) ?kept" and ?ms = "map (nth ms) ?kept"
  let ?ls = "map (nth ls) ?kept" and ?ps = "map (nth ps) ?kept"
  let ?P' = "passes c2 (mw_range pn') (logp_range pn') (pic50_range pn') ?t ?ds ?ms ?ls ?ps"
  note D = filter_compounds_SomeD[OF g ty len run]
  have out: "filtered_df pn = ?out" by (rule D(7))
  have n': "nrows ?out = length ?kept"
    by (simp add: nrows_boolean_index count_true_map_upt)
  have ld: "length d = ?n" "length mw = ?n" "length lp = ?n" "length p = ?n"
    using bools_length[OF ty(1)] nums_length[OF ty(2)] nums_length[OF ty(3)]
      nums_length[OF ty(4)] len by simp_all
  have g': "getitem ?out ''target'' = Some ?t"
           "getitem ?out ''is_drug_like'' = Some (select ?K d)"
           "getitem ?out ''mw'' = Some (select ?K mw)"
           "getitem ?out ''logp'' = Some (select ?K lp)"
           "getitem ?out ''pIC50'' = Some (select ?K p)"
    by (simp_all add: getitem_boolean_index g select_upt_nth[OF len(1)])
  have ty': "bools (select ?K d) = Some ?ds" "nums (select ?K mw) = Some ?ms"
            "nums (select ?K lp) = Some ?ls" "nums (select ?K p) = Some ?ps"
    using bools_select[OF ty(1), of ?K] nums_select[OF ty(2), of ?K]
      nums_select[OF ty(3), of ?K] nums_select[OF ty(4), of ?K]
    by (simp_all add: select_upt_nth[OF len(2)] select_upt_nth[OF len(3)]
          select_upt_nth[OF len(4)] select_upt_nth[OF len(5)])
  have len': "length ?t = nrows ?out" "length ?ds = nrows ?out" "length ?ms = nrows ?out"
             "length ?ls = nrows ?out" "length ?ps = nrows ?out"
    by (simp_all add: n')
  note D' = filter_compounds_SomeD[OF g' ty' len' again[unfolded out]]
  have kept: "?kept ! j < ?n \<and> ?P (?kept ! j)" if "j < length ?kept" for j
    using nth_mem[OF that] by simp
  have nar: "narrowed c2 ?t ?ds j = narrowed c t ds (?kept ! j)" if "j < length ?kept" for j
    using that by (simp add: narrowed_def c2(1,2))
  have keptP: "narrowed c t ds i" "pic50_passes (pic50_range pn) (ps ! i)"
              "in_range (mw_range pn) (ms ! i)" "in_range (logp_range pn) (ls ! i)"
    if "?P i" for i
    using that[THEN passes_iff[THEN iffD1]] by blast+
  have allN: "map (narrowed c2 ?t ?ds) [0..<nrows ?out] = replicate (nrows ?out) True"
  proof (rule map_upt_all_True, intro allI impI)
    fix j assume "j < nrows ?out"
    then have j: "j < length ?kept" by (simp add: n')
    show "narrowed c2 ?t ?ds j"
      using keptP(1)[OF kept[OF j, THEN conjunct2]] nar[OF j] by simp
  qed
  have lk: "length (select ?K mw) \<le> nrows ?out" "length (select ?K lp) \<le> nrows ?out"
           "length (select ?K p) \<le> nrows ?out"
    using nums_length[OF ty'(2)] nums_length[OF ty'(3)] nums_length[OF ty'(4)]
    by (simp_all add: n')
  have bm': "series_bounds (select ?K mw) = Some (mw_bounds pn')"
    using D'(1) by (simp only: allN select_all_True[OF lk(1)])
  have bl': "series_bounds (select ?K lp) = Some (logp_bounds pn')"
    using D'(3) by (simp only: allN select_all_True[OF lk(2)])
  have sub: "set (map (nth xs) ?kept) \<subseteq> set (select ?N xs)" if "length xs = ?n" for xs :: "fl list"
  proof -
    have "i \<in> set (filter (narrowed c t ds) [0..<?n])" if "i \<in> set ?kept" for i
      using that keptP(1)[of i] by simp
    then show ?thesis unfolding select_upt_nth[OF \<open>length xs = ?n\<close>] by auto
  qed
  have act: "pic50_active c t ds ps" if "pic50_active c2 ?t ?ds ?ps"
  proof -
    from that obtain j where j: "j < length ?kept" "narrowed c2 ?t ?ds j" "?ps ! j \<noteq> NaN"
      by (auto simp: pic50_active_def)
    then have "?kept ! j < length ps" "narrowed c t ds (?kept ! j)" "ps ! (?kept ! j) \<noteq> NaN"
      using kept[OF j(1)] nar[OF j(1)] len(5) by simp_all
    then show ?thesis unfolding pic50_active_def by auto
  qed
  have all: "?P' j" if "j < nrows ?out" for j
  proof -
    have j: "j < length ?kept" using that by (simp add: n')
    let ?i = "?kept ! j"
    note P = keptP[OF kept[OF j, THEN conjunct2]]
    have e: "?ms ! j = ms ! ?i" "?ls ! j = ls ! ?i" "?ps ! j = ps ! ?i"
      using j by simp_all
    have mem: "ms ! ?i \<in> set ?ms" "ls ! ?i \<in> set ?ls" "ps ! ?i \<in> set ?ps"
      using j nth_mem[OF j] by auto
    have a: "narrowed c2 ?t ?ds j" using P(1) nar[OF j] by simp
    have m: "in_range (mw_range pn') (?ms ! j)"
      unfolding e
      by (rule range_again[OF nums_select[OF ty(2)] D(1) D(2) ty'(2) bm' D'(2) c2(3)
            sub[OF len(3)] mem(1) P(3)])
    have l: "in_range (logp_range pn') (?ls ! j)"
      unfolding e
      by (rule range_again[OF nums_select[OF ty(3)] D(3) D(4) ty'(3) bl' D'(4) c2(4)
            sub[OF len(4)] mem(2) P(4)])
    have b: "pic50_passes (pic50_range pn') (?ps ! j)"
    proof (cases "pic50_active c2 ?t ?ds ?ps")
      case False
      from D'(6)[OF False] show ?thesis by (simp add: pic50_passes_def)
    next
      case True
      from D'(5)[OF True] obtain pb' r' where
        q': "pic50_range pn' = Some r'"
            "series_bounds (select (map (narrowed c2 ?t ?ds) [0..<nrows ?out]) (select ?K p)) = Some pb'"
            "slider pb' (pic50_choice c2) = Some r'"
        by (elim exE conjE) (rule that, assumption+)
      have bp': "series_bounds (select ?K p) = Some pb'"
        using q'(2) by (simp only: allN select_all_True[OF lk(3)])
      from D(5)[OF act[OF True]] obtain pb r where
        q: "pic50_range pn = Some r" "series_bounds (select ?N p) = Some pb"
           "slider pb (pic50_choice c) = Some r"
        by (elim exE conjE) (rule that, assumption+)
      have "in_range r (ps ! ?i)" using P(2) by (simp add: q(1) pic50_passes_def)
      then have "in_range r' (ps ! ?i)"
        by (rule range_again[OF nums_select[OF ty(4)] q(2) q(3) ty'(4) bp' q'(3) c2(5)
              sub[OF len(5)] mem(3)])
      then show ?thesis unfolding e by (simp add: q'(1) pic50_passes_def)
    qed
    show ?thesis
      by (rule passes_iff[THEN iffD2]) (intro conjI a b m l)
  qed
  have "map ?P' [0..<nrows ?out] = replicate (nrows ?out) True"
    using all by (intro map_upt_all_True) simp
  moreover have "wf_table ?out"
    by (rule wf_boolean_index[OF wf]) simp
  ultimately have "filtered_df pn' = ?out"
    by (simp only: D'(7) boolean_index_all_True)
  then show ?thesis by (simp add: out)
qed

text \<open>Monotonicity, row by row.\<close>

lemma passes_mono:
  assumes "set (selected_targets c) \<subseteq> set (selected_targets c')"
          "drug_like_only c' = drug_like_only c"
          "widens mr mr'" "widens lr lr'"
          "\<forall>r r'. pr = Some r \<and> pr' = Some r' \<longrightarrow> widens r r'"
          "pr \<noteq> None \<or> pr' = None"
          "passes c mr lr pr t ds ms ls ps i"
  shows "passes c' mr' lr' pr' t ds ms ls ps i"
proof -
  have P: "narrowed c t ds i" "pic50_passes pr (ps ! i)"
          "in_range mr (ms ! i)" "in_range lr (ls ! i)"
    using assms(7)[THEN passes_iff[THEN iffD1]] by blast+
  have a: "narrowed c' t ds i"
    using P(1) assms(1,2) unfolding narrowed_def by blast
  have b: "pic50_passes pr' (ps ! i)"
  proof (cases pr')
    case None
    then show ?thesis by (simp add: pic50_passes_def)
  next
    case (Some r')
    with assms(6) obtain r where r: "pr = Some r" by (cases pr) simp_all
    with assms(5) Some have "widens r r'" by blast
    moreover have "in_range r (ps ! i)" using P(2) by (simp add: r pic50_passes_def)
    ultimately show ?thesis using Some by (simp add: pic50_passes_def in_range_widens)
  qed
  have m: "in_range mr' (ms ! i)" "in_range lr' (ls ! i)"
    using P(3,4) in_range_widens[OF assms(3)] in_range_widens[OF assms(4)] by blast+
  show ?thesis by (rule passes_iff[THEN iffD2]) (intro conjI a b m)
qed

lemma filter_compounds_mono:
  assumes g: "getitem df ''target'' = Some t" "getitem df ''is_drug_like'' = Some d"
             "getitem df ''mw'' = Some mw" "getitem df ''logp'' = Some lp"
             "getitem df ''pIC50'' = Some p"
      and ty: "bools d = Some ds" "nums mw = Some ms" "nums lp = Some ls" "nums p = Some ps"
      and len: "length t = nrows df" "length ds = nrows df" "length ms = nrows df"
               "length ls = nrows df" "length ps = nrows df"
      and run: "filter_compounds df c = Some pn"
      and run': "filter_compounds df c' = Some qn"
      and h: "set (selected_targets c) \<subseteq> set (selected_targets c')"
             "drug_like_only c' = drug_like_only c"
             "widens (mw_range pn) (mw_range qn)" "widens (logp_range pn) (logp_range qn)"
             "\<forall>r r'. pic50_range pn = Some r \<and> pic50_range qn = Some r' \<longrightarrow> widens r r'"
             "pic50_active c t ds ps \<or> \<not> pic50_active c' t ds ps"
  shows "nrows (filtered_df pn) \<le> nrows (filtered_df qn)"
proof -
  note D = filter_compounds_SomeD[OF g ty len run]
  note D' = filter_compounds_SomeD[OF g ty len run']
  have k: "pic50_range pn \<noteq> None \<or> pic50_range qn = None"
  proof (cases "pic50_active c t ds ps")
    case True
    from D(5)[OF True] show ?thesis by auto
  next
    case False
    with h(6) have "\<not> pic50_active c' t ds ps" by simp
    from D'(6)[OF this] show ?thesis by simp
  qed
  have "length (filter (passes c (mw_range pn) (logp_range pn) (pic50_range pn) t ds ms ls ps)
                  [0..<nrows df])
        \<le> length (filter (passes c' (mw_range qn) (logp_range qn) (pic50_range qn) t ds ms ls ps)
                  [0..<nrows df])"
    by (rule length_filter_mono) (rule passes_mono[OF h(1,2,3,4,5) k])
  then show ?thesis
    by (simp add: D(7) D'(7) nrows_boolean_index count_true_map_upt)
qed

text \<open>With no slider touched, selecting more targets widens every range.\<close>

lemma untouched_widens:
  assumes "nums s = Some xs" "length xs = n"
      and "series_bounds (select (map f [0..<n]) s) = Some b" "slider b None = Some r"
      and "series_bounds (select (map f' [0..<n]) s) = Some b'" "slider b' None = Some r'"
      and "\<And>i. f i \<Longrightarrow> f' i"
  shows "widens r r'"
proof -
  have r: "r = b" "r' = b'" using assms(4,6) by (auto simp: slider_def split: if_splits)
  have fb: "fst b \<noteq> NaN" using slider_cases[OF assms(4)] by (simp add: is_fin_defined)
  have "set (select (map f [0..<n]) xs) \<subseteq> set (select (map f' [0..<n]) xs)"
    unfolding select_upt_nth[OF assms(2)] using assms(7) by auto
  from series_bounds_widen[OF nums_select[OF assms(1)] assms(3) nums_select[OF assms(1)] assms(5)
      this fb]
  show ?thesis by (simp add: widens_def r)
qed

lemma filter_compounds_mono_untouched:
  assumes g: "getitem df ''target'' = Some t" "getitem df ''is_drug_like'' = Some d"
             "getitem df ''mw'' = Some mw" "getitem df ''logp'' = Some lp"
             "getitem df ''pIC50'' = Some p"
      and ty: "bools d = Some ds" "nums mw = Some ms" "nums lp = Some ls" "nums p = Some ps"
      and len: "length t = nrows df" "length ds = nrows df" "length ms = nrows df"
               "length ls = nrows df" "length ps = nrows df"
      and run: "filter_compounds df c = Some pn"
      and run': "filter_compounds df c' = Some qn"
      and h: "set (selected_targets c) \<subseteq> set (selected_targets c')"
             "drug_like_only c' = drug_like_only c"
             "mw_choice c = None" "mw_choice c' = None"
             "logp_choice c = None" "logp_choice c' = None"
             "pic50_choice c = None" "pic50_choice c' = None"
             "pic50_active c t ds ps \<or> \<not> pic50_active c' t ds ps"
  shows "nrows (filtered_df pn) \<le> nrows (filtered_df qn)"
proof -
  note D = filter_compounds_SomeD[OF g ty len run]
  note D' = filter_compounds_SomeD[OF g ty len run']
  have n: "narrowed c' t ds i" if "narrowed c t ds i" for i
    using that h(1,2) unfolding narrowed_def by blast
  have m: "widens (mw_range pn) (mw_range qn)"
    by (rule untouched_widens[OF ty(2) len(3) D(1) D(2)[unfolded h(3)] D'(1) D'(2)[unfolded h(4)] n])
  have l: "widens (logp_range pn) (logp_range qn)"
    by (rule untouched_widens[OF ty(3) len(4) D(3) D(4)[unfolded h(5)] D'(3) D'(4)[unfolded h(6)] n])
  have q: "\<forall>r r'. pic50_range pn = Some r \<and> pic50_range qn = Some r' \<longrightarrow> widens r r'"
  proof (intro allI impI, elim conjE)
    fix r r' assume r: "pic50_range pn = Some r" "pic50_range qn = Some r'"
    have a: "pic50_active c t ds ps" using D(6) r(1) by (cases "pic50_active c t ds ps") simp_all
    have a': "pic50_active c' t ds ps" using D'(6) r(2) by (cases "pic50_active c' t ds ps") simp_all
    from D(5)[OF a] r(1) obtain pb where
      b: "series_bounds (select (map (narrowed c t ds) [0..<nrows df]) p) = Some pb"
         "slider pb (pic50_choice c) = Some r"
      by auto
    from D'(5)[OF a'] r(2) obtain pb' where
      b': "series_bounds (select (map (narrowed c' t ds) [0..<nrows df]) p) = Some pb'"
          "slider pb' (pic50_choice c') = Some r'"
      by auto
    show "widens r r'"
      by (rule untouched_widens[OF ty(4) len(5) b(1) b(2)[unfolded h(7)] b'(1) b'(2)[unfolded h(8)] n])
  qed
  show ?thesis
    by (rule filter_compounds_mono[OF g ty len run run' h(1,2) m l q h(9)])
qed

text \<open>
  Claim C7, amended. On a table with the five columns the filter reads, let a run display a
  table. If filtering the displayed table again, with the same controls or with sliders back at
  their default, displays a table, it is the same table. The number of rows displayed does not decrease in another run in which
  targets have been added to the selection and the ranges the sliders return are wider, so
  long as the change does not make the pIC50 filter appear (it was there before, or it is not
  there after); with no slider touched in either run the ranges are wider of themselves. A
  change of what is set on the sliders never makes the pIC50 filter appear, nor a slider raise.
\<close>

theorem filter_idempotent_monotone:
  assumes g: "getitem df ''target'' = Some t" "getitem df ''is_drug_like'' = Some d"
             "getitem df ''mw'' = Some mw" "getitem df ''logp'' = Some lp"
             "getitem df ''pIC50'' = Some p"
      and ty: "bools d = Some ds" "nums mw = Some ms" "nums lp = Some ls" "nums p = Some ps"
      and len: "length t = nrows df" "length ds = nrows df" "length ms = nrows df"
               "length ls = nrows df" "length ps = nrows df"
      and wf: "wf_table df"
      and run: "filter_compounds df c = Some pn"
  shows "(\<forall>c2 pn'. selected_targets c2 = selected_targets c \<and>
                 drug_like_only c2 = drug_like_only c \<and>
                 (mw_choice c2 = mw_choice c \<or> mw_choice c2 = None) \<and>
                 (logp_choice c2 = logp_choice c \<or> logp_choice c2 = None) \<and>
                 (pic50_choice c2 = pic50_choice c \<or> pic50_choice c2 = None) \<and>
                 filter_compounds (filtered_df pn) c2 = Some pn' \<longrightarrow>
            filtered_df pn' = filtered_df pn) \<and>
         (\<forall>c' qn. filter_compounds df c' = Some qn \<and>
                 set (selected_targets c) \<subseteq> set (selected_targets c') \<and>
                 drug_like_only c' = drug_like_only c \<and>
                 widens (mw_range pn) (mw_range qn) \<and> widens (logp_range pn) (logp_range qn) \<and>
                 (\<forall>r r'. pic50_range pn = Some r \<and> pic50_range qn = Some r' \<longrightarrow> widens r r') \<and>
                 (pic50_active c t ds ps \<or> \<not> pic50_active c' t ds ps) \<longrightarrow>
                 nrows (filtered_df pn) \<le> nrows (filtered_df qn)) \<and>
         (\<forall>c' qn. filter_compounds df c' = Some qn \<and>
                 set (selected_targets c) \<subseteq> set (selected_targets c') \<and>
                 drug_like_only c' = drug_like_only c \<and>
                 mw_choice c = None \<and> mw_choice c' = None \<and>
                 logp_choice c = None \<and> logp_choice c' = None \<and>
                 pic50_choice c = None \<and> pic50_choice c' = None \<and>
                 (pic50_active c t ds ps \<or> \<not> pic50_active c' t ds ps) \<longrightarrow>
                 nrows (filtered_df pn) \<le> nrows (filtered_df qn)) \<and>
         (\<forall>c'. selected_targets c' = selected_targets c \<and>
               drug_like_only c' = drug_like_only c \<longrightarrow>
               pic50_active c' t ds ps = pic50_active c t ds ps \<and>
               (\<exists>qn. filter_compounds df c' = Some qn))"
proof -
  have idem: "\<forall>c2 pn'. selected_targets c2 = selected_targets c \<and>
                 drug_like_only c2 = drug_like_only c \<and>
                 (mw_choice c2 = mw_choice c \<or> mw_choice c2 = None) \<and>
                 (logp_choice c2 = logp_choice c \<or> logp_choice c2 = None) \<and>
                 (pic50_choice c2 = pic50_choice c \<or> pic50_choice c2 = None) \<and>
                 filter_compounds (filtered_df pn) c2 = Some pn' \<longrightarrow>
            filtered_df pn' = filtered_df pn"
  proof (intro allI impI, elim conjE)
    fix c2 :: controls and pn' :: panel
    assume "selected_targets c2 = selected_targets c" "drug_like_only c2 = drug_like_only c"
           "mw_choice c2 = mw_choice c \<or> mw_choice c2 = None"
           "logp_choice c2 = logp_choice c \<or> logp_choice c2 = None"
           "pic50_choice c2 = pic50_choice c \<or> pic50_choice c2 = None"
           "filter_compounds (filtered_df pn) c2 = Some pn'"
    then show "filtered_df pn' = filtered_df pn"
      by (rule filter_compounds_idempotent[OF g ty len wf run])
  qed
  have mono: "\<forall>c' qn. filter_compounds df c' = Some qn \<and>
                 set (selected_targets c) \<subseteq> set (selected_targets c') \<and>
                 drug_like_only c' = drug_like_only c \<and>
                 widens (mw_range pn) (mw_range qn) \<and> widens (logp_range pn) (logp_range qn) \<and>
                 (\<forall>r r'. pic50_range pn = Some r \<and> pic50_range qn = Some r' \<longrightarrow> widens r r') \<and>
                 (pic50_active c t ds ps \<or> \<not> pic50_active c' t ds ps) \<longrightarrow>
                 nrows (filtered_df pn) \<le> nrows (filtered_df qn)"
  proof (intro allI impI, elim conjE)
    fix c' :: controls and qn :: panel
    assume "filter_compounds df c' = Some qn"
           "set (selected_targets c) \<subseteq> set (selected_targets c')"
           "drug_like_only c' = drug_like_only c"
           "widens (mw_range pn) (mw_range qn)" "widens (logp_range pn) (logp_range qn)"
           "\<forall>r r'. pic50_range pn = Some r \<and> pic50_range qn = Some r' \<longrightarrow> widens r r'"
           "pic50_active c t ds ps \<or> \<not> pic50_active c' t ds ps"
    then show "nrows (filtered_df pn) \<le> nrows (filtered_df qn)"
      by (rule filter_compounds_mono[OF g ty len run])
  qed
  have untouched: "\<forall>c' qn. filter_compounds df c' = Some qn \<and>
                 set (selected_targets c) \<subseteq> set (selected_targets c') \<and>
                 drug_like_only c' = drug_like_only c \<and>
                 mw_choice c = None \<and> mw_choice c' = None \<and>
                 logp_choice c = None \<and> logp_choice c' = None \<and>
                 pic50_choice c = None \<and> pic50_choice c' = None \<and>
                 (pic50_active c t ds ps \<or> \<not> pic50_active c' t ds ps) \<longrightarrow>
                 nrows (filtered_df pn) \<le> nrows (filtered_df qn)"
  proof (intro allI impI, elim conjE)
    fix c' :: controls and qn :: panel
    assume "filter_compounds df c' = Some qn"
           "set (selected_targets c) \<subseteq> set (selected_targets c')"
           "drug_like_only c' = drug_like_only c"
           "mw_choice c = None" "mw_choice c' = None"
           "logp_choice c = None" "logp_choice c' = None"
           "pic50_choice c = None" "pic50_choice c' = None"
           "pic50_active c t ds ps \<or> \<not> pic50_active c' t ds ps"
    then show "nrows (filtered_df pn) \<le> nrows (filtered_df qn)"
      by (rule filter_compounds_mono_untouched[OF g ty len run])
  qed
  have same: "\<forall>c'. selected_targets c' = selected_targets c \<and>
               drug_like_only c' = drug_like_only c \<longrightarrow>
               pic50_active c' t ds ps = pic50_active c t ds ps \<and>
               (\<exists>qn. filter_compounds df c' = Some qn)"
  proof (intro allI impI, elim conjE)
    fix c' :: controls
    assume c': "selected_targets c' = selected_targets c" "drug_like_only c' = drug_like_only c"
    from filter_compounds_same_bounds[OF g ty len run c']
    have "\<exists>qn. filter_compounds df c' = Some qn" by blast
    then show "pic50_active c' t ds ps = pic50_active c t ds ps \<and>
               (\<exists>qn. filter_compounds df c' = Some qn)"
      by (simp add: pic50_active_cong[OF c'])
  qed
  show ?thesis
    by (intro conjI idem mono untouched same)
qed

lemma demo_run_egfr:
  "filter_compounds demo_compounds egfr_controls =
     Some \<lparr>mw_bounds = (Fin 300, Fin 400), mw_range = (Fin 300, Fin 400),
           logp_bounds = (Fin 3, Fin 4), logp_range = (Fin 3, Fin 4),
           pic50_bounds = Some (Fin 6, Fin 8), pic50_range = Some (Fin 6, Fin 8),
           filtered_df = boolean_index demo_compounds
             (map (passes egfr_controls (Fin 300, Fin 400) (Fin 3, Fin 4) (Some (Fin 6, Fin 8))
                     [S ''COX1'', S ''COX1'', S ''COX1'', S ''EGFR'', S ''EGFR'']
                     [True, True, True, True, True]
                     [Fin 100, Fin 200, Fin 250, Fin 300, Fin 400]
                     [Fin 1, Fin 2, Fin (5 / 2), Fin 3, Fin 4]
                     [NaN, NaN, NaN, Fin 6, Fin 8]) [0..<nrows demo_compounds])\<rparr>"
proof -
  have c: "selected_targets egfr_controls = [S ''EGFR'']"
          "\<not> drug_like_only egfr_controls"
          "mw_choice egfr_controls = None" "logp_choice egfr_controls = None"
          "pic50_choice egfr_controls = None"
    by (simp_all add: egfr_controls_def default_controls_def)
  have bd: "series_bounds (select (map (narrowed egfr_controls
               [S ''COX1'', S ''COX1'', S ''COX1'', S ''EGFR'', S ''EGFR'']
               [True, True, True, True, True]) [0..<nrows demo_compounds])
               (map F [Fin 100, Fin 200, Fin 250, Fin 300, Fin 400])) = Some (Fin 300, Fin 400)"
           "series_bounds (select (map (narrowed egfr_controls
               [S ''COX1'', S ''COX1'', S ''COX1'', S ''EGFR'', S ''EGFR'']
               [True, True, True, True, True]) [0..<nrows demo_compounds])
               (map F [Fin 1, Fin 2, Fin (5 / 2), Fin 3, Fin 4])) = Some (Fin 3, Fin 4)"
           "series_bounds (select (map (narrowed egfr_controls
               [S ''COX1'', S ''COX1'', S ''COX1'', S ''EGFR'', S ''EGFR'']
               [True, True, True, True, True]) [0..<nrows demo_compounds])
               (map F [NaN, NaN, NaN, Fin 6, Fin 8])) = Some (Fin 6, Fin 8)"
    by (simp_all only: demo_narrowed_egfr[OF c(1,2)] demo_bounds_egfr)
  have a: "pic50_active egfr_controls [S ''COX1'', S ''COX1'', S ''COX1'', S ''EGFR'', S ''EGFR'']
           [True, True, True, True, True] [NaN, NaN, NaN, Fin 6, Fin 8]"
    by (rule demo_active) (simp_all add: c)
  show ?thesis
    unfolding filter_compounds_eq[OF demo_getitem demo_types demo_lengths bd]
    using a by (simp add: c slider_def)
qed

text \<open>The two EGFR compounds, which the run with no slider touched displays.\<close>

lemma demo_displayed:
  "boolean_index demo_compounds [False, False, False, True, True] =
     \<lparr>nrows = 2, data = [
       (''chembl_id'', [S ''CHEMBL4'', S ''CHEMBL5'']),
       (''target'', [S ''EGFR'', S ''EGFR'']),
       (''ic50'', [F (Fin 1000), F (Fin 10)]),
       (''mw'', [F (Fin 300), F (Fin 400)]),
       (''logp'', [F (Fin 3), F (Fin 4)]),
       (''is_drug_like'', [B True, B True]),
       (''pIC50'', [F (Fin 6), F (Fin 8)])]\<rparr>"
  by (simp add: boolean_index_def demo_compounds_def count_true_def)

lemma demo_displayed_again:
  "\<exists>pn'. filter_compounds (boolean_index demo_compounds [False, False, False, True, True])
            default_controls = Some pn'"
  unfolding demo_displayed
  by (simp add: filter_compounds_def target_filter_def drug_like_filter_def pic50_filter_def
        range_filter_def between_def series_bounds_def series_min_def series_max_def
        series_ge_def series_le_def nums_def present_def isin_def and_mask_def
        boolean_index_def count_true_def getitem_def isna_def fl_min_def fl_max_def fl_ge_def
        slider_def default_controls_def)

text \<open>
  On the table of five compounds: the two compounds displayed with no slider touched are
  displayed again when they are filtered again; they are at least as many as with the pIC50
  slider set to 7 to 8, and at least as many as with only EGFR selected.
\<close>

theorem filter_idempotent_monotone_witness:
  "\<exists>pn pn' qn rn. filter_compounds demo_compounds default_controls = Some pn \<and>
     filter_compounds (filtered_df pn) default_controls = Some pn' \<and>
     filtered_df pn' = filtered_df pn \<and>
     filter_compounds demo_compounds potent_controls = Some qn \<and>
     nrows (filtered_df qn) \<le> nrows (filtered_df pn) \<and>
     filter_compounds demo_compounds egfr_controls = Some rn \<and>
     nrows (filtered_df rn) \<le> nrows (filtered_df pn)"
proof -
  let ?t = "[S ''COX1'', S ''COX1'', S ''COX1'', S ''EGFR'', S ''EGFR'']"
  let ?ds = "[True, True, True, True, True]"
  let ?ms = "[Fin 100, Fin 200, Fin 250, Fin 300, Fin 400]"
  let ?ls = "[Fin 1, Fin 2, Fin (5 / 2), Fin 3, Fin 4]"
  let ?ps = "[NaN, NaN, NaN, Fin 6, Fin 8]"
  have wf: "wf_table demo_compounds"
    by (simp add: wf_table_def demo_compounds_def)
  obtain pn where pn: "filter_compounds demo_compounds default_controls = Some pn"
    and pnr: "mw_range pn = (Fin 100, Fin 400)" "logp_range pn = (Fin 1, Fin 4)"
             "pic50_range pn = Some (Fin 6, Fin 8)"
    and pnd: "filtered_df pn = boolean_index demo_compounds [False, False, False, True, True]"
    using demo_run_default by (simp add: demo_rows_default)
  obtain qn where qn: "filter_compounds demo_compounds potent_controls = Some qn"
    and qnr: "mw_range qn = (Fin 100, Fin 400)" "logp_range qn = (Fin 1, Fin 4)"
             "pic50_range qn = Some (Fin 7, Fin 8)"
    using demo_run_potent by simp
  obtain rn where rn: "filter_compounds demo_compounds egfr_controls = Some rn"
    using demo_run_egfr by simp
  from demo_displayed_again obtain pn' where
    again: "filter_compounds (filtered_df pn) default_controls = Some pn'"
    unfolding pnd by blast
  have hi: "selected_targets default_controls = selected_targets default_controls \<and>
        drug_like_only default_controls = drug_like_only default_controls \<and>
        (mw_choice default_controls = mw_choice default_controls \<or>
         mw_choice default_controls = None) \<and>
        (logp_choice default_controls = logp_choice default_controls \<or>
         logp_choice default_controls = None) \<and>
        (pic50_choice default_controls = pic50_choice default_controls \<or>
         pic50_choice default_controls = None) \<and>
        filter_compounds (filtered_df pn) default_controls = Some pn'"
    using again by simp
  from filter_idempotent_monotone[OF demo_getitem demo_types demo_lengths wf pn,
      THEN conjunct1, THEN spec, THEN spec, of default_controls pn', THEN mp, OF hi]
  have idem: "filtered_df pn' = filtered_df pn" .
  have ap: "pic50_active potent_controls ?t ?ds ?ps"
    by (rule demo_active) (simp_all add: potent_controls_def default_controls_def)
  have hq: "filter_compounds demo_compounds default_controls = Some pn \<and>
        set (selected_targets potent_controls) \<subseteq> set (selected_targets default_controls) \<and>
        drug_like_only default_controls = drug_like_only potent_controls \<and>
        widens (mw_range qn) (mw_range pn) \<and> widens (logp_range qn) (logp_range pn) \<and>
        (\<forall>r r'. pic50_range qn = Some r \<and> pic50_range pn = Some r' \<longrightarrow> widens r r') \<and>
        (pic50_active potent_controls ?t ?ds ?ps \<or> \<not> pic50_active default_controls ?t ?ds ?ps)"
  proof (intro conjI)
    show "filter_compounds demo_compounds default_controls = Some pn" by (rule pn)
    show "set (selected_targets potent_controls) \<subseteq> set (selected_targets default_controls)"
      by (simp add: potent_controls_def default_controls_def)
    show "drug_like_only default_controls = drug_like_only potent_controls"
      by (simp add: potent_controls_def default_controls_def)
    show "widens (mw_range qn) (mw_range pn)" by (simp add: pnr qnr widens_def)
    show "widens (logp_range qn) (logp_range pn)" by (simp add: pnr qnr widens_def)
    show "\<forall>r r'. pic50_range qn = Some r \<and> pic50_range pn = Some r' \<longrightarrow> widens r r'"
      by (auto simp: pnr qnr widens_def)
    show "pic50_active potent_controls ?t ?ds ?ps \<or> \<not> pic50_active default_controls ?t ?ds ?ps"
      using ap by (rule disjI1)
  qed
  from filter_idempotent_monotone[OF demo_getitem demo_types demo_lengths wf qn,
      THEN conjunct2, THEN conjunct1, THEN spec, THEN spec, of default_controls pn, THEN mp, OF hq]
  have mq: "nrows (filtered_df qn) \<le> nrows (filtered_df pn)" .
  have ae: "pic50_active egfr_controls ?t ?ds ?ps"
    by (rule demo_active) (simp_all add: egfr_controls_def default_controls_def)
  have hr: "filter_compounds demo_compounds default_controls = Some pn \<and>
        set (selected_targets egfr_controls) \<subseteq> set (selected_targets default_controls) \<and>
        drug_like_only default_controls = drug_like_only egfr_controls \<and>
        mw_choice egfr_controls = None \<and> mw_choice default_controls = None \<and>
        logp_choice egfr_controls = None \<and> logp_choice default_controls = None \<and>
        pic50_choice egfr_controls = None \<and> pic50_choice default_controls = None \<and>
        (pic50_active egfr_controls ?t ?ds ?ps \<or> \<not> pic50_active default_controls ?t ?ds ?ps)"
  proof (intro conjI)
    show "filter_compounds demo_compounds default_controls = Some pn" by (rule pn)
    show "set (selected_targets egfr_controls) \<subseteq> set (selected_targets default_controls)"
      by (simp add: egfr_controls_def default_controls_def)
    show "drug_like_only default_controls = drug_like_only egfr_controls"
      by (simp add: egfr_controls_def default_controls_def)
    show "mw_choice egfr_controls = None" "logp_choice egfr_controls = None"
         "pic50_choice egfr_controls = None"
      by (simp_all add: egfr_controls_def default_controls_def)
    show "mw_choice default_controls = None" "logp_choice default_controls = None"
         "pic50_choice default_controls = None"
      by (simp_all add: default_controls_def)
    show "pic50_active egfr_controls ?t ?ds ?ps \<or> \<not> pic50_active default_controls ?t ?ds ?ps"
      using ae by (rule disjI1)
  qed
  from filter_idempotent_monotone[OF demo_getitem demo_types demo_lengths wf rn,
      THEN conjunct2, THEN conjunct2, THEN conjunct1, THEN spec, THEN spec,
      of default_controls pn, THEN mp, OF hr]
  have mr: "nrows (filtered_df rn) \<le> nrows (filtered_df pn)" .
  show ?thesis
    by (intro exI[of _ pn] exI[of _ pn'] exI[of _ qn] exI[of _ rn] conjI pn again idem qn mq rn mr)
qed

section \<open>Order and repetition of the two transforms\<close>

lemma notna_mask_complete:
  assumes g: "getitem df ''mw'' = Some mw" "getitem df ''logp'' = Some logp"
             "getitem df ''hbd'' = Some hbd" "getitem df ''hba'' = Some hba"
      and n: "nums mw = Some ms" "nums logp = Some ls" "nums hbd = Some ds" "nums hba = Some as"
      and l: "length mw = nrows df" "length logp = nrows df"
             "length hbd = nrows df" "length hba = nrows df"
  shows "notna_mask df [''mw'', ''logp'', ''hbd'', ''hba''] = complete_mask ms ls ds as (nrows df)"
  unfolding notna_mask_lipinski[OF g] complete_mask_def
proof (rule map_cong[OF refl])
  fix i assume "i \<in> set [0..<nrows df]"
  then have i: "i < nrows df" by simp
  have "isna (mw ! i) \<longleftrightarrow> ms ! i = NaN" "isna (logp ! i) \<longleftrightarrow> ls ! i = NaN"
       "isna (hbd ! i) \<longleftrightarrow> ds ! i = NaN" "isna (hba ! i) \<longleftrightarrow> as ! i = NaN"
    using n l i by (auto intro!: isna_num nums_nth)
  then show "(\<not> isna (mw ! i) \<and> \<not> isna (logp ! i) \<and> \<not> isna (hbd ! i) \<and> \<not> isna (hba ! i))
             = (ms ! i \<noteq> NaN \<and> ls ! i \<noteq> NaN \<and> ds ! i \<noteq> NaN \<and> as ! i \<noteq> NaN)"
    by simp
qed

lemma calculate_lipinski_eq:
  assumes g: "getitem df ''mw'' = Some mw" "getitem df ''logp'' = Some logp"
             "getitem df ''hbd'' = Some hbd" "getitem df ''hba'' = Some hba"
      and n: "nums mw = Some ms" "nums logp = Some ls" "nums hbd = Some ds" "nums hba = Some as"
      and l: "length mw = nrows df" "length logp = nrows df"
             "length hbd = nrows df" "length hba = nrows df"
  shows "calculate_lipinski df = Some (lipinski_result df ms ls ds as)"
proof -
  let ?cs = "[''mw'', ''logp'', ''hbd'', ''hba'']"
  let ?keep = "complete_rows ms ls ds as (nrows df)"
  let ?M = "complete_mask ms ls ds as (nrows df)"
  let ?d = "boolean_index df ?M"
  have M: "notna_mask df ?cs = ?M" by (rule notna_mask_complete[OF g n l])
  have kb: "\<forall>i \<in> set ?keep. i < nrows df" by (auto simp: complete_rows_def)
  have selM: "select ?M xs = map (nth xs) ?keep" if "length xs = nrows df" for xs :: series
    unfolding complete_mask_def complete_rows_def by (rule select_upt_nth[OF that])
  have sel: "select ?M mw = map (nth mw) ?keep" "select ?M logp = map (nth logp) ?keep"
            "select ?M hbd = map (nth hbd) ?keep" "select ?M hba = map (nth hba) ?keep"
    by (rule selM, rule l)+
  have gd: "getitem ?d ''mw'' = Some (map (nth mw) ?keep)"
           "getitem ?d ''logp'' = Some (map (nth logp) ?keep)"
           "getitem ?d ''hbd'' = Some (map (nth hbd) ?keep)"
           "getitem ?d ''hba'' = Some (map (nth hba) ?keep)"
    by (simp_all add: getitem_boolean_index g sel)
  have nd: "nums (map (nth mw) ?keep) = Some (map (nth ms) ?keep)"
           "nums (map (nth logp) ?keep) = Some (map (nth ls) ?keep)"
           "nums (map (nth hbd) ?keep) = Some (map (nth ds) ?keep)"
           "nums (map (nth hba) ?keep) = Some (map (nth as) ?keep)"
    using n l kb by (simp_all add: nums_map_nth)
  have gt: "series_gt (map (nth mw) ?keep) 500 = Some (map (\<lambda>i. fl_gt (ms ! i) (Fin 500)) ?keep)"
           "series_gt (map (nth logp) ?keep) 5 = Some (map (\<lambda>i. fl_gt (ls ! i) (Fin 5)) ?keep)"
           "series_gt (map (nth hbd) ?keep) 5 = Some (map (\<lambda>i. fl_gt (ds ! i) (Fin 5)) ?keep)"
           "series_gt (map (nth hba) ?keep) 10 = Some (map (\<lambda>i. fl_gt (as ! i) (Fin 10)) ?keep)"
    by (simp_all add: series_gt_def nd comp_def)
  show ?thesis
    unfolding calculate_lipinski_def dropna_lipinski[OF g] M lipinski_result_def
    by (simp add: gd gt Let_def astype_int_map add_int_map spec_violation_count_eq comp_def)
qed


lemma filter_update_same:
  "filter (\<lambda>(c, s). c \<noteq> k) (AList.update k v al) = filter (\<lambda>(c, s). c \<noteq> k) al"
  by (induction al) auto

lemma filter_update_other:
  "k' \<noteq> k \<Longrightarrow> filter (\<lambda>(c, s). c \<noteq> k) (AList.update k' v al)
     = AList.update k' v (filter (\<lambda>(c, s). c \<noteq> k) al)"
  by (induction al) auto

lemma drop_setitem_same: "drop_columns (setitem df k v) [k] = drop_columns df [k]"
  by (simp add: drop_columns_def setitem_def filter_update_same)

lemma drop_setitem_other:
  "k' \<noteq> k \<Longrightarrow> drop_columns (setitem df k' v) [k] = setitem (drop_columns df [k]) k' v"
  by (simp add: drop_columns_def setitem_def filter_update_other)

lemma drop_drop: "drop_columns (drop_columns df cs) cs = drop_columns df cs"
  by (simp add: drop_columns_def)

lemma setitem_setitem: "setitem (setitem df k u) k v = setitem df k v"
  by (simp add: setitem_def)

lemma setitem_triv: "getitem df k = Some v \<Longrightarrow> setitem df k v = df"
  by (simp add: setitem_def getitem_def update_triv)

lemma calculate_pic50_eq:
  assumes "getitem df ''ic50'' = Some s" "nums s = Some xs"
  shows "calculate_pic50 df = Some (pic50_result df xs)"
  by (simp add: calculate_pic50_def pic50_inplace_eq[OF assms] pic50_result_def
        drop_setitem_other drop_setitem_same)

lemma getitem_pic50_result:
  "getitem (pic50_result df xs) c =
     (if c = ''pIC50'' then Some (map (\<lambda>x. F (pic50_cell x)) xs)
      else if c = ''ic50_M'' then None else getitem df c)"
  by (simp add: pic50_result_def getitem_setitem getitem_drop_columns)

lemma nrows_pic50_result: "nrows (pic50_result df xs) = nrows df"
  by (simp add: pic50_result_def nrows_setitem nrows_drop_columns)

lemma pic50_result_idem: "pic50_result (pic50_result df xs) xs = pic50_result df xs"
  by (simp add: pic50_result_def drop_setitem_other drop_drop setitem_setitem)

lemma calculate_pic50_idempotent:
  assumes "getitem df ''ic50'' = Some s" "nums s = Some xs"
  shows "calculate_pic50 (pic50_result df xs) = Some (pic50_result df xs)"
proof -
  have "getitem (pic50_result df xs) ''ic50'' = Some s"
    by (simp add: getitem_pic50_result assms(1))
  from calculate_pic50_eq[OF this assms(2)] show ?thesis
    by (simp add: pic50_result_idem)
qed

lemma getitem_lipinski_result:
  "getitem (lipinski_result df ms ls ds as) c =
     (if c = ''is_drug_like''
      then Some (map (\<lambda>i. B (spec_violation_count (ms ! i) (ls ! i) (ds ! i) (as ! i) = 0))
                   (complete_rows ms ls ds as (nrows df)))
      else if c = ''lipinski_violations''
      then Some (map (\<lambda>i. I (spec_violation_count (ms ! i) (ls ! i) (ds ! i) (as ! i)))
                   (complete_rows ms ls ds as (nrows df)))
      else map_option (select (complete_mask ms ls ds as (nrows df))) (getitem df c))"
  by (simp add: lipinski_result_def getitem_setitem getitem_boolean_index)

lemma nrows_lipinski_result:
  "nrows (lipinski_result df ms ls ds as) = length (complete_rows ms ls ds as (nrows df))"
  by (simp add: lipinski_result_def nrows_setitem nrows_boolean_index complete_mask_def
        complete_rows_def count_true_map_upt)

lemma list_all_update:
  "list_all P al \<Longrightarrow> P (k, v) \<Longrightarrow> list_all P (AList.update k v al)"
  by (induction al) auto

lemma wf_setitem: "wf_table df \<Longrightarrow> length v = nrows df \<Longrightarrow> wf_table (setitem df k v)"
  unfolding wf_table_def setitem_def by (simp add: list_all_update)


lemma columns_getitem: "c \<in> set (columns df) \<longleftrightarrow> getitem df c \<noteq> None"
  by (simp add: columns_def getitem_def map_of_eq_None_iff)

lemma length_complete_mask: "length (complete_mask ms ls ds as n) = n"
  by (simp add: complete_mask_def)

lemma select_complete:
  "length xs = n \<Longrightarrow> select (complete_mask ms ls ds as n) xs = map (nth xs) (complete_rows ms ls ds as n)"
  unfolding complete_mask_def complete_rows_def by (rule select_upt_nth)

lemma complete_mask_all:
  "(\<And>j. j < k \<Longrightarrow> ms ! j \<noteq> NaN \<and> ls ! j \<noteq> NaN \<and> ds ! j \<noteq> NaN \<and> as ! j \<noteq> NaN)
   \<Longrightarrow> complete_mask ms ls ds as k = replicate k True"
  unfolding complete_mask_def by (intro map_upt_all_True) blast

lemma complete_rows_all:
  "(\<And>j. j < k \<Longrightarrow> ms ! j \<noteq> NaN \<and> ls ! j \<noteq> NaN \<and> ds ! j \<noteq> NaN \<and> as ! j \<noteq> NaN)
   \<Longrightarrow> complete_rows ms ls ds as k = [0..<k]"
  unfolding complete_rows_def by (intro filter_True) simp

lemma map_upt_nth4:
  "map (\<lambda>j. f (map a ks ! j) (map b ks ! j) (map c ks ! j) (map d ks ! j)) [0..<length ks]
   = map (\<lambda>i. f (a i) (b i) (c i) (d i)) ks"
  by (rule nth_equalityI) simp_all

lemma wf_lipinski_result:
  assumes "wf_table df"
  shows "wf_table (lipinski_result df ms ls ds as)"
proof -
  have n: "nrows (boolean_index df (complete_mask ms ls ds as (nrows df)))
           = length (complete_rows ms ls ds as (nrows df))"
    by (simp add: nrows_boolean_index complete_mask_def complete_rows_def count_true_map_upt)
  have "wf_table (boolean_index df (complete_mask ms ls ds as (nrows df)))"
    by (rule wf_boolean_index[OF assms]) (simp add: length_complete_mask)
  then show ?thesis
    unfolding lipinski_result_def
    by (intro wf_setitem) (simp_all add: n nrows_setitem)
qed

lemma calculate_lipinski_idempotent:
  assumes g: "getitem df ''mw'' = Some mw" "getitem df ''logp'' = Some logp"
             "getitem df ''hbd'' = Some hbd" "getitem df ''hba'' = Some hba"
      and n: "nums mw = Some ms" "nums logp = Some ls" "nums hbd = Some ds" "nums hba = Some as"
      and l: "length mw = nrows df" "length logp = nrows df"
             "length hbd = nrows df" "length hba = nrows df"
      and wf: "wf_table df"
  shows "calculate_lipinski (lipinski_result df ms ls ds as) = Some (lipinski_result df ms ls ds as)"
proof -
  let ?L = "lipinski_result df ms ls ds as"
  let ?M = "complete_mask ms ls ds as (nrows df)"
  let ?keep = "complete_rows ms ls ds as (nrows df)"
  let ?k = "length ?keep"
  let ?ms = "map (nth ms) ?keep" and ?ls = "map (nth ls) ?keep"
  let ?ds = "map (nth ds) ?keep" and ?as = "map (nth as) ?keep"
  have ln: "length ms = nrows df" "length ls = nrows df" "length ds = nrows df" "length as = nrows df"
    using nums_length[OF n(1)] nums_length[OF n(2)] nums_length[OF n(3)] nums_length[OF n(4)] l
    by simp_all
  have nL: "nrows ?L = ?k" by (rule nrows_lipinski_result)
  have g': "getitem ?L ''mw'' = Some (select ?M mw)" "getitem ?L ''logp'' = Some (select ?M logp)"
           "getitem ?L ''hbd'' = Some (select ?M hbd)" "getitem ?L ''hba'' = Some (select ?M hba)"
    by (simp_all add: getitem_lipinski_result g)
  have n': "nums (select ?M mw) = Some ?ms" "nums (select ?M logp) = Some ?ls"
           "nums (select ?M hbd) = Some ?ds" "nums (select ?M hba) = Some ?as"
    using nums_select[OF n(1), of ?M] nums_select[OF n(2), of ?M]
      nums_select[OF n(3), of ?M] nums_select[OF n(4), of ?M]
    by (simp_all add: select_complete[OF ln(1)] select_complete[OF ln(2)]
          select_complete[OF ln(3)] select_complete[OF ln(4)])
  have l': "length (select ?M mw) = nrows ?L" "length (select ?M logp) = nrows ?L"
           "length (select ?M hbd) = nrows ?L" "length (select ?M hba) = nrows ?L"
    by (simp_all add: select_complete[OF l(1)] select_complete[OF l(2)]
          select_complete[OF l(3)] select_complete[OF l(4)] nL)
  have again: "calculate_lipinski ?L = Some (lipinski_result ?L ?ms ?ls ?ds ?as)"
    by (rule calculate_lipinski_eq[OF g' n' l'])
  have pres: "?ms ! j \<noteq> NaN \<and> ?ls ! j \<noteq> NaN \<and> ?ds ! j \<noteq> NaN \<and> ?as ! j \<noteq> NaN" if "j < ?k" for j
  proof -
    have "?keep ! j \<in> set ?keep" using that by (rule nth_mem)
    then show ?thesis using that by (simp add: complete_rows_def)
  qed
  have mask: "complete_mask ?ms ?ls ?ds ?as ?k = replicate ?k True"
    by (rule complete_mask_all) (rule pres)
  have rows: "complete_rows ?ms ?ls ?ds ?as ?k = [0..<?k]"
    by (rule complete_rows_all) (rule pres)
  have V: "map (\<lambda>j. I (spec_violation_count (?ms ! j) (?ls ! j) (?ds ! j) (?as ! j))) [0..<?k]
           = map (\<lambda>i. I (spec_violation_count (ms ! i) (ls ! i) (ds ! i) (as ! i))) ?keep"
    by (rule map_upt_nth4[where f = "\<lambda>m l d a. I (spec_violation_count m l d a)"
          and a = "nth ms" and b = "nth ls" and c = "nth ds" and d = "nth as"])
  have D: "map (\<lambda>j. B (spec_violation_count (?ms ! j) (?ls ! j) (?ds ! j) (?as ! j) = 0)) [0..<?k]
           = map (\<lambda>i. B (spec_violation_count (ms ! i) (ls ! i) (ds ! i) (as ! i) = 0)) ?keep"
    by (rule map_upt_nth4[where f = "\<lambda>m l d a. B (spec_violation_count m l d a = 0)"
          and a = "nth ms" and b = "nth ls" and c = "nth ds" and d = "nth as"])
  have bi: "boolean_index ?L (replicate ?k True) = ?L"
    using boolean_index_all_True[OF wf_lipinski_result[OF wf], of ms ls ds as] by (simp add: nL)
  have "lipinski_result ?L ?ms ?ls ?ds ?as =
        setitem (setitem ?L ''lipinski_violations''
          (map (\<lambda>i. I (spec_violation_count (ms ! i) (ls ! i) (ds ! i) (as ! i))) ?keep))
          ''is_drug_like''
          (map (\<lambda>i. B (spec_violation_count (ms ! i) (ls ! i) (ds ! i) (as ! i) = 0)) ?keep)"
    unfolding lipinski_result_def[of ?L] nL mask rows bi V D ..
  also have "\<dots> = ?L"
    by (simp add: setitem_triv getitem_lipinski_result)
  finally show ?thesis using again by simp
qed


text \<open>
  Claim C6 as stated fails on the fixture of the test: the two orders give tables whose
  columns stand in different orders, so the tables are not the same.
\<close>

theorem transform_order_counterexample:
  "map_option columns (calculate_lipinski sample_compounds \<bind> calculate_pic50) =
     Some [''chembl_id'', ''name'', ''ic50'', ''mw'', ''logp'', ''hbd'', ''hba'', ''psa'',
           ''lipinski_violations'', ''is_drug_like'', ''pIC50''] \<and>
   map_option columns (calculate_pic50 sample_compounds \<bind> calculate_lipinski) =
     Some [''chembl_id'', ''name'', ''ic50'', ''mw'', ''logp'', ''hbd'', ''hba'', ''psa'',
           ''pIC50'', ''lipinski_violations'', ''is_drug_like''] \<and>
   (calculate_lipinski sample_compounds \<bind> calculate_pic50) \<noteq>
   (calculate_pic50 sample_compounds \<bind> calculate_lipinski)"
proof -
  let ?ms = "[Fin 450, Fin 510, Fin 620, Fin 400]"
  let ?ls = "[Fin (9 / 2), Fin (24 / 5), Fin (11 / 2), Fin 6]"
  let ?ds = "[Fin 4, Fin 5, Fin 6, Fin 3]"
  let ?as = "[Fin 8, Fin 9, Fin 11, Fin 12]"
  let ?xs = "[Fin (21 / 2), Fin 200, Fin 600, Fin 150]"
  let ?L = "lipinski_result sample_compounds ?ms ?ls ?ds ?as"
  let ?Q = "pic50_result sample_compounds ?xs"
  have g: "getitem sample_compounds ''mw'' = Some (map F ?ms)"
          "getitem sample_compounds ''logp'' = Some (map F ?ls)"
          "getitem sample_compounds ''hbd'' = Some [I 4, I 5, I 6, I 3]"
          "getitem sample_compounds ''hba'' = Some [I 8, I 9, I 11, I 12]"
    by (simp_all add: sample_compounds_def getitem_def)
  have gi: "getitem sample_compounds ''ic50'' = Some (map F ?xs)"
    by (simp add: sample_compounds_def getitem_def)
  have n: "nums (map F ?ms) = Some ?ms" "nums (map F ?ls) = Some ?ls"
          "nums [I 4, I 5, I 6, I 3] = Some ?ds" "nums [I 8, I 9, I 11, I 12] = Some ?as"
    by (simp_all add: nums_def)
  have ni: "nums (map F ?xs) = Some ?xs" by (simp add: nums_def)
  have r: "nrows sample_compounds = 4" by (simp add: sample_compounds_def)
  have l: "length (map F ?ms) = nrows sample_compounds"
          "length (map F ?ls) = nrows sample_compounds"
          "length [I 4, I 5, I 6, I 3] = nrows sample_compounds"
          "length [I 8, I 9, I 11, I 12] = nrows sample_compounds"
    by (simp_all add: r)
  have a: "calculate_lipinski sample_compounds = Some ?L"
    by (rule calculate_lipinski_eq[OF g n l])
  have b: "calculate_pic50 sample_compounds = Some ?Q"
    by (rule calculate_pic50_eq[OF gi ni])
  have gL: "getitem ?L ''ic50'' = Some (select (complete_mask ?ms ?ls ?ds ?as 4) (map F ?xs))"
    by (simp add: getitem_lipinski_result gi r)
  have nL: "nums (select (complete_mask ?ms ?ls ?ds ?as 4) (map F ?xs))
            = Some (select (complete_mask ?ms ?ls ?ds ?as 4) ?xs)"
    by (rule nums_select[OF ni])
  have a2: "calculate_pic50 ?L = Some (pic50_result ?L (select (complete_mask ?ms ?ls ?ds ?as 4) ?xs))"
    by (rule calculate_pic50_eq[OF gL nL])
  have gQ: "getitem ?Q ''mw'' = Some (map F ?ms)" "getitem ?Q ''logp'' = Some (map F ?ls)"
           "getitem ?Q ''hbd'' = Some [I 4, I 5, I 6, I 3]"
           "getitem ?Q ''hba'' = Some [I 8, I 9, I 11, I 12]"
    by (simp_all add: getitem_pic50_result g)
  have lQ: "length (map F ?ms) = nrows ?Q" "length (map F ?ls) = nrows ?Q"
           "length [I 4, I 5, I 6, I 3] = nrows ?Q" "length [I 8, I 9, I 11, I 12] = nrows ?Q"
    by (simp_all add: nrows_pic50_result r)
  have b2: "calculate_lipinski ?Q = Some (lipinski_result ?Q ?ms ?ls ?ds ?as)"
    by (rule calculate_lipinski_eq[OF gQ n lQ])
  have c1: "columns (pic50_result ?L (select (complete_mask ?ms ?ls ?ds ?as 4) ?xs)) =
     [''chembl_id'', ''name'', ''ic50'', ''mw'', ''logp'', ''hbd'', ''hba'', ''psa'',
      ''lipinski_violations'', ''is_drug_like'', ''pIC50'']"
    by (simp add: columns_def pic50_result_def lipinski_result_def setitem_def drop_columns_def
          boolean_index_def sample_compounds_def)
  have c2: "columns (lipinski_result ?Q ?ms ?ls ?ds ?as) =
     [''chembl_id'', ''name'', ''ic50'', ''mw'', ''logp'', ''hbd'', ''hba'', ''psa'',
      ''pIC50'', ''lipinski_violations'', ''is_drug_like'']"
    by (simp add: columns_def pic50_result_def lipinski_result_def setitem_def drop_columns_def
          boolean_index_def sample_compounds_def)
  have ne: "(calculate_lipinski sample_compounds \<bind> calculate_pic50) \<noteq>
            (calculate_pic50 sample_compounds \<bind> calculate_lipinski)"
  proof
    assume "(calculate_lipinski sample_compounds \<bind> calculate_pic50) =
            (calculate_pic50 sample_compounds \<bind> calculate_lipinski)"
    then have "map_option columns (calculate_lipinski sample_compounds \<bind> calculate_pic50) =
               map_option columns (calculate_pic50 sample_compounds \<bind> calculate_lipinski)"
      by (rule arg_cong)
    then show False by (simp add: a b a2 b2 c1 c2)
  qed
  show ?thesis using ne by (simp add: a b a2 b2 c1 c2)
qed


text \<open>
  Claim C6, amended. On a table with numeric columns \<open>mw\<close>, \<open>logp\<close>, \<open>hbd\<close>, \<open>hba\<close> and
  \<open>ic50\<close>, the two orders of the transforms give tables with the same number of rows, the
  same set of columns and the same cells in every column; the order of the derived columns
  apart, they are the same. Each transform applied to its own result returns that result.
\<close>

theorem transforms_commute_up_to_column_order:
  assumes g: "getitem df ''mw'' = Some mw" "getitem df ''logp'' = Some logp"
             "getitem df ''hbd'' = Some hbd" "getitem df ''hba'' = Some hba"
             "getitem df ''ic50'' = Some s"
      and n: "nums mw = Some ms" "nums logp = Some ls" "nums hbd = Some ds" "nums hba = Some as"
             "nums s = Some xs"
      and l: "length mw = nrows df" "length logp = nrows df"
             "length hbd = nrows df" "length hba = nrows df"
      and wf: "wf_table df"
  shows "\<exists>a b lp pc.
           (calculate_lipinski df \<bind> calculate_pic50) = Some a \<and>
           (calculate_pic50 df \<bind> calculate_lipinski) = Some b \<and>
           nrows a = nrows b \<and> (\<forall>c. getitem a c = getitem b c) \<and>
           set (columns a) = set (columns b) \<and>
           calculate_lipinski df = Some lp \<and> calculate_lipinski lp = Some lp \<and>
           calculate_pic50 df = Some pc \<and> calculate_pic50 pc = Some pc"
proof -
  let ?M = "complete_mask ms ls ds as (nrows df)"
  let ?L = "lipinski_result df ms ls ds as"
  let ?Q = "pic50_result df xs"
  let ?a = "pic50_result ?L (select ?M xs)"
  let ?b = "lipinski_result ?Q ms ls ds as"
  have lp: "calculate_lipinski df = Some ?L"
    by (rule calculate_lipinski_eq[OF g(1-4) n(1-4) l])
  have pc: "calculate_pic50 df = Some ?Q"
    by (rule calculate_pic50_eq[OF g(5) n(5)])
  have gL: "getitem ?L ''ic50'' = Some (select ?M s)"
    by (simp add: getitem_lipinski_result g(5))
  have a: "calculate_pic50 ?L = Some ?a"
    by (rule calculate_pic50_eq[OF gL nums_select[OF n(5)]])
  have gQ: "getitem ?Q ''mw'' = Some mw" "getitem ?Q ''logp'' = Some logp"
           "getitem ?Q ''hbd'' = Some hbd" "getitem ?Q ''hba'' = Some hba"
    by (simp_all add: getitem_pic50_result g)
  have lQ: "length mw = nrows ?Q" "length logp = nrows ?Q"
           "length hbd = nrows ?Q" "length hba = nrows ?Q"
    by (simp_all add: nrows_pic50_result l)
  have b: "calculate_lipinski ?Q = Some ?b"
    by (rule calculate_lipinski_eq[OF gQ n(1-4) lQ])
  have rows: "nrows ?a = nrows ?b"
    by (simp add: nrows_pic50_result nrows_lipinski_result)
  have cells: "\<forall>c. getitem ?a c = getitem ?b c"
    by (simp add: getitem_pic50_result getitem_lipinski_result nrows_pic50_result select_map)
  have cols: "set (columns ?a) = set (columns ?b)"
    using cells by (auto simp: columns_getitem)
  have ab: "(calculate_lipinski df \<bind> calculate_pic50) = Some ?a"
           "(calculate_pic50 df \<bind> calculate_lipinski) = Some ?b"
    by (simp_all add: lp pc a b)
  have il: "calculate_lipinski ?L = Some ?L"
    by (rule calculate_lipinski_idempotent[OF g(1-4) n(1-4) l wf])
  have ip: "calculate_pic50 ?Q = Some ?Q"
    by (rule calculate_pic50_idempotent[OF g(5) n(5)])
  show ?thesis
    by (intro exI[of _ ?a] exI[of _ ?b] exI[of _ ?L] exI[of _ ?Q] conjI ab rows cells cols
          lp il pc ip)
qed

text \<open>On the fixture of the test both orders succeed and agree on the derived columns.\<close>

theorem transforms_commute_up_to_column_order_witness:
  "\<exists>a b. (calculate_lipinski sample_compounds \<bind> calculate_pic50) = Some a \<and>
     (calculate_pic50 sample_compounds \<bind> calculate_lipinski) = Some b \<and>
     nrows a = nrows b \<and> getitem a ''pIC50'' = getitem b ''pIC50'' \<and>
     getitem a ''lipinski_violations'' = getitem b ''lipinski_violations''"
proof -
  let ?ms = "[Fin 450, Fin 510, Fin 620, Fin 400]"
  let ?ls = "[Fin (9 / 2), Fin (24 / 5), Fin (11 / 2), Fin 6]"
  let ?ds = "[Fin 4, Fin 5, Fin 6, Fin 3]"
  let ?as = "[Fin 8, Fin 9, Fin 11, Fin 12]"
  let ?xs = "[Fin (21 / 2), Fin 200, Fin 600, Fin 150]"
  have g: "getitem sample_compounds ''mw'' = Some (map F ?ms)"
          "getitem sample_compounds ''logp'' = Some (map F ?ls)"
          "getitem sample_compounds ''hbd'' = Some [I 4, I 5, I 6, I 3]"
          "getitem sample_compounds ''hba'' = Some [I 8, I 9, I 11, I 12]"
          "getitem sample_compounds ''ic50'' = Some (map F ?xs)"
    by (simp_all add: sample_compounds_def getitem_def)
  have n: "nums (map F ?ms) = Some ?ms" "nums (map F ?ls) = Some ?ls"
          "nums [I 4, I 5, I 6, I 3] = Some ?ds" "nums [I 8, I 9, I 11, I 12] = Some ?as"
          "nums (map F ?xs) = Some ?xs"
    by (simp_all add: nums_def)
  have r: "nrows sample_compounds = 4" by (simp add: sample_compounds_def)
  have l: "length (map F ?ms) = nrows sample_compounds"
          "length (map F ?ls) = nrows sample_compounds"
          "length [I 4, I 5, I 6, I 3] = nrows sample_compounds"
          "length [I 8, I 9, I 11, I 12] = nrows sample_compounds"
    by (simp_all add: r)
  have wf: "wf_table sample_compounds"
    by (simp add: wf_table_def sample_compounds_def)
  from transforms_commute_up_to_column_order[OF g n l wf] obtain a b where
    ab: "(calculate_lipinski sample_compounds \<bind> calculate_pic50) = Some a"
        "(calculate_pic50 sample_compounds \<bind> calculate_lipinski) = Some b"
        "nrows a = nrows b" "\<forall>c. getitem a c = getitem b c"
    by (elim exE conjE) (rule that, assumption+)
  show ?thesis
    by (intro exI[of _ a] exI[of _ b] conjI ab(1,2,3) ab(4)[THEN spec])
qed

section \<open>Mutation of the argument\<close>

text \<open>
  Claim C5 as stated fails: after \<open>calculate_lipinski\<close> the table that was passed in has
  two more columns (and has lost its incomplete rows: the upload with one row has none
  left), and the result is that same object; after \<open>calculate_pic50\<close> the table that was
  passed in has the columns \<open>ic50_M\<close> and \<open>pIC50\<close>.
\<close>

theorem transforms_mutate_argument_counterexample:
  "map_option (\<lambda>(r, h). (r, columns (h ! 0))) (call_calculate_lipinski 0 [sample_compounds]) =
     Some (0, [''chembl_id'', ''name'', ''ic50'', ''mw'', ''logp'', ''hbd'', ''hba'', ''psa'',
               ''lipinski_violations'', ''is_drug_like'']) \<and>
   map_option (\<lambda>(r, h). nrows (h ! 0)) (call_calculate_lipinski 0 [no_mw_upload]) = Some 0 \<and>
   nrows no_mw_upload = 1 \<and>
   map_option (\<lambda>(r, h). (r, columns (h ! 0))) (call_calculate_pic50 0 [sample_compounds]) =
     Some (1, [''chembl_id'', ''name'', ''ic50'', ''mw'', ''logp'', ''hbd'', ''hba'', ''psa'',
               ''ic50_M'', ''pIC50'']) \<and>
   columns sample_compounds =
     [''chembl_id'', ''name'', ''ic50'', ''mw'', ''logp'', ''hbd'', ''hba'', ''psa'']"
proof -
  let ?ms = "[Fin 450, Fin 510, Fin 620, Fin 400]"
  let ?ls = "[Fin (9 / 2), Fin (24 / 5), Fin (11 / 2), Fin 6]"
  let ?ds = "[Fin 4, Fin 5, Fin 6, Fin 3]"
  let ?as = "[Fin 8, Fin 9, Fin 11, Fin 12]"
  let ?xs = "[Fin (21 / 2), Fin 200, Fin 600, Fin 150]"
  have g: "getitem sample_compounds ''mw'' = Some (map F ?ms)"
          "getitem sample_compounds ''logp'' = Some (map F ?ls)"
          "getitem sample_compounds ''hbd'' = Some [I 4, I 5, I 6, I 3]"
          "getitem sample_compounds ''hba'' = Some [I 8, I 9, I 11, I 12]"
    by (simp_all add: sample_compounds_def getitem_def)
  have gi: "getitem sample_compounds ''ic50'' = Some (map F ?xs)"
    by (simp add: sample_compounds_def getitem_def)
  have n: "nums (map F ?ms) = Some ?ms" "nums (map F ?ls) = Some ?ls"
          "nums [I 4, I 5, I 6, I 3] = Some ?ds" "nums [I 8, I 9, I 11, I 12] = Some ?as"
    by (simp_all add: nums_def)
  have ni: "nums (map F ?xs) = Some ?xs" by (simp add: nums_def)
  have r: "nrows sample_compounds = 4" by (simp add: sample_compounds_def)
  have l: "length (map F ?ms) = nrows sample_compounds"
          "length (map F ?ls) = nrows sample_compounds"
          "length [I 4, I 5, I 6, I 3] = nrows sample_compounds"
          "length [I 8, I 9, I 11, I 12] = nrows sample_compounds"
    by (simp_all add: r)
  have a: "calculate_lipinski sample_compounds = Some (lipinski_result sample_compounds ?ms ?ls ?ds ?as)"
    by (rule calculate_lipinski_eq[OF g n l])
  have ca: "columns (lipinski_result sample_compounds ?ms ?ls ?ds ?as) =
     [''chembl_id'', ''name'', ''ic50'', ''mw'', ''logp'', ''hbd'', ''hba'', ''psa'',
      ''lipinski_violations'', ''is_drug_like'']"
    by (simp add: columns_def lipinski_result_def setitem_def boolean_index_def
          sample_compounds_def)
  have 1: "map_option (\<lambda>(r, h). (r, columns (h ! 0))) (call_calculate_lipinski 0 [sample_compounds]) =
     Some (0, [''chembl_id'', ''name'', ''ic50'', ''mw'', ''logp'', ''hbd'', ''hba'', ''psa'',
               ''lipinski_violations'', ''is_drug_like''])"
    by (simp add: call_calculate_lipinski_def a ca)
  have 2: "map_option (\<lambda>(r, h). nrows (h ! 0)) (call_calculate_lipinski 0 [no_mw_upload]) = Some 0"
    by (simp add: call_calculate_lipinski_def calculate_lipinski_def no_mw_upload_def dropna_def
          notna_mask_def columns_def getitem_def setitem_def boolean_index_def count_true_def
          isna_def series_gt_def nums_def astype_int_def add_int_def)
  have 3: "nrows no_mw_upload = 1" by (simp add: no_mw_upload_def)
  have b: "pic50_inplace sample_compounds =
           Some (setitem (setitem sample_compounds ''ic50_M'' (map (\<lambda>x. F (molar x)) ?xs))
                   ''pIC50'' (map (\<lambda>x. F (pic50_cell x)) ?xs))"
    by (rule pic50_inplace_eq[OF gi ni])
  have cb: "columns (setitem (setitem sample_compounds ''ic50_M'' u) ''pIC50'' v) =
     [''chembl_id'', ''name'', ''ic50'', ''mw'', ''logp'', ''hbd'', ''hba'', ''psa'',
      ''ic50_M'', ''pIC50'']" for u v
    by (simp add: columns_def setitem_def sample_compounds_def)
  have 4: "map_option (\<lambda>(r, h). (r, columns (h ! 0))) (call_calculate_pic50 0 [sample_compounds]) =
     Some (1, [''chembl_id'', ''name'', ''ic50'', ''mw'', ''logp'', ''hbd'', ''hba'', ''psa'',
               ''ic50_M'', ''pIC50''])"
    by (simp add: call_calculate_pic50_def b cb)
  have 5: "columns sample_compounds =
     [''chembl_id'', ''name'', ''ic50'', ''mw'', ''logp'', ''hbd'', ''hba'', ''psa'']"
    by (simp add: columns_def sample_compounds_def)
  show ?thesis by (intro conjI 1 2 3 4 5)
qed


text \<open>What a call changes, and what it leaves alone.\<close>

lemma call_calculate_lipinski_frame:
  assumes "call_calculate_lipinski r h = Some (r', h')"
  shows "r' = r \<and> length h' = length h \<and> calculate_lipinski (h ! r) = Some (h' ! r) \<and>
         (\<forall>a<length h. a \<noteq> r \<longrightarrow> h' ! a = h ! a)"
proof -
  from assms have r: "r < length h"
    by (simp add: call_calculate_lipinski_def split: if_splits)
  with assms obtain df where df: "calculate_lipinski (h ! r) = Some df" "r' = r" "h' = h[r := df]"
    by (auto simp: call_calculate_lipinski_def)
  show ?thesis using r by (simp add: df)
qed

lemma call_calculate_pic50_frame:
  assumes "call_calculate_pic50 r h = Some (r', h')"
  shows "r' = length h \<and> length h' = Suc (length h) \<and>
         pic50_inplace (h ! r) = Some (h' ! r) \<and> calculate_pic50 (h ! r) = Some (h' ! r') \<and>
         (\<forall>a<length h. a \<noteq> r \<longrightarrow> h' ! a = h ! a)"
proof -
  from assms have r: "r < length h"
    by (simp add: call_calculate_pic50_def split: if_splits)
  with assms obtain df where df: "pic50_inplace (h ! r) = Some df" "r' = length h"
      "h' = h[r := df] @ [drop_columns df [''ic50_M'']]"
    by (auto simp: call_calculate_pic50_def)
  show ?thesis using r by (simp add: df calculate_pic50_def nth_append)
qed

lemma transform_loaded_frame:
  assumes "r < length h" "transform_loaded r h = Some (r', h')"
  shows "(\<forall>a<length h. h' ! a = h ! a) \<and>
         (calculate_lipinski (h ! r) \<bind> calculate_pic50) = Some (h' ! r')"
proof -
  let ?h1 = "h @ [h ! r]"
  from assms(2) obtain r1 h2 where
    s1: "call_calculate_lipinski (length h) ?h1 = Some (r1, h2)"
    and s2: "call_calculate_pic50 (length h2) (h2 @ [h2 ! r1]) = Some (r', h')"
    by (auto simp: transform_loaded_def copy_def Let_def split: Option.bind_splits)
  from call_calculate_lipinski_frame[OF s1]
  have a: "r1 = length h" "length h2 = Suc (length h)"
          "calculate_lipinski (h ! r) = Some (h2 ! length h)"
          "\<forall>a<length h. h2 ! a = h ! a"
    by (simp_all add: nth_append)
  let ?h3 = "h2 @ [h2 ! r1]"
  from call_calculate_pic50_frame[OF s2]
  have b: "r' = Suc (Suc (length h))"
          "calculate_pic50 (h2 ! length h) = Some (h' ! r')"
          "\<forall>a<Suc (length h). h' ! a = ?h3 ! a"
    using a(1,2) by (simp_all add: nth_append)
  have "h' ! k = h ! k" if "k < length h" for k
    using that a(2,4) b(3) by (simp add: nth_append)
  then show ?thesis using a(3) b(2) by simp
qed

text \<open>
  Claim C5, amended. \<open>calculate_lipinski\<close> changes the table it is given and returns it;
  \<open>calculate_pic50\<close> adds its columns to the table it is given and returns a new table.
  Neither touches any other table. Called each on a copy, as the dashboard does, they leave
  every table that existed before, the caller's original one among them, as it was, and the
  last table returned is \<open>calculate_pic50\<close> of \<open>calculate_lipinski\<close> of the original.
\<close>

theorem transforms_work_in_place:
  "(call_calculate_lipinski r h = Some (r', h') \<longrightarrow>
      r' = r \<and> length h' = length h \<and> calculate_lipinski (h ! r) = Some (h' ! r) \<and>
      (\<forall>a<length h. a \<noteq> r \<longrightarrow> h' ! a = h ! a)) \<and>
   (call_calculate_pic50 r h = Some (r', h') \<longrightarrow>
      r' = length h \<and> length h' = Suc (length h) \<and>
      pic50_inplace (h ! r) = Some (h' ! r) \<and> calculate_pic50 (h ! r) = Some (h' ! r') \<and>
      (\<forall>a<length h. a \<noteq> r \<longrightarrow> h' ! a = h ! a)) \<and>
   (r < length h \<and> transform_loaded r h = Some (r', h') \<longrightarrow>
      (\<forall>a<length h. h' ! a = h ! a) \<and>
      (calculate_lipinski (h ! r) \<bind> calculate_pic50) = Some (h' ! r'))"
proof -
  have 1: "call_calculate_lipinski r h = Some (r', h') \<longrightarrow>
      r' = r \<and> length h' = length h \<and> calculate_lipinski (h ! r) = Some (h' ! r) \<and>
      (\<forall>a<length h. a \<noteq> r \<longrightarrow> h' ! a = h ! a)"
    by (rule impI) (rule call_calculate_lipinski_frame)
  have 2: "call_calculate_pic50 r h = Some (r', h') \<longrightarrow>
      r' = length h \<and> length h' = Suc (length h) \<and>
      pic50_inplace (h ! r) = Some (h' ! r) \<and> calculate_pic50 (h ! r) = Some (h' ! r') \<and>
      (\<forall>a<length h. a \<noteq> r \<longrightarrow> h' ! a = h ! a)"
    by (rule impI) (rule call_calculate_pic50_frame)
  have 3: "r < length h \<and> transform_loaded r h = Some (r', h') \<longrightarrow>
      (\<forall>a<length h. h' ! a = h ! a) \<and>
      (calculate_lipinski (h ! r) \<bind> calculate_pic50) = Some (h' ! r')"
    by (rule impI, elim conjE) (rule transform_loaded_frame)
  show ?thesis by (rule conjI[OF 1 conjI[OF 2 3]])
qed


text \<open>The dashboard's two calls on the fixture of the test leave the fixture as it was.\<close>

theorem transforms_work_in_place_witness:
  "\<exists>r' h'. transform_loaded 0 [sample_compounds] = Some (r', h') \<and>
     h' ! 0 = sample_compounds \<and>
     (calculate_lipinski sample_compounds \<bind> calculate_pic50) = Some (h' ! r')"
proof -
  let ?ms = "[Fin 450, Fin 510, Fin 620, Fin 400]"
  let ?ls = "[Fin (9 / 2), Fin (24 / 5), Fin (11 / 2), Fin 6]"
  let ?ds = "[Fin 4, Fin 5, Fin 6, Fin 3]"
  let ?as = "[Fin 8, Fin 9, Fin 11, Fin 12]"
  let ?xs = "[Fin (21 / 2), Fin 200, Fin 600, Fin 150]"
  let ?L = "lipinski_result sample_compounds ?ms ?ls ?ds ?as"
  let ?M = "complete_mask ?ms ?ls ?ds ?as 4"
  have g: "getitem sample_compounds ''mw'' = Some (map F ?ms)"
          "getitem sample_compounds ''logp'' = Some (map F ?ls)"
          "getitem sample_compounds ''hbd'' = Some [I 4, I 5, I 6, I 3]"
          "getitem sample_compounds ''hba'' = Some [I 8, I 9, I 11, I 12]"
    by (simp_all add: sample_compounds_def getitem_def)
  have gi: "getitem sample_compounds ''ic50'' = Some (map F ?xs)"
    by (simp add: sample_compounds_def getitem_def)
  have n: "nums (map F ?ms) = Some ?ms" "nums (map F ?ls) = Some ?ls"
          "nums [I 4, I 5, I 6, I 3] = Some ?ds" "nums [I 8, I 9, I 11, I 12] = Some ?as"
    by (simp_all add: nums_def)
  have ni: "nums (map F ?xs) = Some ?xs" by (simp add: nums_def)
  have r: "nrows sample_compounds = 4" by (simp add: sample_compounds_def)
  have l: "length (map F ?ms) = nrows sample_compounds"
          "length (map F ?ls) = nrows sample_compounds"
          "length [I 4, I 5, I 6, I 3] = nrows sample_compounds"
          "length [I 8, I 9, I 11, I 12] = nrows sample_compounds"
    by (simp_all add: r)
  have a: "calculate_lipinski sample_compounds = Some ?L"
    by (rule calculate_lipinski_eq[OF g n l])
  have gL: "getitem ?L ''ic50'' = Some (select ?M (map F ?xs))"
    by (simp add: getitem_lipinski_result gi r)
  obtain P where P: "pic50_inplace ?L = Some P"
    using pic50_inplace_eq[OF gL nums_select[OF ni]] by blast
  have run: "transform_loaded 0 [sample_compounds] =
             Some (3, [sample_compounds, ?L, P, drop_columns P [''ic50_M'']])"
    by (simp add: transform_loaded_def copy_def call_calculate_lipinski_def
          call_calculate_pic50_def a P)
  have "0 < length [sample_compounds] \<and>
        transform_loaded 0 [sample_compounds] =
          Some (3, [sample_compounds, ?L, P, drop_columns P [''ic50_M'']])"
    using run by simp
  from transforms_work_in_place[THEN conjunct2, THEN conjunct2, THEN mp, OF this]
  have "[sample_compounds, ?L, P, drop_columns P [''ic50_M'']] ! 0 = [sample_compounds] ! 0"
       "(calculate_lipinski ([sample_compounds] ! 0) \<bind> calculate_pic50) =
          Some ([sample_compounds, ?L, P, drop_columns P [''ic50_M'']] ! 3)"
    by simp_all
  then show ?thesis
    using run by (intro exI[of _ 3] exI[of _ "[sample_compounds, ?L, P, drop_columns P [''ic50_M'']]"]) simp
qed

end
